(* ===== verification/Prelude.thy ===== *)
theory Prelude
  imports "HOL-Library.Word" "HOL-Library.List_Lexorder" "HOL-Library.Product_Lexorder"
    "HOL-Library.Option_ord" "HOL-Library.Sublist"
begin

text \<open>
  The vocabulary every component theory shares: the names of the machine types the Rust
  sources use, fallible results as values of a sum type with their propagation operator (the
  \<open>?\<close> of the sources), checked and saturating arithmetic on unsigned words, byte-string
  literals, and the collections of rewrite rules the component theories extend.
\<close>

section \<open>Collections\<close>

named_theorems result_elims
  \<open>inversion of a fallible computation that returned normally\<close>

section \<open>Machine types\<close>

type_synonym u8 = "8 word"
type_synonym u16 = "16 word"
type_synonym u32 = "32 word"
type_synonym u64 = "64 word"
type_synonym bytes = "u8 list"

definition bytes_of :: "string \<Rightarrow> bytes" where
  "bytes_of s = map of_char s"

lemma bytes_of_Nil [simp]: "bytes_of [] = []"
  by (simp add: bytes_of_def)

lemma bytes_of_Cons [simp]: "bytes_of (c # cs) = of_char c # bytes_of cs"
  by (simp add: bytes_of_def)

lemma length_bytes_of [simp]: "length (bytes_of s) = length s"
  by (simp add: bytes_of_def)

text \<open>
  \<open>checked_add(1)\<close> and \<open>saturating_add(1)\<close> of the unsigned integer types, and the value
  \<open>MAX\<close> at which they differ from wrapping addition.
\<close>

abbreviation max_value :: "'w::len word" where
  "max_value \<equiv> - 1"

definition checked_succ :: "'w::len word \<Rightarrow> 'w word option" where
  "checked_succ w = (if w = max_value then None else Some (w + 1))"

definition saturating_succ :: "'w::len word \<Rightarrow> 'w word" where
  "saturating_succ w = (if w = max_value then w else w + 1)"

lemma unat_succ:
  fixes w :: "'w::len word"
  assumes "w \<noteq> max_value"
  shows "unat (w + 1) = Suc (unat w)"
proof -
  have "1 + w \<noteq> 0"
    using assms by (simp add: add_eq_0_iff)
  then show ?thesis
    by (simp add: unatSuc add.commute [of w 1])
qed

lemma checked_succ_Some:
  "checked_succ w = Some v \<longleftrightarrow> w \<noteq> max_value \<and> v = w + 1"
  by (auto simp: checked_succ_def)

lemma checked_succ_unat: "checked_succ w = Some v \<Longrightarrow> unat v = Suc (unat w)"
  by (auto simp: checked_succ_Some unat_succ)

lemma checked_succ_less: "checked_succ w = Some v \<Longrightarrow> w < v"
  by (simp add: checked_succ_unat word_less_nat_alt)

lemma saturating_succ_ge: "w \<le> saturating_succ w"
  by (auto simp: saturating_succ_def word_le_nat_alt unat_succ)

lemma saturating_succ_unat:
  fixes w :: "'w::len word"
  shows "unat (saturating_succ w) = min (Suc (unat w)) (2 ^ LENGTH('w) - 1)"
proof (cases "w = max_value")
  case True
  then show ?thesis
    by (simp add: saturating_succ_def unsigned_minus_1_eq_mask mask_eq_exp_minus_1)
next
  case False
  then have "unat (w + 1) = Suc (unat w)"
    by (rule unat_succ)
  moreover have "unat (w + 1) < 2 ^ LENGTH('w)"
    using unsigned_less [of "w + 1"] by simp
  ultimately show ?thesis
    using False by (simp add: saturating_succ_def)
qed

section \<open>Fallible computations\<close>

text \<open>
  \<open>Result<T, E>\<close> is the sum \<open>'e + 'a\<close> with the error on the left; \<open>rbind\<close> is the propagation of
  an early return by \<open>?\<close>, \<open>or_raise\<close> is \<open>Option::ok_or\<close>, \<open>map_err\<close> is \<open>Result::map_err\<close>.
\<close>

definition rbind :: "'e + 'a \<Rightarrow> ('a \<Rightarrow> 'e + 'b) \<Rightarrow> 'e + 'b" where
  "rbind r f = (case r of Inl e \<Rightarrow> Inl e | Inr x \<Rightarrow> f x)"

definition or_raise :: "'e \<Rightarrow> 'a option \<Rightarrow> 'e + 'a" where
  "or_raise e v = (case v of None \<Rightarrow> Inl e | Some x \<Rightarrow> Inr x)"

definition map_err :: "('e \<Rightarrow> 'f) \<Rightarrow> 'e + 'a \<Rightarrow> 'f + 'a" where
  "map_err f r = (case r of Inl e \<Rightarrow> Inl (f e) | Inr x \<Rightarrow> Inr x)"

definition ok :: "'e + 'a \<Rightarrow> 'a option" where
  "ok r = (case r of Inl _ \<Rightarrow> None | Inr x \<Rightarrow> Some x)"

definition is_ok :: "'e + 'a \<Rightarrow> bool" where
  "is_ok r = (case r of Inl _ \<Rightarrow> False | Inr _ \<Rightarrow> True)"

lemma rbind_simps [simp]:
  "rbind (Inl e) f = Inl e" "rbind (Inr x) f = f x"
  by (simp_all add: rbind_def)

lemma or_raise_simps [simp]:
  "or_raise e None = Inl e" "or_raise e (Some x) = Inr x"
  by (simp_all add: or_raise_def)

lemma map_err_simps [simp]:
  "map_err f (Inl e) = Inl (f e)" "map_err f (Inr x) = Inr x"
  by (simp_all add: map_err_def)

lemma ok_simps [simp]:
  "ok (Inl e) = None" "ok (Inr x) = Some x"
  by (simp_all add: ok_def)

lemma is_ok_simps [simp]:
  "is_ok (Inl e) \<longleftrightarrow> False" "is_ok (Inr x) \<longleftrightarrow> True"
  by (simp_all add: is_ok_def)

lemma rbind_Inr_iff [simp]: "rbind r f = Inr y \<longleftrightarrow> (\<exists>x. r = Inr x \<and> f x = Inr y)"
  by (cases r) auto

lemma rbind_Inl_iff:
  "rbind r f = Inl e \<longleftrightarrow> r = Inl e \<or> (\<exists>x. r = Inr x \<and> f x = Inl e)"
  by (cases r) auto

lemma or_raise_Inr_iff [simp]: "or_raise e v = Inr x \<longleftrightarrow> v = Some x"
  by (cases v) auto

lemma map_err_Inr_iff [simp]: "map_err f r = Inr x \<longleftrightarrow> r = Inr x"
  by (cases r) auto

lemma ok_Some_iff [simp]: "ok r = Some x \<longleftrightarrow> r = Inr x"
  by (cases r) auto

lemma rbind_split:
  "P (rbind r f) \<longleftrightarrow> (\<forall>e. r = Inl e \<longrightarrow> P (Inl e)) \<and> (\<forall>x. r = Inr x \<longrightarrow> P (f x))"
  by (cases r) auto

lemma rbind_cong [fundef_cong]:
  "r = r' \<Longrightarrow> (\<And>x. r' = Inr x \<Longrightarrow> f x = g x) \<Longrightarrow> rbind r f = rbind r' g"
  by (cases r') auto

lemma rbindE [elim, result_elims]:
  assumes "rbind r f = Inr y"
  obtains x where "r = Inr x" "f x = Inr y"
  using assms by auto

text \<open>
  \<open>try_fold\<close>: a loop over a list whose body may return early with an error.
\<close>

fun try_fold :: "('s \<Rightarrow> 'a \<Rightarrow> 'e + 's) \<Rightarrow> 's \<Rightarrow> 'a list \<Rightarrow> 'e + 's" where
  "try_fold f s [] = Inr s"
| "try_fold f s (x # xs) = rbind (f s x) (\<lambda>s'. try_fold f s' xs)"

lemma try_fold_append:
  "try_fold f s (xs @ ys) = rbind (try_fold f s xs) (\<lambda>s'. try_fold f s' ys)"
  by (induction xs arbitrary: s) (auto simp: rbind_def split: sum.splits)

lemma try_fold_invariant:
  assumes "try_fold f s xs = Inr t" "P s"
    and "\<And>s x s'. \<lbrakk>P s; x \<in> set xs; f s x = Inr s'\<rbrakk> \<Longrightarrow> P s'"
  shows "P t"
  using assms
proof (induction xs arbitrary: s)
  case (Cons x xs)
  from Cons.prems(1) obtain s' where s': "f s x = Inr s'" "try_fold f s' xs = Inr t"
    by auto
  have "P s'"
    by (rule Cons.prems(3) [OF Cons.prems(2) _ s'(1)]) simp
  then show ?case
    by (rule Cons.IH [OF s'(2)]) (rule Cons.prems(3), auto)
qed simp

section \<open>Lists\<close>

text \<open>\<open>Iterator::nth\<close>.\<close>

definition nth_opt :: "nat \<Rightarrow> 'a list \<Rightarrow> 'a option" where
  "nth_opt i xs = (if i < length xs then Some (xs ! i) else None)"

definition last_opt :: "'a list \<Rightarrow> 'a option" where
  "last_opt xs = (if xs = [] then None else Some (last xs))"

lemma last_opt_simps [simp]:
  "last_opt [] = None" "last_opt (xs @ [x]) = Some x"
  by (simp_all add: last_opt_def)

lemma last_opt_None_iff [simp]: "last_opt xs = None \<longleftrightarrow> xs = []"
  by (simp add: last_opt_def)

lemma last_opt_append:
  "last_opt (xs @ ys) = (if ys = [] then last_opt xs else last_opt ys)"
  by (simp add: last_opt_def)

text \<open>A loop that returns at the first element for which its body returns something.\<close>

primrec first_some :: "('a \<Rightarrow> 'b option) \<Rightarrow> 'a list \<Rightarrow> 'b option" where
  "first_some f [] = None"
| "first_some f (x # xs) = (case f x of Some y \<Rightarrow> Some y | None \<Rightarrow> first_some f xs)"

lemma first_some_None_iff: "first_some f xs = None \<longleftrightarrow> (\<forall>x \<in> set xs. f x = None)"
  by (induction xs) (auto split: option.splits)

lemma first_some_Some: "first_some f xs = Some y \<Longrightarrow> \<exists>x \<in> set xs. f x = Some y"
  by (induction xs) (auto split: option.splits)

lemma map_filter_append: "List.map_filter f (xs @ ys) = List.map_filter f xs @ List.map_filter f ys"
  by (simp add: List.map_filter_def)

lemma map_filter_single: "List.map_filter f [x] = (case f x of None \<Rightarrow> [] | Some y \<Rightarrow> [y])"
  by (auto simp: List.map_filter_def)

text \<open>Lists numbered without a gap.\<close>

lemma distinct_if_ascending: "successively (<) xs \<Longrightarrow> distinct (xs :: 'a::linorder list)"
  by (simp add: successively_conv_sorted_wrt strict_sorted_iff)

lemma last_numbered:
  assumes "map f xs = [1..<Suc (length xs)]"
  shows "(case map_option f (last_opt xs) of None \<Rightarrow> 0 | Some n \<Rightarrow> n) = length xs"
proof (cases "xs = []")
  case False
  then have "f (last xs) = last (map f xs)"
    by (simp add: last_map)
  also have "\<dots> = length xs"
    using False by (simp add: assms Suc_le_eq)
  finally show ?thesis
    using False by (simp add: last_opt_def)
qed simp

lemma numbered_append:
  assumes "map f xs = [1..<Suc (length xs)]" "map f ys = [Suc (length xs)..<Suc (length xs) + length ys]"
  shows "map f (xs @ ys) = [1..<Suc (length (xs @ ys))]"
  using assms upt_add_eq_append [of 1 "Suc (length xs)" "length ys"] by simp

lemma foldl_invariant:
  assumes "P s" and "\<And>s x. \<lbrakk>P s; x \<in> set xs\<rbrakk> \<Longrightarrow> P (f s x)"
  shows "P (foldl f s xs)"
  using assms by (induction xs arbitrary: s) auto

end
