(* ===== verification/BTree_Map.thy ===== *)
theory BTree_Map
  imports Prelude
begin

text \<open>
  The ordered map and ordered set of the Rust standard library, which hold all of the
  repository's state: \<open>BTreeMap\<close> is a strictly sorted association list, so equality of the model
  is equality of contents and iteration is in key order, as the sources rely on when a policy
  check reports the first violation it meets. \<open>BTreeSet\<close> is the map to \<open>unit\<close>. The contract the
  components use is the locale \<open>ordered_map\<close>; the type satisfies it.
\<close>

section \<open>Sorted association lists\<close>

primrec al_insert :: "'k::linorder \<Rightarrow> 'v \<Rightarrow> ('k \<times> 'v) list \<Rightarrow> ('k \<times> 'v) list" where
  "al_insert k v [] = [(k, v)]"
| "al_insert k v (x # xs) =
     (if k < fst x then (k, v) # x # xs
      else if k = fst x then (k, v) # xs
      else x # al_insert k v xs)"

definition al_sorted :: "('k::linorder \<times> 'v) list \<Rightarrow> bool" where
  "al_sorted xs \<longleftrightarrow> sorted (map fst xs) \<and> distinct (map fst xs)"

lemma al_sorted_Nil [simp]: "al_sorted []"
  by (simp add: al_sorted_def)

lemma al_sorted_Cons [simp]:
  "al_sorted (x # xs) \<longleftrightarrow> al_sorted xs \<and> (\<forall>y \<in> set xs. fst x < fst y)"
  by (auto simp: al_sorted_def order_le_less)

lemma set_al_insert:
  "al_sorted xs \<Longrightarrow> set (al_insert k v xs) = insert (k, v) {x \<in> set xs. fst x \<noteq> k}"
  by (induction xs) auto

lemma al_sorted_insert [intro]: "al_sorted xs \<Longrightarrow> al_sorted (al_insert k v xs)"
  by (induction xs) (auto simp: set_al_insert)

lemma map_of_al_insert:
  "al_sorted xs \<Longrightarrow> map_of (al_insert k v xs) = (map_of xs)(k \<mapsto> v)"
proof (induction xs)
  case (Cons x xs)
  then show ?case
    by (cases x) (auto simp: fun_eq_iff)
qed simp

lemma al_sorted_filter [intro]: "al_sorted xs \<Longrightarrow> al_sorted (filter P xs)"
  by (induction xs) auto

lemma map_of_al_filter:
  "al_sorted xs \<Longrightarrow> map_of (filter P xs) k =
     (case map_of xs k of Some v \<Rightarrow> if P (k, v) then Some v else None | None \<Rightarrow> None)"
proof (induction xs)
  case (Cons x xs)
  then have "map_of xs (fst x) = None"
    by (auto simp: map_of_eq_None_iff)
  with Cons show ?case
    by (cases x) (auto split: option.splits)
qed simp

lemma al_sorted_unique:
  assumes "al_sorted xs" "al_sorted ys" "map_of xs = map_of ys"
  shows "xs = ys"
proof -
  have eq: "set xs = set ys"
    using assms map_of_inject_set unfolding al_sorted_def by blast
  show ?thesis
    by (rule map_sorted_distinct_set_unique [where f = fst])
      (use assms(1,2) eq in \<open>auto simp: al_sorted_def distinct_map\<close>)
qed

section \<open>The ordered map\<close>

typedef (overloaded) ('k::linorder, 'v) btree_map =
  "{xs :: ('k \<times> 'v) list. al_sorted xs}"
  by (rule exI [of _ "[]"]) simp

setup_lifting type_definition_btree_map

lift_definition bt_empty :: "('k::linorder, 'v) btree_map" is "[]"
  by simp

lift_definition bt_get :: "('k::linorder, 'v) btree_map \<Rightarrow> 'k \<Rightarrow> 'v option" is map_of .

lift_definition bt_insert :: "'k::linorder \<Rightarrow> 'v \<Rightarrow> ('k, 'v) btree_map \<Rightarrow> ('k, 'v) btree_map"
  is al_insert
  by auto

lift_definition bt_retain ::
  "('k::linorder \<Rightarrow> 'v \<Rightarrow> bool) \<Rightarrow> ('k, 'v) btree_map \<Rightarrow> ('k, 'v) btree_map"
  is "\<lambda>P. filter (\<lambda>(k, v). P k v)"
  by auto

lift_definition bt_entries :: "('k::linorder, 'v) btree_map \<Rightarrow> ('k \<times> 'v) list" is "\<lambda>xs. xs" .

definition bt_remove :: "'k::linorder \<Rightarrow> ('k, 'v) btree_map \<Rightarrow> ('k, 'v) btree_map" where
  "bt_remove k m = bt_retain (\<lambda>k' _. k' \<noteq> k) m"

definition bt_contains :: "('k::linorder, 'v) btree_map \<Rightarrow> 'k \<Rightarrow> bool" where
  "bt_contains m k \<longleftrightarrow> bt_get m k \<noteq> None"

definition bt_keys :: "('k::linorder, 'v) btree_map \<Rightarrow> 'k list" where
  "bt_keys m = map fst (bt_entries m)"

definition bt_values :: "('k::linorder, 'v) btree_map \<Rightarrow> 'v list" where
  "bt_values m = map snd (bt_entries m)"

definition bt_len :: "('k::linorder, 'v) btree_map \<Rightarrow> nat" where
  "bt_len m = length (bt_entries m)"

definition bt_is_empty :: "('k::linorder, 'v) btree_map \<Rightarrow> bool" where
  "bt_is_empty m \<longleftrightarrow> bt_entries m = []"

definition bt_extend ::
  "('k::linorder, 'v) btree_map \<Rightarrow> ('k \<times> 'v) list \<Rightarrow> ('k, 'v) btree_map" where
  "bt_extend m xs = foldl (\<lambda>m (k, v). bt_insert k v m) m xs"

definition bt_of_list :: "('k::linorder \<times> 'v) list \<Rightarrow> ('k, 'v) btree_map" where
  "bt_of_list xs = bt_extend bt_empty xs"

instantiation btree_map :: (linorder, equal) equal
begin

definition equal_btree_map :: "('a, 'b) btree_map \<Rightarrow> ('a, 'b) btree_map \<Rightarrow> bool" where
  "equal_btree_map m n \<longleftrightarrow> bt_entries m = bt_entries n"

instance
  by standard (simp add: equal_btree_map_def, transfer, simp)

end

lemma bt_eqI: "(\<And>k. bt_get m k = bt_get n k) \<Longrightarrow> m = n"
  by transfer (auto intro: al_sorted_unique)

lemma bt_get_empty [simp]: "bt_get bt_empty k = None"
  by transfer simp

lemma bt_get_insert [simp]: "bt_get (bt_insert k v m) k' = (if k' = k then Some v else bt_get m k')"
  by transfer (simp add: map_of_al_insert)

lemma bt_get_retain [simp]:
  "bt_get (bt_retain P m) k =
     (case bt_get m k of Some v \<Rightarrow> if P k v then Some v else None | None \<Rightarrow> None)"
  by transfer (simp add: map_of_al_filter split: option.splits)

lemma bt_get_remove [simp]: "bt_get (bt_remove k m) k' = (if k' = k then None else bt_get m k')"
  by (auto simp: bt_remove_def split: option.splits)

lemma bt_entries_iff [simp]: "(k, v) \<in> set (bt_entries m) \<longleftrightarrow> bt_get m k = Some v"
  by transfer (simp add: al_sorted_def)

lemma bt_entries_empty [simp]: "bt_entries bt_empty = []"
  by transfer simp

lemma bt_entries_insert [simp]: "bt_entries (bt_insert k v m) = al_insert k v (bt_entries m)"
  by transfer simp

lemma bt_entries_retain [simp]:
  "bt_entries (bt_retain P m) = filter (\<lambda>(k, v). P k v) (bt_entries m)"
  by transfer simp

lemma bt_entries_remove [simp]:
  "bt_entries (bt_remove k m) = filter (\<lambda>(k', _). k' \<noteq> k) (bt_entries m)"
  by (simp add: bt_remove_def)

lemma bt_entries_sorted: "sorted (map fst (bt_entries m))"
  by transfer (simp add: al_sorted_def)

lemma bt_entries_distinct [simp]: "distinct (map fst (bt_entries m))"
  by transfer (simp add: al_sorted_def)

lemma map_of_bt_entries [simp]: "map_of (bt_entries m) = bt_get m"
  by transfer simp

lemma bt_keys_distinct [simp]: "distinct (bt_keys m)"
  by (simp add: bt_keys_def)

lemma bt_contains_iff [simp]: "bt_contains m k \<longleftrightarrow> k \<in> dom (bt_get m)"
  by (auto simp: bt_contains_def)

lemma set_bt_keys [simp]: "set (bt_keys m) = dom (bt_get m)"
  by (auto simp: bt_keys_def dom_def image_iff) (metis bt_entries_iff fst_conv)

lemma bt_values_iff: "v \<in> set (bt_values m) \<longleftrightarrow> (\<exists>k. bt_get m k = Some v)"
  by (auto simp: bt_values_def image_iff) (metis bt_entries_iff snd_conv)

lemma finite_dom_bt_get [simp]: "finite (dom (bt_get m))"
  by (metis List.finite_set set_bt_keys)

lemma bt_is_empty_iff [simp]: "bt_is_empty m \<longleftrightarrow> m = bt_empty"
  unfolding bt_is_empty_def by transfer simp

lemma dom_bt_empty [simp]: "dom (bt_get bt_empty) = {}"
  by (auto simp: dom_def)

lemma dom_bt_insert [simp]: "dom (bt_get (bt_insert k v m)) = insert k (dom (bt_get m))"
  by (auto split: if_splits)

lemma dom_bt_remove [simp]: "dom (bt_get (bt_remove k m)) = dom (bt_get m) - {k}"
  by (auto split: if_splits)

lemma bt_insert_idem: "bt_get m k = Some v \<Longrightarrow> bt_insert k v m = m"
  by (rule bt_eqI) auto

lemma bt_remove_absent: "bt_get m k = None \<Longrightarrow> bt_remove k m = m"
  by (rule bt_eqI) auto

lemma bt_extend_simps [simp]:
  "bt_extend m [] = m" "bt_extend m ((k, v) # xs) = bt_extend (bt_insert k v m) xs"
  by (simp_all add: bt_extend_def)

lemma bt_get_extend: "bt_get (bt_extend m xs) = bt_get m ++ map_of (rev xs)"
proof (induction xs arbitrary: m)
  case (Cons x xs)
  then show ?case
    by (cases x) (auto simp: fun_eq_iff map_add_def split: option.splits)
qed simp

lemma bt_extend_append: "bt_extend m (xs @ ys) = bt_extend (bt_extend m xs) ys"
  by (simp add: bt_extend_def)

lemma bt_of_list_append: "bt_of_list (xs @ ys) = bt_extend (bt_of_list xs) ys"
  by (simp add: bt_of_list_def bt_extend_append)

lemma bt_get_of_list: "bt_get (bt_of_list xs) = map_of (rev xs)"
  by (simp add: bt_of_list_def bt_get_extend fun_eq_iff map_add_def split: option.splits)

lemma bt_extend_entries: "bt_get (bt_extend m (bt_entries n)) = bt_get m ++ bt_get n"
proof -
  have "map_of (rev (bt_entries n)) = map_of (bt_entries n)"
    by (subst map_of_inject_set) (simp_all flip: rev_map)
  then show ?thesis
    by (simp add: bt_get_extend)
qed

text \<open>
  The loop that walks one map and inserts a derived binding into another for each entry that
  passes a test.
\<close>

definition bt_collect ::
  "('k::linorder \<Rightarrow> 'v \<Rightarrow> bool) \<Rightarrow> ('k \<Rightarrow> 'v \<Rightarrow> 'w) \<Rightarrow> ('k, 'v) btree_map \<Rightarrow>
   ('k, 'w) btree_map \<Rightarrow> ('k, 'w) btree_map" where
  "bt_collect P f source target =
     foldl (\<lambda>m (k, v). if P k v then bt_insert k (f k v) m else m) target (bt_entries source)"

lemma bt_get_foldl_collect:
  "distinct (map fst xs) \<Longrightarrow>
   bt_get (foldl (\<lambda>m (k, v). if P k v then bt_insert k (f k v) m else m) m xs) k =
     (case map_of xs k of Some v \<Rightarrow> if P k v then Some (f k v) else bt_get m k | None \<Rightarrow> bt_get m k)"
proof (induction xs arbitrary: m)
  case (Cons x xs)
  obtain k' v' where x: "x = (k', v')"
    by (cases x)
  from Cons.prems x have "map_of xs k' = None"
    by (simp add: map_of_eq_None_iff)
  then show ?case
    using Cons x by (auto split: option.splits)
qed simp

lemma bt_get_collect [simp]:
  "bt_get (bt_collect P f source target) k =
     (case bt_get source k of
        Some v \<Rightarrow> if P k v then Some (f k v) else bt_get target k
      | None \<Rightarrow> bt_get target k)"
  by (simp add: bt_collect_def bt_get_foldl_collect)

section \<open>The ordered set\<close>

type_synonym 'a btree_set = "('a, unit) btree_map"

definition bs_insert :: "'a::linorder \<Rightarrow> 'a btree_set \<Rightarrow> 'a btree_set" where
  "bs_insert x s = bt_insert x () s"

definition bs_extend :: "'a::linorder btree_set \<Rightarrow> 'a list \<Rightarrow> 'a btree_set" where
  "bs_extend s xs = foldl (\<lambda>s x. bs_insert x s) s xs"

definition bs_of_list :: "'a::linorder list \<Rightarrow> 'a btree_set" where
  "bs_of_list xs = bs_extend bt_empty xs"

abbreviation bs_set :: "'a::linorder btree_set \<Rightarrow> 'a set" where
  "bs_set s \<equiv> dom (bt_get s)"

lemma bt_get_bs_insert: "bt_get (bs_insert x s) y = (if y = x then Some () else bt_get s y)"
  by (simp add: bs_insert_def)

lemma bs_set_insert [simp]: "bs_set (bs_insert x s) = insert x (bs_set s)"
  by (auto simp: bs_insert_def split: if_splits)

lemma bs_set_extend [simp]: "bs_set (bs_extend s xs) = bs_set s \<union> set xs"
  by (induction xs arbitrary: s) (auto simp: bs_extend_def)

lemma bs_set_of_list [simp]: "bs_set (bs_of_list xs) = set xs"
  by (simp add: bs_of_list_def)

lemma bs_eqI: "bs_set s = bs_set t \<Longrightarrow> s = t"
  by (rule bt_eqI) (metis (full_types) domIff option.exhaust unit.exhaust)

section \<open>The contract of an ordered map\<close>

text \<open>
  What a component may rely on about the map that holds its state: the lookup laws, that
  iteration enumerates exactly the bindings in increasing key order, and that a map is
  determined by its lookups.
\<close>

locale ordered_map =
  fixes empty :: 'm
    and get :: "'m \<Rightarrow> 'k::linorder \<Rightarrow> 'v option"
    and ins :: "'k \<Rightarrow> 'v \<Rightarrow> 'm \<Rightarrow> 'm"
    and del :: "'k \<Rightarrow> 'm \<Rightarrow> 'm"
    and entries :: "'m \<Rightarrow> ('k \<times> 'v) list"
  assumes get_empty: "get empty k = None"
    and get_ins: "get (ins k v m) k' = (if k' = k then Some v else get m k')"
    and get_del: "get (del k m) k' = (if k' = k then None else get m k')"
    and entries_iff: "(k, v) \<in> set (entries m) \<longleftrightarrow> get m k = Some v"
    and entries_sorted: "sorted (map fst (entries m))"
    and entries_distinct: "distinct (map fst (entries m))"
    and ext: "(\<And>k. get m k = get n k) \<Longrightarrow> m = n"
begin

lemma ins_commute: "k \<noteq> k' \<Longrightarrow> ins k v (ins k' v' m) = ins k' v' (ins k v m)"
  by (rule ext) (simp add: get_ins)

lemma ins_overwrite: "ins k v (ins k v' m) = ins k v m"
  by (rule ext) (simp add: get_ins)

lemma del_ins: "get m k = None \<Longrightarrow> del k (ins k v m) = m"
  by (rule ext) (simp add: get_ins get_del)

lemma map_fst_entries: "map fst (entries m) = sorted_list_of_set (dom (get m))"
proof -
  have "set (map fst (entries m)) = dom (get m)"
    by (auto simp: entries_iff dom_def image_iff) (metis entries_iff fst_conv)
  then show ?thesis
    by (metis entries_sorted entries_distinct sorted_list_of_set.idem_if_sorted_distinct)
qed

lemma entries_eq: "entries m = map (\<lambda>k. (k, the (get m k))) (sorted_list_of_set (dom (get m)))"
proof -
  have "entries m = map (\<lambda>x. (fst x, the (get m (fst x)))) (entries m)"
    by (rule map_idI [symmetric]) (auto simp: entries_iff)
  then show ?thesis
    unfolding map_fst_entries [symmetric] by (simp add: comp_def)
qed

lemma rebuild: "foldl (\<lambda>n (k, v). ins k v n) empty (entries m) = m"
proof -
  have *: "get (foldl (\<lambda>n (k, v). ins k v n) n xs) = get n ++ map_of (rev xs)" for n xs
    by (induction xs arbitrary: n)
      (auto simp: get_ins fun_eq_iff map_add_def split: option.splits)
  have "map_of (rev (entries m)) = map_of (entries m)"
    by (subst map_of_inject_set) (simp_all add: entries_distinct flip: rev_map)
  moreover have "map_of (entries m) k = get m k" for k
    using entries_distinct by (cases "get m k") (auto simp: map_of_eq_None_iff entries_iff map_fst_entries)
  ultimately show ?thesis
    by (intro ext) (simp add: * map_add_def get_empty split: option.splits)
qed

end

interpretation bt: ordered_map bt_empty bt_get bt_insert bt_remove bt_entries
  by unfold_locales (auto intro: bt_eqI simp: bt_entries_sorted)

text \<open>
  Two maps with the same bindings are iterated in the same order whatever order the bindings
  were inserted in.
\<close>

lemma bt_entries_cong: "bt_get m = bt_get n \<Longrightarrow> bt_entries m = bt_entries n"
  by (simp add: bt.entries_eq)

end
