(* ===== verification/Identities.thy ===== *)
theory Identities
  imports BTree_Map
begin

text \<open>
  The identity and counter types of \<open>fgit-types\<close>: construction refusals (\<open>error.rs\<close>), bounded
  labels (\<open>label.rs\<close>), digests (\<open>hash.rs\<close>), assigned and derived identities (\<open>identity.rs\<close>),
  gap-free counters (\<open>numeric.rs\<close>) and native Git object names with their hexadecimal text form
  (\<open>native.rs\<close>). The structures that key an ordered map are datatypes whose order is the one the
  sources derive or implement: lexicographic in field order. Fixed-size byte arrays are byte
  lists whose length the constructors check.

  The macros that stamp out one newtype per use take the name of the field they report as an
  argument; the newtypes are kept apart by a phantom type parameter.
\<close>

section \<open>Construction refusals (error.rs)\<close>

datatype git_hash_algorithm = Alg_Sha1 | Alg_Sha256

datatype digest_algorithm_id = DigestAlgorithmId (algorithm_code_point: u16)

datatype type_refusal =
    LengthOutOfRange string u32 u32 u32
  | ByteNotPermitted string u32 u8
  | ValueOutOfRange string u64 u64 u64
  | CodePointUnknown string u32
  | DomainMismatch string string
  | HashDomainMismatch git_hash_algorithm git_hash_algorithm
  | RefNameStructureInvalid string u32
  | DigestLengthMismatch digest_algorithm_id u32 u32

text \<open>\<open>u32::try_from(n).unwrap_or(u32::MAX)\<close>.\<close>

definition clamp_u32 :: "nat \<Rightarrow> u32" where
  "clamp_u32 n = (if n < 2 ^ 32 then of_nat n else max_value)"

section \<open>Labels (label.rs)\<close>

definition MAX_LABEL_LEN :: nat where
  "MAX_LABEL_LEN = 64"

definition byte_is_permitted :: "u8 \<Rightarrow> bool" where
  "byte_is_permitted b \<longleftrightarrow>
     (97 \<le> b \<and> b \<le> 122) \<or> (48 \<le> b \<and> b \<le> 57) \<or> b \<in> {45, 95, 46, 47}"

datatype ascii_slug = AsciiSlug (slug_bytes: bytes)

fun slug_scan :: "string \<Rightarrow> nat \<Rightarrow> bytes \<Rightarrow> type_refusal + unit" where
  "slug_scan field offset [] = Inr ()"
| "slug_scan field offset (b # bs) =
     (if \<not> byte_is_permitted b then Inl (ByteNotPermitted field (clamp_u32 offset) b)
      else slug_scan field (Suc offset) bs)"

definition slug_try_new :: "string \<Rightarrow> bytes \<Rightarrow> type_refusal + ascii_slug" where
  "slug_try_new field source =
     (if source = [] \<or> length source > MAX_LABEL_LEN
      then Inl (LengthOutOfRange field (clamp_u32 (length source)) 1 64)
      else rbind (slug_scan field 0 source) (\<lambda>_. Inr (AsciiSlug source)))"

datatype schema_id =
  SchemaId (schema_family: ascii_slug) (schema_major: u16) (schema_minor: u16)

section \<open>Digests (hash.rs)\<close>

definition MIN_DIGEST_LEN :: nat where
  "MIN_DIGEST_LEN = 16"

definition MAX_DIGEST_LEN :: nat where
  "MAX_DIGEST_LEN = 64"

definition digest_algorithm_try_new :: "u16 \<Rightarrow> type_refusal + digest_algorithm_id" where
  "digest_algorithm_try_new code_point =
     (if code_point = 0 then Inl (ValueOutOfRange ''DigestAlgorithmId'' 0 1 65535)
      else Inr (DigestAlgorithmId code_point))"

datatype digest_bytes = DigestBytes (digest_body: bytes)

definition digest_bytes_try_new :: "bytes \<Rightarrow> type_refusal + digest_bytes" where
  "digest_bytes_try_new source =
     (if length source < MIN_DIGEST_LEN \<or> length source > MAX_DIGEST_LEN
      then Inl (LengthOutOfRange ''DigestBytes'' (clamp_u32 (length source)) 16 64)
      else Inr (DigestBytes source))"

datatype digest = Digest (digest_algorithm: digest_algorithm_id) (digest_value: digest_bytes)

definition digest_new_checked ::
  "digest_algorithm_id \<Rightarrow> digest_bytes \<Rightarrow> nat \<Rightarrow> type_refusal + digest" where
  "digest_new_checked algorithm bytes registry_len =
     (if length (digest_body bytes) \<noteq> registry_len
      then Inl (DigestLengthMismatch algorithm (clamp_u32 registry_len)
                  (clamp_u32 (length (digest_body bytes))))
      else Inr (Digest algorithm bytes))"

section \<open>Gap-free counters (numeric.rs)\<close>

datatype 'd counter = Counter (counter_get: u64)

datatype (plugins only: code) decision_tag = Decision_Tag
datatype (plugins only: code) repository_tag = Repository_Tag
datatype (plugins only: code) generation_tag = Generation_Tag
datatype (plugins only: code) policy_tag = Policy_Tag
datatype (plugins only: code) registry_tag = Registry_Tag

type_synonym decision_sequence = "decision_tag counter"
type_synonym repository_sequence = "repository_tag counter"
type_synonym head_generation = "generation_tag counter"
type_synonym policy_epoch = "policy_tag counter"
type_synonym registry_epoch = "registry_tag counter"

definition counter_FIRST :: "'d counter" where
  "counter_FIRST = Counter 1"

definition counter_try_new :: "string \<Rightarrow> u64 \<Rightarrow> type_refusal + 'd counter" where
  "counter_try_new field v =
     (if v = 0 then Inl (ValueOutOfRange field v 1 max_value) else Inr (Counter v))"

definition counter_next :: "string \<Rightarrow> 'd counter \<Rightarrow> type_refusal + 'd counter" where
  "counter_next field c =
     or_raise (ValueOutOfRange field (counter_get c) 1 (max_value - 1))
       (map_option Counter (checked_succ (counter_get c)))"

definition is_immediate_predecessor_of :: "'d counter \<Rightarrow> 'd counter \<Rightarrow> bool" where
  "is_immediate_predecessor_of c later \<longleftrightarrow>
     counter_get c < counter_get later \<and> counter_get later - counter_get c = 1"

datatype codec_version = CodecVersion (codec_major: u16) (codec_minor: u16)

section \<open>Assigned and derived identities (identity.rs)\<close>

definition OPAQUE_ID_LEN :: nat where
  "OPAQUE_ID_LEN = 16"

datatype 'd opaque_id = OpaqueId (opaque_bytes: bytes)

datatype internal_object_id =
  InternalObjectId (id_algorithm: digest_algorithm_id) (id_domain: ascii_slug)
    (id_codec_version: codec_version) (id_digest: digest_bytes)

datatype 'd derived_id = DerivedId (as_internal_object_id: internal_object_id)

definition derived_from_digest ::
  "ascii_slug \<Rightarrow> digest_algorithm_id \<Rightarrow> codec_version \<Rightarrow> digest_bytes \<Rightarrow> 'd derived_id" where
  "derived_from_digest domain algorithm codec_version digest =
     DerivedId (InternalObjectId algorithm domain codec_version digest)"

definition from_internal_object_id ::
  "string \<Rightarrow> string \<Rightarrow> internal_object_id \<Rightarrow> type_refusal + 'd derived_id" where
  "from_internal_object_id field domain i =
     (if slug_bytes (id_domain i) = bytes_of domain then Inr (DerivedId i)
      else Inl (DomainMismatch field domain))"

datatype (plugins only: code) tenant_tag = Tenant_Tag
datatype (plugins only: code) repo_tag = Repo_Tag
datatype (plugins only: code) principal_tag = Principal_Tag

type_synonym tenant_id = "tenant_tag opaque_id"
type_synonym repository_id = "repo_tag opaque_id"
type_synonym principal_id = "principal_tag opaque_id"

datatype (plugins only: code) tx_tag = Tx_Tag
datatype (plugins only: code) seal_tag = Seal_Tag
datatype (plugins only: code) capsule_tag = Capsule_Tag
datatype (plugins only: code) commit_tag = Commit_Tag
datatype (plugins only: code) batch_tag = Batch_Tag
datatype (plugins only: code) head_tag = Head_Tag
datatype (plugins only: code) refusal_tag = Refusal_Tag
datatype (plugins only: code) snapshot_tag = Snapshot_Tag

type_synonym tx_id = "tx_tag derived_id"
type_synonym transaction_seal_id = "seal_tag derived_id"
type_synonym prepared_txn_capsule_id = "capsule_tag derived_id"
type_synonym repository_commit_id = "commit_tag derived_id"
type_synonym repository_decision_batch_id = "batch_tag derived_id"
type_synonym repository_authority_head_id = "head_tag derived_id"
type_synonym refusal_record_id = "refusal_tag derived_id"
type_synonym principal_snapshot_id = "snapshot_tag derived_id"

datatype preparation_profile_id = PreparationProfileId (profile_label: ascii_slug)

definition profile_try_new :: "bytes \<Rightarrow> type_refusal + preparation_profile_id" where
  "profile_try_new source =
     rbind (slug_try_new ''PreparationProfileId'' source) (\<lambda>slug. Inr (PreparationProfileId slug))"

section \<open>Native object names (native.rs)\<close>

datatype git_oid = Sha1 bytes | Sha256 bytes

definition digest_len :: "git_hash_algorithm \<Rightarrow> nat" where
  "digest_len a = (case a of Alg_Sha1 \<Rightarrow> 20 | Alg_Sha256 \<Rightarrow> 32)"

fun oid_algorithm :: "git_oid \<Rightarrow> git_hash_algorithm" where
  "oid_algorithm (Sha1 _) = Alg_Sha1"
| "oid_algorithm (Sha256 _) = Alg_Sha256"

fun oid_bytes :: "git_oid \<Rightarrow> bytes" where
  "oid_bytes (Sha1 bs) = bs"
| "oid_bytes (Sha256 bs) = bs"

definition oid_wf :: "git_oid \<Rightarrow> bool" where
  "oid_wf oid \<longleftrightarrow> length (oid_bytes oid) = digest_len (oid_algorithm oid)"

definition hex_nibble :: "string \<Rightarrow> u8 \<Rightarrow> nat \<Rightarrow> type_refusal + u8" where
  "hex_nibble field byte offset =
     (if 48 \<le> byte \<and> byte \<le> 57 then Inr (byte - 48)
      else if 97 \<le> byte \<and> byte \<le> 102 then Inr (byte - 97 + 10)
      else Inl (ByteNotPermitted field (clamp_u32 offset) byte))"

unbundle bit_operations_syntax

fun parse_pairs :: "string \<Rightarrow> nat \<Rightarrow> bytes \<Rightarrow> type_refusal + bytes" where
  "parse_pairs field i (a # b # rest) =
     rbind (hex_nibble field a (i * 2)) (\<lambda>high.
     rbind (hex_nibble field b (i * 2 + 1)) (\<lambda>low.
     rbind (parse_pairs field (Suc i) rest) (\<lambda>out.
     Inr ((push_bit 4 high OR low) # out))))"
| "parse_pairs field i _ = Inr []"

definition parse_hex :: "nat \<Rightarrow> string \<Rightarrow> bytes \<Rightarrow> type_refusal + bytes" where
  "parse_hex n field source =
     (if length source \<noteq> n * 2
      then Inl (LengthOutOfRange field (clamp_u32 (length source)) (clamp_u32 (n * 2))
                  (clamp_u32 (n * 2)))
      else parse_pairs field 0 source)"

text \<open>The digit \<open>format!\<close> writes for a nibble, and \<open>write_hex\<close>, which formats with \<open>{byte:02x}\<close>.\<close>

definition hex_digit :: "u8 \<Rightarrow> u8" where
  "hex_digit n = (if n < 10 then 48 + n else 87 + n)"

definition write_hex :: "bytes \<Rightarrow> bytes" where
  "write_hex bs = concat (map (\<lambda>b. [hex_digit (drop_bit 4 b), hex_digit (b AND 15)]) bs)"

fun oid_from_hex :: "git_hash_algorithm \<Rightarrow> bytes \<Rightarrow> type_refusal + git_oid" where
  "oid_from_hex Alg_Sha1 source =
     rbind (parse_hex 20 ''GitOidSha1'' source) (\<lambda>bs. Inr (Sha1 bs))"
| "oid_from_hex Alg_Sha256 source =
     rbind (parse_hex 32 ''GitOidSha256'' source) (\<lambda>bs. Inr (Sha256 bs))"

definition opaque_from_hex :: "string \<Rightarrow> bytes \<Rightarrow> type_refusal + 'd opaque_id" where
  "opaque_from_hex field source =
     rbind (parse_hex OPAQUE_ID_LEN field source) (\<lambda>bs. Inr (OpaqueId bs))"

definition oid_is_zero :: "git_oid \<Rightarrow> bool" where
  "oid_is_zero oid \<longleftrightarrow> oid_bytes oid = replicate (digest_len (oid_algorithm oid)) 0"

section \<open>Orders\<close>

instantiation digest_algorithm_id :: linorder
begin

definition less_eq_digest_algorithm_id :: "digest_algorithm_id \<Rightarrow> digest_algorithm_id \<Rightarrow> bool" where
  "x \<le> y \<longleftrightarrow> algorithm_code_point x \<le> algorithm_code_point y"

definition less_digest_algorithm_id :: "digest_algorithm_id \<Rightarrow> digest_algorithm_id \<Rightarrow> bool" where
  "x < y \<longleftrightarrow> algorithm_code_point x < algorithm_code_point y"

instance
  by standard
    (auto simp: less_eq_digest_algorithm_id_def less_digest_algorithm_id_def less_le_not_le intro: digest_algorithm_id.expand)

end

lemma digest_algorithm_id_order [simp]:
  "DigestAlgorithmId a \<le> DigestAlgorithmId a' \<longleftrightarrow> a \<le> a'"
  "DigestAlgorithmId a < DigestAlgorithmId a' \<longleftrightarrow> a < a'"
  by (simp_all add: less_eq_digest_algorithm_id_def less_digest_algorithm_id_def)

instantiation ascii_slug :: linorder
begin

definition less_eq_ascii_slug :: "ascii_slug \<Rightarrow> ascii_slug \<Rightarrow> bool" where
  "x \<le> y \<longleftrightarrow> slug_bytes x \<le> slug_bytes y"

definition less_ascii_slug :: "ascii_slug \<Rightarrow> ascii_slug \<Rightarrow> bool" where
  "x < y \<longleftrightarrow> slug_bytes x < slug_bytes y"

instance
  by standard
    (auto simp: less_eq_ascii_slug_def less_ascii_slug_def less_le_not_le intro: ascii_slug.expand)

end

lemma ascii_slug_order [simp]:
  "AsciiSlug a \<le> AsciiSlug a' \<longleftrightarrow> a \<le> a'"
  "AsciiSlug a < AsciiSlug a' \<longleftrightarrow> a < a'"
  by (simp_all add: less_eq_ascii_slug_def less_ascii_slug_def)

definition schema_id_key :: "schema_id \<Rightarrow> ascii_slug \<times> u16 \<times> u16" where
  "schema_id_key x = (schema_family x, schema_major x, schema_minor x)"

lemma schema_id_key_inject [simp]: "schema_id_key x = schema_id_key y \<longleftrightarrow> x = y"
  by (cases x; cases y) (simp add: schema_id_key_def)

instantiation schema_id :: linorder
begin

definition less_eq_schema_id :: "schema_id \<Rightarrow> schema_id \<Rightarrow> bool" where
  "x \<le> y \<longleftrightarrow> schema_id_key x \<le> schema_id_key y"

definition less_schema_id :: "schema_id \<Rightarrow> schema_id \<Rightarrow> bool" where
  "x < y \<longleftrightarrow> schema_id_key x < schema_id_key y"

instance
  by standard
    (auto simp: less_eq_schema_id_def less_schema_id_def less_le_not_le simp flip: schema_id_key_inject)

end

lemma schema_id_order [simp]:
  "SchemaId a b c \<le> SchemaId a' b' c' \<longleftrightarrow> (a, b, c) \<le> (a', b', c')"
  "SchemaId a b c < SchemaId a' b' c' \<longleftrightarrow> (a, b, c) < (a', b', c')"
  by (simp_all add: less_eq_schema_id_def less_schema_id_def schema_id_key_def)

instantiation digest_bytes :: linorder
begin

definition less_eq_digest_bytes :: "digest_bytes \<Rightarrow> digest_bytes \<Rightarrow> bool" where
  "x \<le> y \<longleftrightarrow> digest_body x \<le> digest_body y"

definition less_digest_bytes :: "digest_bytes \<Rightarrow> digest_bytes \<Rightarrow> bool" where
  "x < y \<longleftrightarrow> digest_body x < digest_body y"

instance
  by standard
    (auto simp: less_eq_digest_bytes_def less_digest_bytes_def less_le_not_le intro: digest_bytes.expand)

end

lemma digest_bytes_order [simp]:
  "DigestBytes a \<le> DigestBytes a' \<longleftrightarrow> a \<le> a'"
  "DigestBytes a < DigestBytes a' \<longleftrightarrow> a < a'"
  by (simp_all add: less_eq_digest_bytes_def less_digest_bytes_def)

definition digest_key :: "digest \<Rightarrow> digest_algorithm_id \<times> digest_bytes" where
  "digest_key x = (digest_algorithm x, digest_value x)"

lemma digest_key_inject [simp]: "digest_key x = digest_key y \<longleftrightarrow> x = y"
  by (cases x; cases y) (simp add: digest_key_def)

instantiation digest :: linorder
begin

definition less_eq_digest :: "digest \<Rightarrow> digest \<Rightarrow> bool" where
  "x \<le> y \<longleftrightarrow> digest_key x \<le> digest_key y"

definition less_digest :: "digest \<Rightarrow> digest \<Rightarrow> bool" where
  "x < y \<longleftrightarrow> digest_key x < digest_key y"

instance
  by standard
    (auto simp: less_eq_digest_def less_digest_def less_le_not_le simp flip: digest_key_inject)

end

lemma digest_order [simp]:
  "Digest a b \<le> Digest a' b' \<longleftrightarrow> (a, b) \<le> (a', b')"
  "Digest a b < Digest a' b' \<longleftrightarrow> (a, b) < (a', b')"
  by (simp_all add: less_eq_digest_def less_digest_def digest_key_def)

instantiation counter :: (type) linorder
begin

definition less_eq_counter :: "'a counter \<Rightarrow> 'a counter \<Rightarrow> bool" where
  "x \<le> y \<longleftrightarrow> counter_get x \<le> counter_get y"

definition less_counter :: "'a counter \<Rightarrow> 'a counter \<Rightarrow> bool" where
  "x < y \<longleftrightarrow> counter_get x < counter_get y"

instance
  by standard
    (auto simp: less_eq_counter_def less_counter_def less_le_not_le intro: counter.expand)

end

lemma counter_order [simp]:
  "Counter a \<le> Counter a' \<longleftrightarrow> a \<le> a'"
  "Counter a < Counter a' \<longleftrightarrow> a < a'"
  by (simp_all add: less_eq_counter_def less_counter_def)

definition codec_version_key :: "codec_version \<Rightarrow> u16 \<times> u16" where
  "codec_version_key x = (codec_major x, codec_minor x)"

lemma codec_version_key_inject [simp]: "codec_version_key x = codec_version_key y \<longleftrightarrow> x = y"
  by (cases x; cases y) (simp add: codec_version_key_def)

instantiation codec_version :: linorder
begin

definition less_eq_codec_version :: "codec_version \<Rightarrow> codec_version \<Rightarrow> bool" where
  "x \<le> y \<longleftrightarrow> codec_version_key x \<le> codec_version_key y"

definition less_codec_version :: "codec_version \<Rightarrow> codec_version \<Rightarrow> bool" where
  "x < y \<longleftrightarrow> codec_version_key x < codec_version_key y"

instance
  by standard
    (auto simp: less_eq_codec_version_def less_codec_version_def less_le_not_le simp flip: codec_version_key_inject)

end

lemma codec_version_order [simp]:
  "CodecVersion a b \<le> CodecVersion a' b' \<longleftrightarrow> (a, b) \<le> (a', b')"
  "CodecVersion a b < CodecVersion a' b' \<longleftrightarrow> (a, b) < (a', b')"
  by (simp_all add: less_eq_codec_version_def less_codec_version_def codec_version_key_def)

instantiation opaque_id :: (type) linorder
begin

definition less_eq_opaque_id :: "'a opaque_id \<Rightarrow> 'a opaque_id \<Rightarrow> bool" where
  "x \<le> y \<longleftrightarrow> opaque_bytes x \<le> opaque_bytes y"

definition less_opaque_id :: "'a opaque_id \<Rightarrow> 'a opaque_id \<Rightarrow> bool" where
  "x < y \<longleftrightarrow> opaque_bytes x < opaque_bytes y"

instance
  by standard
    (auto simp: less_eq_opaque_id_def less_opaque_id_def less_le_not_le intro: opaque_id.expand)

end

lemma opaque_id_order [simp]:
  "OpaqueId a \<le> OpaqueId a' \<longleftrightarrow> a \<le> a'"
  "OpaqueId a < OpaqueId a' \<longleftrightarrow> a < a'"
  by (simp_all add: less_eq_opaque_id_def less_opaque_id_def)

definition internal_object_id_key :: "internal_object_id \<Rightarrow> digest_algorithm_id \<times> ascii_slug \<times> codec_version \<times> digest_bytes" where
  "internal_object_id_key x = (id_algorithm x, id_domain x, id_codec_version x, id_digest x)"

lemma internal_object_id_key_inject [simp]: "internal_object_id_key x = internal_object_id_key y \<longleftrightarrow> x = y"
  by (cases x; cases y) (simp add: internal_object_id_key_def)

instantiation internal_object_id :: linorder
begin

definition less_eq_internal_object_id :: "internal_object_id \<Rightarrow> internal_object_id \<Rightarrow> bool" where
  "x \<le> y \<longleftrightarrow> internal_object_id_key x \<le> internal_object_id_key y"

definition less_internal_object_id :: "internal_object_id \<Rightarrow> internal_object_id \<Rightarrow> bool" where
  "x < y \<longleftrightarrow> internal_object_id_key x < internal_object_id_key y"

instance
  by standard
    (auto simp: less_eq_internal_object_id_def less_internal_object_id_def less_le_not_le simp flip: internal_object_id_key_inject)

end

lemma internal_object_id_order [simp]:
  "InternalObjectId a b c d \<le> InternalObjectId a' b' c' d' \<longleftrightarrow> (a, b, c, d) \<le> (a', b', c', d')"
  "InternalObjectId a b c d < InternalObjectId a' b' c' d' \<longleftrightarrow> (a, b, c, d) < (a', b', c', d')"
  by (simp_all add: less_eq_internal_object_id_def less_internal_object_id_def internal_object_id_key_def)

instantiation derived_id :: (type) linorder
begin

definition less_eq_derived_id :: "'a derived_id \<Rightarrow> 'a derived_id \<Rightarrow> bool" where
  "x \<le> y \<longleftrightarrow> as_internal_object_id x \<le> as_internal_object_id y"

definition less_derived_id :: "'a derived_id \<Rightarrow> 'a derived_id \<Rightarrow> bool" where
  "x < y \<longleftrightarrow> as_internal_object_id x < as_internal_object_id y"

instance
  by standard
    (auto simp: less_eq_derived_id_def less_derived_id_def less_le_not_le intro: derived_id.expand)

end

lemma derived_id_order [simp]:
  "DerivedId a \<le> DerivedId a' \<longleftrightarrow> a \<le> a'"
  "DerivedId a < DerivedId a' \<longleftrightarrow> a < a'"
  by (simp_all add: less_eq_derived_id_def less_derived_id_def)

definition oid_key :: "git_oid \<Rightarrow> nat \<times> bytes" where
  "oid_key oid = ((case oid of Sha1 _ \<Rightarrow> 0 | Sha256 _ \<Rightarrow> 1), oid_bytes oid)"

lemma oid_key_inject [simp]: "oid_key x = oid_key y \<longleftrightarrow> x = y"
  by (cases x; cases y) (auto simp: oid_key_def)

instantiation git_oid :: linorder
begin

definition less_eq_git_oid :: "git_oid \<Rightarrow> git_oid \<Rightarrow> bool" where
  "x \<le> y \<longleftrightarrow> oid_key x \<le> oid_key y"

definition less_git_oid :: "git_oid \<Rightarrow> git_oid \<Rightarrow> bool" where
  "x < y \<longleftrightarrow> oid_key x < oid_key y"

instance
  by standard (auto simp: less_eq_git_oid_def less_git_oid_def less_le_not_le simp flip: oid_key_inject)

end

lemma git_oid_order [simp]:
  "Sha1 a < Sha1 b \<longleftrightarrow> a < b" "Sha256 a < Sha256 b \<longleftrightarrow> a < b"
  "Sha1 a < Sha256 b" "\<not> Sha256 a < Sha1 b"
  by (simp_all add: less_eq_git_oid_def less_git_oid_def oid_key_def)

section \<open>Counters\<close>

abbreviation cnt :: "'d counter \<Rightarrow> nat" where
  "cnt c \<equiv> unat (counter_get c)"

lemma counter_next_Inr:
  "counter_next field c = Inr c' \<longleftrightarrow>
     counter_get c \<noteq> max_value \<and> c' = Counter (counter_get c + 1)"
  by (auto simp: counter_next_def checked_succ_Some)

lemma counter_next_cnt: "counter_next field c = Inr c' \<Longrightarrow> cnt c' = Suc (cnt c)"
  by (auto simp: counter_next_Inr unat_succ)

lemma counter_eq_iff: "c = c' \<longleftrightarrow> cnt c = cnt c'"
  by (cases c; cases c') (auto simp: word_unat_eq_iff)

end
