(* ===== verification/Vocabulary.thy ===== *)
theory Vocabulary
  imports Identities
begin

text \<open>
  The closed vocabularies of \<open>fgit-types/src/vocabulary.rs\<close> with their wire code points, the
  terminal outcome of a transaction, and the classification of refusals of
  \<open>fgit-reference/src/refusal.rs\<close>. Every vocabulary decodes a code point by searching its table
  of members; the locale \<open>code_table\<close> is the contract that makes the search the inverse of the
  encoding, and each vocabulary's table satisfies it.
\<close>

section \<open>Decoding by search\<close>

definition find_code_point ::
  "string \<Rightarrow> ('a \<Rightarrow> u16) \<Rightarrow> 'a list \<Rightarrow> u16 \<Rightarrow> type_refusal + 'a" where
  "find_code_point field code_point members cp =
     or_raise (CodePointUnknown field (ucast cp)) (find (\<lambda>c. code_point c = cp) members)"

locale code_table =
  fixes code_point :: "'a \<Rightarrow> u16"
    and members :: "'a list"
  assumes complete: "x \<in> set members"
    and distinct_code_points: "distinct (map code_point members)"
begin

lemma code_point_inject: "code_point x = code_point y \<longleftrightarrow> x = y"
  using complete [of x] complete [of y] distinct_code_points
  by (auto simp: distinct_map dest: inj_onD)

lemma decode_encode: "find_code_point field code_point members (code_point x) = Inr x"
proof -
  have "find (\<lambda>c. code_point c = code_point x) members \<noteq> None"
    using complete [of x] by (auto simp: find_None_iff)
  then obtain y where "find (\<lambda>c. code_point c = code_point x) members = Some y"
    by auto
  then have "find (\<lambda>c. code_point c = code_point x) members = Some x"
    by (auto simp: find_Some_iff code_point_inject)
  then show ?thesis
    by (simp add: find_code_point_def)
qed

lemma decode_iff: "find_code_point field code_point members cp = Inr x \<longleftrightarrow> cp = code_point x"
  using decode_encode [of field x] by (auto simp: find_code_point_def find_Some_iff)

lemma decode_refused:
  "cp \<notin> range code_point \<Longrightarrow>
     find_code_point field code_point members cp = Inl (CodePointUnknown field (ucast cp))"
  by (cases "find (\<lambda>c. code_point c = cp) members") (auto simp: find_code_point_def find_Some_iff)

end

section \<open>Pre-seal rejections\<close>

datatype request_rejection_code =
    Rej_AuthenticationFailed
  | Rej_MalformedFraming
  | Rej_UnsupportedCapability
  | Rej_RequestSizeExceeded
  | Rej_TenantSuspended
  | Rej_IngressThrottled
  | Rej_IdempotencyKeyReuse
  | Rej_SchemaUnsupported
  | Rej_RepositoryUnknown
  | Rej_HashAlgorithmUnsupported

definition rejection_ALL :: "request_rejection_code list" where
  "rejection_ALL =
    [Rej_AuthenticationFailed, Rej_MalformedFraming, Rej_UnsupportedCapability,
     Rej_RequestSizeExceeded, Rej_TenantSuspended, Rej_IngressThrottled,
     Rej_IdempotencyKeyReuse, Rej_SchemaUnsupported, Rej_RepositoryUnknown,
     Rej_HashAlgorithmUnsupported]"

primrec rejection_code_point :: "request_rejection_code \<Rightarrow> u16" where
  "rejection_code_point Rej_AuthenticationFailed = 1"
| "rejection_code_point Rej_MalformedFraming = 2"
| "rejection_code_point Rej_UnsupportedCapability = 3"
| "rejection_code_point Rej_RequestSizeExceeded = 4"
| "rejection_code_point Rej_TenantSuspended = 5"
| "rejection_code_point Rej_IngressThrottled = 6"
| "rejection_code_point Rej_IdempotencyKeyReuse = 7"
| "rejection_code_point Rej_SchemaUnsupported = 8"
| "rejection_code_point Rej_RepositoryUnknown = 9"
| "rejection_code_point Rej_HashAlgorithmUnsupported = 10"

definition rejection_from_code_point :: "u16 \<Rightarrow> type_refusal + request_rejection_code" where
  "rejection_from_code_point = find_code_point ''RequestRejectionCode'' rejection_code_point rejection_ALL"

section \<open>Terminal refusals\<close>

datatype (plugins only: code size) refusal_code =
    IntentExpired
  | IntentBytesConflict
  | SponsorUnauthorized
  | AgentIdentityRevoked
  | AuthorityReceiptInvalid
  | AuthorityReceiptStale
  | CapabilityMissing
  | CapabilityExpired
  | CapabilityAudienceMismatch
  | CapabilityScopeViolation
  | DelegationAmplifiesAuthority
  | ContextGenerationMixed
  | ContextCoverageUnsupported
  | WorkspaceBaseUnavailable
  | WorkspacePolicyViolation
  | PathOutsideScope
  | NetworkDestinationDenied
  | SecretPurposeDenied
  | BudgetInsufficient
  | EvidenceMissing
  | EvidenceInvalid
  | EvidenceStale
  | IndependentVerificationRequired
  | TargetRefMoved
  | WitnessRefinementInsufficient
  | PublicationPolicyRefused
  | CancellationInProgress
  | ObligationsOutstanding
  | ExternalEffectIndeterminate
  | SchemaUnsupported
  | ExpectedOldRefMismatch
  | NonFastForwardRefused
  | ForceNotPermitted
  | ProtectedRefTransitionDenied
  | RefNameInvalid
  | HiddenRefUnauthorized
  | AtomicTransactionAborted
  | ObjectClosureIncomplete
  | PackFramingInvalid
  | DecompressionBudgetExceeded
  | DeltaBudgetExceeded
  | ThinPackBaseMissing
  | ObjectHeaderInvalid
  | TreeEntryOrderingInvalid
  | CommitOrTagHeaderInvalid
  | NativeObjectIdMismatch
  | HashAlgorithmDomainMismatch
  | SignedPushCertificateRefused
  | QuotaExceeded
  | ResourceBudgetExceeded
  | RetentionHoldViolation
  | PolicyEpochSuperseded
  | BasisCapsuleNotReusable
  | ForgeTransitionInvalid
  | RepositoryIncarnationMismatch
  | EffectIdempotencyKeyReuse
  | ConflictingSemanticEffects
  | DurabilityProfileUnavailable
  | InternalInvariantBreach
  | CanonicalFramingInvalid
  | CanonicalBoundExceeded
  | RefNameConflict

definition refusal_ALL :: "refusal_code list" where
  "refusal_ALL =
    [IntentExpired, IntentBytesConflict, SponsorUnauthorized, AgentIdentityRevoked,
     AuthorityReceiptInvalid, AuthorityReceiptStale, CapabilityMissing, CapabilityExpired,
     CapabilityAudienceMismatch, CapabilityScopeViolation, DelegationAmplifiesAuthority,
     ContextGenerationMixed, ContextCoverageUnsupported, WorkspaceBaseUnavailable,
     WorkspacePolicyViolation, PathOutsideScope, NetworkDestinationDenied, SecretPurposeDenied,
     BudgetInsufficient, EvidenceMissing, EvidenceInvalid, EvidenceStale,
     IndependentVerificationRequired, TargetRefMoved, WitnessRefinementInsufficient,
     PublicationPolicyRefused, CancellationInProgress, ObligationsOutstanding,
     ExternalEffectIndeterminate, SchemaUnsupported, ExpectedOldRefMismatch,
     NonFastForwardRefused, ForceNotPermitted, ProtectedRefTransitionDenied, RefNameInvalid,
     HiddenRefUnauthorized, AtomicTransactionAborted, ObjectClosureIncomplete,
     PackFramingInvalid, DecompressionBudgetExceeded, DeltaBudgetExceeded, ThinPackBaseMissing,
     ObjectHeaderInvalid, TreeEntryOrderingInvalid, CommitOrTagHeaderInvalid,
     NativeObjectIdMismatch, HashAlgorithmDomainMismatch, SignedPushCertificateRefused,
     QuotaExceeded, ResourceBudgetExceeded, RetentionHoldViolation, PolicyEpochSuperseded,
     BasisCapsuleNotReusable, ForgeTransitionInvalid, RepositoryIncarnationMismatch,
     EffectIdempotencyKeyReuse, ConflictingSemanticEffects, DurabilityProfileUnavailable,
     InternalInvariantBreach, CanonicalFramingInvalid, CanonicalBoundExceeded, RefNameConflict]"

primrec refusal_code_point :: "refusal_code \<Rightarrow> u16" where
  "refusal_code_point IntentExpired = 257"
| "refusal_code_point IntentBytesConflict = 258"
| "refusal_code_point SponsorUnauthorized = 259"
| "refusal_code_point AgentIdentityRevoked = 260"
| "refusal_code_point AuthorityReceiptInvalid = 261"
| "refusal_code_point AuthorityReceiptStale = 262"
| "refusal_code_point CapabilityMissing = 263"
| "refusal_code_point CapabilityExpired = 264"
| "refusal_code_point CapabilityAudienceMismatch = 265"
| "refusal_code_point CapabilityScopeViolation = 266"
| "refusal_code_point DelegationAmplifiesAuthority = 267"
| "refusal_code_point ContextGenerationMixed = 268"
| "refusal_code_point ContextCoverageUnsupported = 269"
| "refusal_code_point WorkspaceBaseUnavailable = 270"
| "refusal_code_point WorkspacePolicyViolation = 271"
| "refusal_code_point PathOutsideScope = 272"
| "refusal_code_point NetworkDestinationDenied = 273"
| "refusal_code_point SecretPurposeDenied = 274"
| "refusal_code_point BudgetInsufficient = 275"
| "refusal_code_point EvidenceMissing = 276"
| "refusal_code_point EvidenceInvalid = 277"
| "refusal_code_point EvidenceStale = 278"
| "refusal_code_point IndependentVerificationRequired = 279"
| "refusal_code_point TargetRefMoved = 280"
| "refusal_code_point WitnessRefinementInsufficient = 281"
| "refusal_code_point PublicationPolicyRefused = 282"
| "refusal_code_point CancellationInProgress = 283"
| "refusal_code_point ObligationsOutstanding = 284"
| "refusal_code_point ExternalEffectIndeterminate = 285"
| "refusal_code_point SchemaUnsupported = 286"
| "refusal_code_point ExpectedOldRefMismatch = 513"
| "refusal_code_point NonFastForwardRefused = 514"
| "refusal_code_point ForceNotPermitted = 515"
| "refusal_code_point ProtectedRefTransitionDenied = 516"
| "refusal_code_point RefNameInvalid = 517"
| "refusal_code_point HiddenRefUnauthorized = 518"
| "refusal_code_point AtomicTransactionAborted = 519"
| "refusal_code_point ObjectClosureIncomplete = 520"
| "refusal_code_point PackFramingInvalid = 521"
| "refusal_code_point DecompressionBudgetExceeded = 522"
| "refusal_code_point DeltaBudgetExceeded = 523"
| "refusal_code_point ThinPackBaseMissing = 524"
| "refusal_code_point ObjectHeaderInvalid = 525"
| "refusal_code_point TreeEntryOrderingInvalid = 526"
| "refusal_code_point CommitOrTagHeaderInvalid = 527"
| "refusal_code_point NativeObjectIdMismatch = 528"
| "refusal_code_point HashAlgorithmDomainMismatch = 529"
| "refusal_code_point SignedPushCertificateRefused = 530"
| "refusal_code_point QuotaExceeded = 531"
| "refusal_code_point ResourceBudgetExceeded = 532"
| "refusal_code_point RetentionHoldViolation = 533"
| "refusal_code_point PolicyEpochSuperseded = 534"
| "refusal_code_point BasisCapsuleNotReusable = 535"
| "refusal_code_point ForgeTransitionInvalid = 536"
| "refusal_code_point RepositoryIncarnationMismatch = 537"
| "refusal_code_point EffectIdempotencyKeyReuse = 538"
| "refusal_code_point ConflictingSemanticEffects = 539"
| "refusal_code_point DurabilityProfileUnavailable = 540"
| "refusal_code_point InternalInvariantBreach = 541"
| "refusal_code_point CanonicalFramingInvalid = 542"
| "refusal_code_point CanonicalBoundExceeded = 543"
| "refusal_code_point RefNameConflict = 544"

definition refusal_from_code_point :: "u16 \<Rightarrow> type_refusal + refusal_code" where
  "refusal_from_code_point = find_code_point ''RefusalCode'' refusal_code_point refusal_ALL"

definition is_agent_protocol_dimension :: "refusal_code \<Rightarrow> bool" where
  "is_agent_protocol_dimension c \<longleftrightarrow> refusal_code_point c < 512"

section \<open>Outcomes, mismatch policies and publication epochs\<close>

datatype decision_outcome =
    Committed (repository_commit_id: repository_commit_id)
  | Refused (refused_code: refusal_code) (refusal_record: refusal_record_id)

fun outcome_discriminant :: "decision_outcome \<Rightarrow> u8" where
  "outcome_discriminant (Committed _) = 1"
| "outcome_discriminant (Refused _ _) = 2"

fun advances_repository_sequence :: "decision_outcome \<Rightarrow> bool" where
  "advances_repository_sequence (Committed _) = True"
| "advances_repository_sequence (Refused _ _) = False"

datatype mismatch_policy = NoOp | StatementError | TxnAbort

definition mismatch_ALL :: "mismatch_policy list" where
  "mismatch_ALL = [NoOp, StatementError, TxnAbort]"

fun mismatch_code_point :: "mismatch_policy \<Rightarrow> u16" where
  "mismatch_code_point NoOp = 1"
| "mismatch_code_point StatementError = 2"
| "mismatch_code_point TxnAbort = 3"

definition mismatch_from_code_point :: "u16 \<Rightarrow> type_refusal + mismatch_policy" where
  "mismatch_from_code_point = find_code_point ''MismatchPolicy'' mismatch_code_point mismatch_ALL"

datatype publication_epoch = Staged | Visible | Durable

definition publication_ALL :: "publication_epoch list" where
  "publication_ALL = [Staged, Visible, Durable]"

fun publication_code_point :: "publication_epoch \<Rightarrow> u16" where
  "publication_code_point Staged = 1"
| "publication_code_point Visible = 2"
| "publication_code_point Durable = 3"

definition publication_from_code_point :: "u16 \<Rightarrow> type_refusal + publication_epoch" where
  "publication_from_code_point =
     find_code_point ''PublicationEpoch'' publication_code_point publication_ALL"

definition hash_ALL :: "git_hash_algorithm list" where
  "hash_ALL = [Alg_Sha1, Alg_Sha256]"

fun hash_code_point :: "git_hash_algorithm \<Rightarrow> u16" where
  "hash_code_point Alg_Sha1 = 1"
| "hash_code_point Alg_Sha256 = 2"

definition hash_from_code_point :: "u16 \<Rightarrow> type_refusal + git_hash_algorithm" where
  "hash_from_code_point = find_code_point ''GitHashAlgorithm'' hash_code_point hash_ALL"

section \<open>Refusal classes (refusal.rs)\<close>

datatype refusal_class =
    Class_Malformed
  | Class_Unsupported
  | Class_Unauthorized
  | Class_StaleBasis
  | Class_ExpectedOldMismatch
  | Class_Policy
  | Class_ObjectInvalidity
  | Class_MissingPromisedObject
  | Class_Resource
  | Class_IdempotencyReuse
  | Class_ConflictingEffects
  | Class_DurabilityUnavailable
  | Class_InternalInvariant

definition class_ALL :: "refusal_class list" where
  "class_ALL =
    [Class_Malformed, Class_Unsupported, Class_Unauthorized, Class_StaleBasis,
     Class_ExpectedOldMismatch, Class_Policy, Class_ObjectInvalidity,
     Class_MissingPromisedObject, Class_Resource, Class_IdempotencyReuse,
     Class_ConflictingEffects, Class_DurabilityUnavailable, Class_InternalInvariant]"

primrec refusal_class_of :: "refusal_code \<Rightarrow> refusal_class" where
  "refusal_class_of IntentExpired = Class_StaleBasis"
| "refusal_class_of IntentBytesConflict = Class_Malformed"
| "refusal_class_of SponsorUnauthorized = Class_Unauthorized"
| "refusal_class_of AgentIdentityRevoked = Class_Unauthorized"
| "refusal_class_of AuthorityReceiptInvalid = Class_StaleBasis"
| "refusal_class_of AuthorityReceiptStale = Class_StaleBasis"
| "refusal_class_of CapabilityMissing = Class_Unauthorized"
| "refusal_class_of CapabilityExpired = Class_Unauthorized"
| "refusal_class_of CapabilityAudienceMismatch = Class_Unauthorized"
| "refusal_class_of CapabilityScopeViolation = Class_Unauthorized"
| "refusal_class_of DelegationAmplifiesAuthority = Class_Unauthorized"
| "refusal_class_of ContextGenerationMixed = Class_Policy"
| "refusal_class_of ContextCoverageUnsupported = Class_Unsupported"
| "refusal_class_of WorkspaceBaseUnavailable = Class_StaleBasis"
| "refusal_class_of WorkspacePolicyViolation = Class_Policy"
| "refusal_class_of PathOutsideScope = Class_Unauthorized"
| "refusal_class_of NetworkDestinationDenied = Class_Unauthorized"
| "refusal_class_of SecretPurposeDenied = Class_Unauthorized"
| "refusal_class_of BudgetInsufficient = Class_Resource"
| "refusal_class_of EvidenceMissing = Class_Policy"
| "refusal_class_of EvidenceInvalid = Class_Policy"
| "refusal_class_of EvidenceStale = Class_StaleBasis"
| "refusal_class_of IndependentVerificationRequired = Class_Policy"
| "refusal_class_of TargetRefMoved = Class_ExpectedOldMismatch"
| "refusal_class_of WitnessRefinementInsufficient = Class_StaleBasis"
| "refusal_class_of PublicationPolicyRefused = Class_Policy"
| "refusal_class_of CancellationInProgress = Class_DurabilityUnavailable"
| "refusal_class_of ObligationsOutstanding = Class_DurabilityUnavailable"
| "refusal_class_of ExternalEffectIndeterminate = Class_DurabilityUnavailable"
| "refusal_class_of SchemaUnsupported = Class_Unsupported"
| "refusal_class_of ExpectedOldRefMismatch = Class_ExpectedOldMismatch"
| "refusal_class_of NonFastForwardRefused = Class_Policy"
| "refusal_class_of ForceNotPermitted = Class_Policy"
| "refusal_class_of ProtectedRefTransitionDenied = Class_Policy"
| "refusal_class_of RefNameInvalid = Class_Malformed"
| "refusal_class_of HiddenRefUnauthorized = Class_Unauthorized"
| "refusal_class_of AtomicTransactionAborted = Class_ConflictingEffects"
| "refusal_class_of ObjectClosureIncomplete = Class_MissingPromisedObject"
| "refusal_class_of PackFramingInvalid = Class_Malformed"
| "refusal_class_of DecompressionBudgetExceeded = Class_Resource"
| "refusal_class_of DeltaBudgetExceeded = Class_Resource"
| "refusal_class_of ThinPackBaseMissing = Class_MissingPromisedObject"
| "refusal_class_of ObjectHeaderInvalid = Class_Malformed"
| "refusal_class_of TreeEntryOrderingInvalid = Class_Malformed"
| "refusal_class_of CommitOrTagHeaderInvalid = Class_Malformed"
| "refusal_class_of NativeObjectIdMismatch = Class_ObjectInvalidity"
| "refusal_class_of HashAlgorithmDomainMismatch = Class_Unsupported"
| "refusal_class_of SignedPushCertificateRefused = Class_Unauthorized"
| "refusal_class_of QuotaExceeded = Class_Resource"
| "refusal_class_of ResourceBudgetExceeded = Class_Resource"
| "refusal_class_of RetentionHoldViolation = Class_Policy"
| "refusal_class_of PolicyEpochSuperseded = Class_Policy"
| "refusal_class_of BasisCapsuleNotReusable = Class_StaleBasis"
| "refusal_class_of ForgeTransitionInvalid = Class_Policy"
| "refusal_class_of RepositoryIncarnationMismatch = Class_Unsupported"
| "refusal_class_of EffectIdempotencyKeyReuse = Class_IdempotencyReuse"
| "refusal_class_of ConflictingSemanticEffects = Class_ConflictingEffects"
| "refusal_class_of DurabilityProfileUnavailable = Class_DurabilityUnavailable"
| "refusal_class_of InternalInvariantBreach = Class_InternalInvariant"
| "refusal_class_of CanonicalFramingInvalid = Class_Malformed"
| "refusal_class_of CanonicalBoundExceeded = Class_Resource"
| "refusal_class_of RefNameConflict = Class_Malformed"

definition MODEL_REFUSAL_SURFACE :: "refusal_code list" where
  "MODEL_REFUSAL_SURFACE =
    [CapabilityScopeViolation, SchemaUnsupported, ExpectedOldRefMismatch, NonFastForwardRefused,
     ForceNotPermitted, ProtectedRefTransitionDenied, RefNameInvalid, ObjectClosureIncomplete,
     NativeObjectIdMismatch, HashAlgorithmDomainMismatch, ResourceBudgetExceeded,
     RetentionHoldViolation, PolicyEpochSuperseded, BasisCapsuleNotReusable,
     ForgeTransitionInvalid, EffectIdempotencyKeyReuse, ConflictingSemanticEffects,
     DurabilityProfileUnavailable]"

definition is_model_refusal :: "refusal_code \<Rightarrow> bool" where
  "is_model_refusal code \<longleftrightarrow> code \<in> set MODEL_REFUSAL_SURFACE"

section \<open>The tables satisfy the contract\<close>

lemma refusal_ALL_complete: "code \<in> set refusal_ALL"
  by (cases code) (simp_all add: refusal_ALL_def)

interpretation rejection: code_table rejection_code_point rejection_ALL
proof
  show "code \<in> set rejection_ALL" for code
    by (cases code) (simp_all add: rejection_ALL_def)
qed (simp add: rejection_ALL_def)

interpretation refusal: code_table refusal_code_point refusal_ALL
proof
  show "code \<in> set refusal_ALL" for code
    by (rule refusal_ALL_complete)
qed (rule distinct_if_ascending, simp add: refusal_ALL_def)

interpretation mismatch: code_table mismatch_code_point mismatch_ALL
proof
  show "code \<in> set mismatch_ALL" for code
    by (cases code) (simp_all add: mismatch_ALL_def)
qed (simp add: mismatch_ALL_def)

interpretation publication: code_table publication_code_point publication_ALL
proof
  show "code \<in> set publication_ALL" for code
    by (cases code) (simp_all add: publication_ALL_def)
qed (simp add: publication_ALL_def)

interpretation hash: code_table hash_code_point hash_ALL
proof
  show "code \<in> set hash_ALL" for code
    by (cases code) (simp_all add: hash_ALL_def)
qed (simp add: hash_ALL_def)

end
