(* ===== verification/Ref_Names.thy ===== *)
theory Ref_Names
  imports Vocabulary
begin

text \<open>
  Reference names: the validation of \<open>fgit-types/src/refs.rs\<close> (the rules of
  \<open>git check-ref-format\<close> with a length bound), the write ceiling a credential carries
  (\<open>ref_write_scope.rs\<close>), and the canonical namespace, policy scope and expected-old semantics of
  \<open>fgit-reference/src/refs.rs\<close>. The loops of the sources that report the offset of the first
  violation are recursive scans that carry the offset.
\<close>

section \<open>Slices\<close>

text \<open>\<open>slice::split\<close>: the maximal runs between separators; never empty.\<close>

fun split_on :: "'a \<Rightarrow> 'a list \<Rightarrow> 'a list list" where
  "split_on s [] = [[]]"
| "split_on s (x # xs) =
     (if x = s then [] # split_on s xs
      else case split_on s xs of [] \<Rightarrow> [[x]] | c # cs \<Rightarrow> (x # c) # cs)"

text \<open>\<open>str::split_once\<close>: split at the first separator.\<close>

fun split_once :: "'a \<Rightarrow> 'a list \<Rightarrow> ('a list \<times> 'a list) option" where
  "split_once s [] = None"
| "split_once s (x # xs) =
     (if x = s then Some ([], xs)
      else map_option (\<lambda>(a, b). (x # a, b)) (split_once s xs))"

definition starts_with :: "'a list \<Rightarrow> 'a list \<Rightarrow> bool" where
  "starts_with xs p \<longleftrightarrow> take (length p) xs = p"

definition ends_with :: "'a list \<Rightarrow> 'a list \<Rightarrow> bool" where
  "ends_with xs p \<longleftrightarrow> length p \<le> length xs \<and> drop (length xs - length p) xs = p"

definition strip_suffix :: "'a list \<Rightarrow> 'a list \<Rightarrow> 'a list option" where
  "strip_suffix p xs = (if ends_with xs p then Some (take (length xs - length p) xs) else None)"

section \<open>Validated reference names (refs.rs of fgit-types)\<close>

definition MAX_REF_NAME_LEN :: nat where
  "MAX_REF_NAME_LEN = 1024"

definition byte_is_forbidden :: "u8 \<Rightarrow> bool" where
  "byte_is_forbidden b \<longleftrightarrow> b < 32 \<or> b = 127 \<or> b \<in> set (bytes_of '' ~^:?*['') \<or> b = 92"

datatype ref_name = RefName (ref_bytes: bytes)

instantiation ref_name :: linorder
begin

definition less_eq_ref_name :: "ref_name \<Rightarrow> ref_name \<Rightarrow> bool" where
  "x \<le> y \<longleftrightarrow> ref_bytes x \<le> ref_bytes y"

definition less_ref_name :: "ref_name \<Rightarrow> ref_name \<Rightarrow> bool" where
  "x < y \<longleftrightarrow> ref_bytes x < ref_bytes y"

instance
  by standard
    (auto simp: less_eq_ref_name_def less_ref_name_def less_le_not_le intro: ref_name.expand)

end

lemma ref_name_order [simp]:
  "RefName a \<le> RefName a' \<longleftrightarrow> a \<le> a'"
  "RefName a < RefName a' \<longleftrightarrow> a < a'"
  by (simp_all add: less_eq_ref_name_def less_ref_name_def)

definition structure_refusal :: "string \<Rightarrow> nat \<Rightarrow> type_refusal" where
  "structure_refusal reason offset = RefNameStructureInvalid reason (clamp_u32 offset)"

fun scan_forbidden :: "nat \<Rightarrow> bytes \<Rightarrow> type_refusal + unit" where
  "scan_forbidden offset [] = Inr ()"
| "scan_forbidden offset (b # bs) =
     (if byte_is_forbidden b then Inl (ByteNotPermitted ''RefName'' (clamp_u32 offset) b)
      else scan_forbidden (Suc offset) bs)"

fun scan_pairs :: "nat \<Rightarrow> bytes \<Rightarrow> type_refusal + unit" where
  "scan_pairs offset (a # b # bs) =
     (if [a, b] = bytes_of ''..'' then Inl (structure_refusal ''double_dot'' (offset + 1))
      else if [a, b] = [64, 123] then Inl (structure_refusal ''at_brace_sequence'' (offset + 1))
      else scan_pairs (Suc offset) (b # bs))"
| "scan_pairs offset _ = Inr ()"

fun scan_components :: "nat \<Rightarrow> nat \<Rightarrow> bytes list \<Rightarrow> type_refusal + nat" where
  "scan_components component_start components [] = Inr components"
| "scan_components component_start components (component # rest) =
     (let component_end = component_start + length component in
      if component = [] then Inl (structure_refusal ''empty_component'' component_end)
      else if starts_with component (bytes_of ''.'')
        then Inl (structure_refusal ''component_starts_with_dot'' component_start)
      else if ends_with component (bytes_of ''.lock'')
        then Inl (structure_refusal ''component_ends_with_dot_lock'' (component_end - 5))
      else scan_components (component_end + 1) (components + 1) rest)"

definition ref_validate :: "bytes \<Rightarrow> bool \<Rightarrow> type_refusal + ref_name" where
  "ref_validate source allow_one_level =
     (if source = [] \<or> length source > MAX_REF_NAME_LEN
      then Inl (LengthOutOfRange ''RefName'' (clamp_u32 (length source)) 1
                  (clamp_u32 MAX_REF_NAME_LEN))
      else
        rbind (scan_forbidden 0 source) (\<lambda>_.
        if source = bytes_of ''@'' then Inl (structure_refusal ''name_is_bare_at_sign'' 0)
        else
          rbind (scan_pairs 0 source) (\<lambda>_.
          if last source = 46 then Inl (structure_refusal ''name_ends_with_dot'' (length source - 1))
          else if last source = 47 then Inl (structure_refusal ''name_ends_with_slash'' (length source - 1))
          else if hd source = 47 then Inl (structure_refusal ''name_starts_with_slash'' 0)
          else
            rbind (scan_components 0 0 (split_on 47 source)) (\<lambda>components.
            if components < 2 \<and> \<not> allow_one_level then Inl (structure_refusal ''name_is_one_level'' 0)
            else Inr (RefName source)))))"

definition ref_try_new :: "bytes \<Rightarrow> type_refusal + ref_name" where
  "ref_try_new source = ref_validate source False"

definition ref_try_new_one_level :: "bytes \<Rightarrow> type_refusal + ref_name" where
  "ref_try_new_one_level source = ref_validate source True"

definition ref_components :: "ref_name \<Rightarrow> bytes list" where
  "ref_components name = split_on 47 (ref_bytes name)"

definition is_under :: "ref_name \<Rightarrow> bytes \<Rightarrow> bool" where
  "is_under name pfx =
     (let p = (case strip_suffix [47] pfx of Some q \<Rightarrow> q | None \<Rightarrow> pfx) in
      length p < length (ref_bytes name) \<and> starts_with (ref_bytes name) p \<and>
      ref_bytes name ! length p = 47)"

section \<open>The write ceiling of a credential (ref_write_scope.rs)\<close>

definition MAX_SELECTORS :: nat where
  "MAX_SELECTORS = 64"

definition MAX_REFERENCE_BYTES :: nat where
  "MAX_REFERENCE_BYTES = 4096"

definition MAX_FIELD_BYTES :: nat where
  "MAX_FIELD_BYTES = 2 * MAX_REFERENCE_BYTES + 8 * MAX_SELECTORS"

datatype selector = Exact_Ref ref_name | Prefix_Ref bytes

fun selector_key :: "selector \<Rightarrow> nat \<times> bytes" where
  "selector_key (Exact_Ref n) = (0, ref_bytes n)"
| "selector_key (Prefix_Ref p) = (1, p)"

lemma selector_key_inject [simp]: "selector_key x = selector_key y \<longleftrightarrow> x = y"
  by (cases x; cases y) (auto intro: ref_name.expand)

instantiation selector :: linorder
begin

definition less_eq_selector :: "selector \<Rightarrow> selector \<Rightarrow> bool" where
  "x \<le> y \<longleftrightarrow> selector_key x \<le> selector_key y"

definition less_selector :: "selector \<Rightarrow> selector \<Rightarrow> bool" where
  "x < y \<longleftrightarrow> selector_key x < selector_key y"

instance
  by standard
    (auto simp: less_eq_selector_def less_selector_def less_le_not_le simp flip: selector_key_inject)

end

datatype ref_write_scope = RefWriteScope (selectors: "selector btree_set")

datatype ref_write_scope_refusal = RefWriteScopeRefusal

definition hex_lower :: "u8 \<Rightarrow> bool" where
  "hex_lower b \<longleftrightarrow> (48 \<le> b \<and> b \<le> 57) \<or> (97 \<le> b \<and> b \<le> 102)"

definition scope_digit :: "u8 \<Rightarrow> u8" where
  "scope_digit b = (if b \<le> 57 then b - 48 else b - 97 + 10)"

fun unhex :: "bytes \<Rightarrow> bytes" where
  "unhex (a # b # rest) = (push_bit 4 (scope_digit a) OR scope_digit b) # unhex rest"
| "unhex _ = []"

definition parse_selector :: "bytes \<Rightarrow> bytes \<Rightarrow> ref_write_scope_refusal + selector" where
  "parse_selector kind bs =
     (if \<not> starts_with bs (bytes_of ''refs/'') then Inl RefWriteScopeRefusal
      else if kind = bytes_of ''exact'' then
        rbind (map_err (\<lambda>_. RefWriteScopeRefusal) (ref_try_new bs)) (\<lambda>n. Inr (Exact_Ref n))
      else
        rbind (or_raise RefWriteScopeRefusal (strip_suffix [47] bs)) (\<lambda>root.
        rbind (map_err (\<lambda>_. RefWriteScopeRefusal) (ref_try_new root)) (\<lambda>_.
        Inr (Prefix_Ref bs))))"

text \<open>
  One iteration of the loop of \<open>RefWriteScope::parse\<close> on the pair of accumulators. The byte
  accumulator is bounded by the check that follows each addition, so the \<open>checked_add\<close> on a
  64-bit \<open>usize\<close> never fails and the addition is the one on naturals.
\<close>

definition parse_entry ::
  "selector btree_set \<times> nat \<Rightarrow> bytes \<Rightarrow> ref_write_scope_refusal + selector btree_set \<times> nat" where
  "parse_entry acc entry =
     (case acc of (sels, bytes_used) \<Rightarrow>
      if bt_len sels = MAX_SELECTORS then Inl RefWriteScopeRefusal
      else
        rbind (or_raise RefWriteScopeRefusal (split_once 58 entry)) (\<lambda>(kind, hex).
        if kind \<notin> {bytes_of ''exact'', bytes_of ''prefix''} \<or> hex = [] \<or> odd (length hex)
           \<or> \<not> list_all hex_lower hex
        then Inl RefWriteScopeRefusal
        else if bytes_used + length hex div 2 > MAX_REFERENCE_BYTES then Inl RefWriteScopeRefusal
        else
          rbind (parse_selector kind (unhex hex)) (\<lambda>sel.
          if bt_contains sels sel then Inl RefWriteScopeRefusal
          else Inr (bs_insert sel sels, bytes_used + length hex div 2))))"

definition scope_parse :: "bytes \<Rightarrow> ref_write_scope_refusal + ref_write_scope option" where
  "scope_parse field =
     (if field = bytes_of ''all'' then Inr None
      else if field = bytes_of ''none'' then Inr (Some (RefWriteScope bt_empty))
      else if field = [] \<or> length field > MAX_FIELD_BYTES then Inl RefWriteScopeRefusal
      else
        rbind (try_fold parse_entry (bt_empty, 0) (split_on 44 field)) (\<lambda>(sels, _).
        Inr (Some (RefWriteScope sels))))"

fun selector_permits :: "bytes \<Rightarrow> selector \<Rightarrow> bool" where
  "selector_permits reference (Exact_Ref allowed) \<longleftrightarrow> reference = ref_bytes allowed"
| "selector_permits reference (Prefix_Ref pfx) \<longleftrightarrow> starts_with reference pfx"

definition scope_permits :: "ref_write_scope \<Rightarrow> bytes \<Rightarrow> bool" where
  "scope_permits scope reference \<longleftrightarrow> list_ex (selector_permits reference) (bt_keys (selectors scope))"

section \<open>Canonical names and expectations (refs.rs of fgit-reference)\<close>

definition CANONICAL_REF_PREFIX :: bytes where
  "CANONICAL_REF_PREFIX = bytes_of ''refs''"

definition is_canonical :: "ref_name \<Rightarrow> bool" where
  "is_canonical name \<longleftrightarrow> is_under name CANONICAL_REF_PREFIX"

definition scope_of :: "ref_name \<Rightarrow> bytes option" where
  "scope_of name = (if \<not> is_canonical name then None else nth_opt 1 (ref_components name))"

datatype expected_ref_state = Absent | Exact git_oid | Any

fun is_satisfied_by :: "expected_ref_state \<Rightarrow> git_oid option \<Rightarrow> bool" where
  "is_satisfied_by Any _ = True"
| "is_satisfied_by Absent None = True"
| "is_satisfied_by Absent (Some _) = False"
| "is_satisfied_by (Exact _) None = False"
| "is_satisfied_by (Exact expected) (Some found) = (expected = found)"

definition is_unconditional :: "expected_ref_state \<Rightarrow> bool" where
  "is_unconditional e \<longleftrightarrow> e = Any"

end
