(* ===== verification/Intents.thy ===== *)
theory Intents
  imports Ref_Names
begin

text \<open>
  The typed intents of \<open>fgit-reference/src/intent.rs\<close>: what a client asks for, before any basis is
  consulted. Ref, forge, retention and outbox intents, the tag and notes lifecycles that lower
  into ref intents, and the canonicalised request with its seal fields. Struct names and enum
  variants are the source's, prefixed where two enums share a variant name.
\<close>

section \<open>Keys and positions\<close>

definition MAX_INTENTS_PER_TRANSACTION :: nat where
  "MAX_INTENTS_PER_TRANSACTION = 64"

datatype idempotency_key = IdempotencyKey (idempotency_label: ascii_slug)

datatype forge_stream_id = ForgeStreamId (stream_label: ascii_slug)

datatype forge_entity_id = ForgeEntityId (entity_label: ascii_slug)

datatype outbox_delivery_key = OutboxDeliveryKey (delivery_label: ascii_slug)

instantiation idempotency_key :: linorder
begin

definition less_eq_idempotency_key :: "idempotency_key \<Rightarrow> idempotency_key \<Rightarrow> bool" where
  "x \<le> y \<longleftrightarrow> idempotency_label x \<le> idempotency_label y"

definition less_idempotency_key :: "idempotency_key \<Rightarrow> idempotency_key \<Rightarrow> bool" where
  "x < y \<longleftrightarrow> idempotency_label x < idempotency_label y"

instance
  by standard
    (auto simp: less_eq_idempotency_key_def less_idempotency_key_def less_le_not_le intro: idempotency_key.expand)

end

lemma idempotency_key_order [simp]:
  "IdempotencyKey a \<le> IdempotencyKey a' \<longleftrightarrow> a \<le> a'"
  "IdempotencyKey a < IdempotencyKey a' \<longleftrightarrow> a < a'"
  by (simp_all add: less_eq_idempotency_key_def less_idempotency_key_def)

instantiation forge_stream_id :: linorder
begin

definition less_eq_forge_stream_id :: "forge_stream_id \<Rightarrow> forge_stream_id \<Rightarrow> bool" where
  "x \<le> y \<longleftrightarrow> stream_label x \<le> stream_label y"

definition less_forge_stream_id :: "forge_stream_id \<Rightarrow> forge_stream_id \<Rightarrow> bool" where
  "x < y \<longleftrightarrow> stream_label x < stream_label y"

instance
  by standard
    (auto simp: less_eq_forge_stream_id_def less_forge_stream_id_def less_le_not_le intro: forge_stream_id.expand)

end

lemma forge_stream_id_order [simp]:
  "ForgeStreamId a \<le> ForgeStreamId a' \<longleftrightarrow> a \<le> a'"
  "ForgeStreamId a < ForgeStreamId a' \<longleftrightarrow> a < a'"
  by (simp_all add: less_eq_forge_stream_id_def less_forge_stream_id_def)

instantiation outbox_delivery_key :: linorder
begin

definition less_eq_outbox_delivery_key :: "outbox_delivery_key \<Rightarrow> outbox_delivery_key \<Rightarrow> bool" where
  "x \<le> y \<longleftrightarrow> delivery_label x \<le> delivery_label y"

definition less_outbox_delivery_key :: "outbox_delivery_key \<Rightarrow> outbox_delivery_key \<Rightarrow> bool" where
  "x < y \<longleftrightarrow> delivery_label x < delivery_label y"

instance
  by standard
    (auto simp: less_eq_outbox_delivery_key_def less_outbox_delivery_key_def less_le_not_le intro: outbox_delivery_key.expand)

end

lemma outbox_delivery_key_order [simp]:
  "OutboxDeliveryKey a \<le> OutboxDeliveryKey a' \<longleftrightarrow> a \<le> a'"
  "OutboxDeliveryKey a < OutboxDeliveryKey a' \<longleftrightarrow> a < a'"
  by (simp_all add: less_eq_outbox_delivery_key_def less_outbox_delivery_key_def)

datatype forge_stream_position = ForgeStreamPosition (position_get: u64)

definition position_GENESIS :: forge_stream_position where
  "position_GENESIS = ForgeStreamPosition 0"

definition successor :: "forge_stream_position \<Rightarrow> forge_stream_position" where
  "successor p = ForgeStreamPosition (saturating_succ (position_get p))"

definition is_exhausted :: "forge_stream_position \<Rightarrow> bool" where
  "is_exhausted p \<longleftrightarrow> position_get p = max_value"

section \<open>Forge events\<close>

datatype forge_event_kind =
    PullRequestOpened forge_entity_id ref_name
  | PullRequestMerged forge_entity_id ref_name
  | PullRequestClosed forge_entity_id
  | PullRequestUpdated forge_entity_id ref_name
  | PullRequestReviewed forge_entity_id ref_name
  | IssueChanged forge_entity_id
  | ReviewProtectionChanged forge_entity_id
  | WorkflowCheckObserved forge_entity_id ref_name
  | PullRequestCommented forge_entity_id
  | MergeQueueChanged forge_entity_id ref_name
  | DiscussionChanged forge_entity_id
  | MilestoneChanged forge_entity_id
  | NotificationPreferenceChanged forge_entity_id
  | AgentCredentialChanged forge_entity_id

definition required_ref_effect :: "forge_event_kind \<Rightarrow> ref_name option" where
  "required_ref_effect e = (case e of PullRequestMerged _ target \<Rightarrow> Some target | _ \<Rightarrow> None)"

primrec event_entity :: "forge_event_kind \<Rightarrow> forge_entity_id" where
  "event_entity (PullRequestOpened e _) = e"
| "event_entity (PullRequestMerged e _) = e"
| "event_entity (PullRequestClosed e) = e"
| "event_entity (PullRequestUpdated e _) = e"
| "event_entity (PullRequestReviewed e _) = e"
| "event_entity (IssueChanged e) = e"
| "event_entity (ReviewProtectionChanged e) = e"
| "event_entity (WorkflowCheckObserved e _) = e"
| "event_entity (PullRequestCommented e) = e"
| "event_entity (MergeQueueChanged e _) = e"
| "event_entity (DiscussionChanged e) = e"
| "event_entity (MilestoneChanged e) = e"
| "event_entity (NotificationPreferenceChanged e) = e"
| "event_entity (AgentCredentialChanged e) = e"

section \<open>Retention roots\<close>

datatype retention_class = ReferencedByRef | LegalHold | GraceTombstone

fun retention_class_rank :: "retention_class \<Rightarrow> nat" where
  "retention_class_rank ReferencedByRef = 0"
| "retention_class_rank LegalHold = 1"
| "retention_class_rank GraceTombstone = 2"

lemma retention_class_rank_inject [simp]: "retention_class_rank x = retention_class_rank y \<longleftrightarrow> x = y"
  by (cases x; cases y) simp_all

instantiation retention_class :: linorder
begin

definition less_eq_retention_class :: "retention_class \<Rightarrow> retention_class \<Rightarrow> bool" where
  "x \<le> y \<longleftrightarrow> retention_class_rank x \<le> retention_class_rank y"

definition less_retention_class :: "retention_class \<Rightarrow> retention_class \<Rightarrow> bool" where
  "x < y \<longleftrightarrow> retention_class_rank x < retention_class_rank y"

instance
  by standard
    (auto simp: less_eq_retention_class_def less_retention_class_def less_le_not_le simp flip: retention_class_rank_inject)

end

fun is_ordinarily_removable :: "retention_class \<Rightarrow> bool" where
  "is_ordinarily_removable ReferencedByRef = True"
| "is_ordinarily_removable GraceTombstone = True"
| "is_ordinarily_removable LegalHold = False"

datatype retention_root =
  RetentionRoot (root_object: git_oid) (root_class: retention_class)

definition retention_root_key :: "retention_root \<Rightarrow> git_oid \<times> retention_class" where
  "retention_root_key x = (root_object x, root_class x)"

lemma retention_root_key_inject [simp]: "retention_root_key x = retention_root_key y \<longleftrightarrow> x = y"
  by (cases x; cases y) (simp add: retention_root_key_def)

instantiation retention_root :: linorder
begin

definition less_eq_retention_root :: "retention_root \<Rightarrow> retention_root \<Rightarrow> bool" where
  "x \<le> y \<longleftrightarrow> retention_root_key x \<le> retention_root_key y"

definition less_retention_root :: "retention_root \<Rightarrow> retention_root \<Rightarrow> bool" where
  "x < y \<longleftrightarrow> retention_root_key x < retention_root_key y"

instance
  by standard
    (auto simp: less_eq_retention_root_def less_retention_root_def less_le_not_le simp flip: retention_root_key_inject)

end

lemma retention_root_order [simp]:
  "RetentionRoot a b \<le> RetentionRoot a' b' \<longleftrightarrow> (a, b) \<le> (a', b')"
  "RetentionRoot a b < RetentionRoot a' b' \<longleftrightarrow> (a, b) < (a', b')"
  by (simp_all add: less_eq_retention_root_def less_retention_root_def retention_root_key_def)

section \<open>Ref, tag and notes intents\<close>

datatype ref_intent =
    Ref_Update ref_name expected_ref_state git_oid bool
  | Ref_Delete ref_name expected_ref_state

fun ref_intent_target :: "ref_intent \<Rightarrow> ref_name" where
  "ref_intent_target (Ref_Update name _ _ _) = name"
| "ref_intent_target (Ref_Delete name _) = name"

fun ref_intent_expected :: "ref_intent \<Rightarrow> expected_ref_state" where
  "ref_intent_expected (Ref_Update _ expected _ _) = expected"
| "ref_intent_expected (Ref_Delete _ expected) = expected"

definition TAG_REF_PREFIX :: bytes where
  "TAG_REF_PREFIX = bytes_of ''refs/tags''"

datatype tag_ref_name = TagRefName (tag_as_ref_name: ref_name)

datatype tag_intent_refusal = OutsideTagNamespace ref_name

definition tag_ref_try_new :: "ref_name \<Rightarrow> tag_intent_refusal + tag_ref_name" where
  "tag_ref_try_new name =
     (if is_under name TAG_REF_PREFIX then Inr (TagRefName name)
      else Inl (OutsideTagNamespace name))"

datatype tag_signature_evidence = Signature_Absent | OpaqueUnverifiable | Signature_Unsupported

datatype tag_reference =
    Lightweight git_oid
  | Annotated git_oid tag_signature_evidence

fun ref_value :: "tag_reference \<Rightarrow> git_oid" where
  "ref_value (Lightweight target) = target"
| "ref_value (Annotated tag_object _) = tag_object"

fun signature_evidence :: "tag_reference \<Rightarrow> tag_signature_evidence option" where
  "signature_evidence (Lightweight _) = None"
| "signature_evidence (Annotated _ signature) = Some signature"

datatype tag_intent =
    Tag_Update tag_ref_name expected_ref_state tag_reference bool
  | Tag_Delete tag_ref_name expected_ref_state

definition tag_update ::
  "ref_name \<Rightarrow> expected_ref_state \<Rightarrow> tag_reference \<Rightarrow> bool \<Rightarrow> tag_intent_refusal + tag_intent" where
  "tag_update name expected reference force =
     rbind (tag_ref_try_new name) (\<lambda>n. Inr (Tag_Update n expected reference force))"

definition tag_delete ::
  "ref_name \<Rightarrow> expected_ref_state \<Rightarrow> tag_intent_refusal + tag_intent" where
  "tag_delete name expected = rbind (tag_ref_try_new name) (\<lambda>n. Inr (Tag_Delete n expected))"

fun tag_target :: "tag_intent \<Rightarrow> tag_ref_name" where
  "tag_target (Tag_Update name _ _ _) = name"
| "tag_target (Tag_Delete name _) = name"

fun tag_into_ref_intent :: "tag_intent \<Rightarrow> ref_intent" where
  "tag_into_ref_intent (Tag_Update name expected reference force) =
     Ref_Update (tag_as_ref_name name) expected (ref_value reference) force"
| "tag_into_ref_intent (Tag_Delete name expected) = Ref_Delete (tag_as_ref_name name) expected"

definition NOTES_REF_PREFIX :: bytes where
  "NOTES_REF_PREFIX = bytes_of ''refs/notes''"

datatype notes_ref_name = NotesRefName (notes_as_ref_name: ref_name)

datatype notes_intent_refusal = OutsideNotesNamespace ref_name | InvalidRefName type_refusal

definition notes_ref_try_new :: "ref_name \<Rightarrow> notes_intent_refusal + notes_ref_name" where
  "notes_ref_try_new name =
     (if is_under name NOTES_REF_PREFIX then Inr (NotesRefName name)
      else Inl (OutsideNotesNamespace name))"

definition notes_from_subpath :: "bytes \<Rightarrow> notes_intent_refusal + notes_ref_name" where
  "notes_from_subpath subpath =
     rbind (map_err InvalidRefName (ref_try_new (bytes_of ''refs/notes/'' @ subpath)))
       notes_ref_try_new"

datatype notes_intent =
    Notes_Update notes_ref_name expected_ref_state git_oid bool
  | Notes_Delete notes_ref_name expected_ref_state

definition notes_update ::
  "ref_name \<Rightarrow> expected_ref_state \<Rightarrow> git_oid \<Rightarrow> bool \<Rightarrow> notes_intent_refusal + notes_intent" where
  "notes_update name expected new_commit force =
     rbind (notes_ref_try_new name) (\<lambda>n. Inr (Notes_Update n expected new_commit force))"

definition notes_delete ::
  "ref_name \<Rightarrow> expected_ref_state \<Rightarrow> notes_intent_refusal + notes_intent" where
  "notes_delete name expected = rbind (notes_ref_try_new name) (\<lambda>n. Inr (Notes_Delete n expected))"

fun notes_target :: "notes_intent \<Rightarrow> notes_ref_name" where
  "notes_target (Notes_Update name _ _ _) = name"
| "notes_target (Notes_Delete name _) = name"

fun notes_into_ref_intent :: "notes_intent \<Rightarrow> ref_intent" where
  "notes_into_ref_intent (Notes_Update name expected new_commit force) =
     Ref_Update (notes_as_ref_name name) expected new_commit force"
| "notes_into_ref_intent (Notes_Delete name expected) =
     Ref_Delete (notes_as_ref_name name) expected"

section \<open>Intents, statements and requests\<close>

record forge_intent =
  forge_stream :: forge_stream_id
  forge_expected_position :: forge_stream_position
  forge_event :: forge_event_kind

datatype retention_intent = AddRoot retention_root | RemoveRoot retention_root

record outbox_intent =
  outbox_delivery_key :: outbox_delivery_key
  outbox_parameters :: digest

datatype intent =
    Intent_Ref ref_intent
  | Intent_Forge forge_intent
  | Intent_Retention retention_intent
  | Intent_Outbox outbox_intent

datatype intent_address = IntentAddress (address_statement: nat) (address_intent: nat)

record statement =
  stmt_intents :: "intent list"
  stmt_mismatch_policy :: mismatch_policy

datatype durability_profile = CanonicalSource | DerivedGeneration

fun durability_profile_rank :: "durability_profile \<Rightarrow> nat" where
  "durability_profile_rank CanonicalSource = 0"
| "durability_profile_rank DerivedGeneration = 1"

lemma durability_profile_rank_inject [simp]: "durability_profile_rank x = durability_profile_rank y \<longleftrightarrow> x = y"
  by (cases x; cases y) simp_all

instantiation durability_profile :: linorder
begin

definition less_eq_durability_profile :: "durability_profile \<Rightarrow> durability_profile \<Rightarrow> bool" where
  "x \<le> y \<longleftrightarrow> durability_profile_rank x \<le> durability_profile_rank y"

definition less_durability_profile :: "durability_profile \<Rightarrow> durability_profile \<Rightarrow> bool" where
  "x < y \<longleftrightarrow> durability_profile_rank x < durability_profile_rank y"

instance
  by standard
    (auto simp: less_eq_durability_profile_def less_durability_profile_def less_le_not_le simp flip: durability_profile_rank_inject)

end

fun requires_durability_before_visibility :: "durability_profile \<Rightarrow> bool" where
  "requires_durability_before_visibility CanonicalSource = True"
| "requires_durability_before_visibility DerivedGeneration = False"

record transaction_request =
  req_tx_id :: tx_id
  req_tenant :: tenant_id
  req_repository :: repository_id
  req_principal :: principal_id
  req_schema :: schema_id
  req_idempotency_key :: idempotency_key
  req_canonical_request_digest :: digest
  req_statements :: "statement list"
  req_promised_closure :: "git_oid btree_set"
  req_atomic :: bool
  req_durability :: durability_profile

definition intent_count :: "transaction_request \<Rightarrow> nat" where
  "intent_count request = sum_list (map (length \<circ> stmt_intents) (req_statements request))"

definition addressed_in :: "nat \<times> statement \<Rightarrow> (intent_address \<times> intent) list" where
  "addressed_in s =
     map (\<lambda>(i, intent). (IntentAddress (fst s) i, intent)) (enumerate 0 (stmt_intents (snd s)))"

definition addressed_intents :: "transaction_request \<Rightarrow> (intent_address \<times> intent) list" where
  "addressed_intents request = concat (map addressed_in (enumerate 0 (req_statements request)))"

record seal_fields =
  seal_tx_id :: tx_id
  seal_tenant :: tenant_id
  seal_repository :: repository_id
  seal_principal :: principal_id
  seal_idempotency_key :: idempotency_key
  seal_canonical_request_digest :: digest
  seal_schema :: schema_id

definition seal_fields_of :: "transaction_request \<Rightarrow> seal_fields" where
  "seal_fields_of r =
     \<lparr>seal_tx_id = req_tx_id r, seal_tenant = req_tenant r, seal_repository = req_repository r,
      seal_principal = req_principal r, seal_idempotency_key = req_idempotency_key r,
      seal_canonical_request_digest = req_canonical_request_digest r,
      seal_schema = req_schema r\<rparr>"

datatype tx_id_derivation_inputs =
  TxIdDerivationInputs (inputs_tenant: tenant_id) (inputs_repository: repository_id)
    (inputs_principal: principal_id) (inputs_idempotency_key: idempotency_key)
    (inputs_canonical_request_digest: digest)

definition derivation_inputs :: "seal_fields \<Rightarrow> tx_id_derivation_inputs" where
  "derivation_inputs f =
     TxIdDerivationInputs (seal_tenant f) (seal_repository f) (seal_principal f)
       (seal_idempotency_key f) (seal_canonical_request_digest f)"

definition tx_id_derivation_inputs_key :: "tx_id_derivation_inputs \<Rightarrow> tenant_id \<times> repository_id \<times> principal_id \<times> idempotency_key \<times> digest" where
  "tx_id_derivation_inputs_key x = (inputs_tenant x, inputs_repository x, inputs_principal x, inputs_idempotency_key x, inputs_canonical_request_digest x)"

lemma tx_id_derivation_inputs_key_inject [simp]: "tx_id_derivation_inputs_key x = tx_id_derivation_inputs_key y \<longleftrightarrow> x = y"
  by (cases x; cases y) (simp add: tx_id_derivation_inputs_key_def)

instantiation tx_id_derivation_inputs :: linorder
begin

definition less_eq_tx_id_derivation_inputs :: "tx_id_derivation_inputs \<Rightarrow> tx_id_derivation_inputs \<Rightarrow> bool" where
  "x \<le> y \<longleftrightarrow> tx_id_derivation_inputs_key x \<le> tx_id_derivation_inputs_key y"

definition less_tx_id_derivation_inputs :: "tx_id_derivation_inputs \<Rightarrow> tx_id_derivation_inputs \<Rightarrow> bool" where
  "x < y \<longleftrightarrow> tx_id_derivation_inputs_key x < tx_id_derivation_inputs_key y"

instance
  by standard
    (auto simp: less_eq_tx_id_derivation_inputs_def less_tx_id_derivation_inputs_def less_le_not_le simp flip: tx_id_derivation_inputs_key_inject)

end

lemma tx_id_derivation_inputs_order [simp]:
  "TxIdDerivationInputs a b c d e \<le> TxIdDerivationInputs a' b' c' d' e' \<longleftrightarrow> (a, b, c, d, e) \<le> (a', b', c', d', e')"
  "TxIdDerivationInputs a b c d e < TxIdDerivationInputs a' b' c' d' e' \<longleftrightarrow> (a, b, c, d, e) < (a', b', c', d', e')"
  by (simp_all add: less_eq_tx_id_derivation_inputs_def less_tx_id_derivation_inputs_def tx_id_derivation_inputs_key_def)

end
