(* ===== verification/Net_Effects.thy ===== *)
theory Net_Effects
  imports Intents
begin

text \<open>
  The net-effect normal form and the reference folder of \<open>fgit-reference/src/effect.rs\<close>: the
  intents of a request are evaluated in source order on scratch state that already contains the
  earlier effects, and the final scratch state is diffed against the basis. A mismatch under the
  abort policy leaves the loop early; the loop is \<open>try_fold\<close> with the refusal and the address of
  the aborting intent as its error.
\<close>

section \<open>Effects and dispositions\<close>

datatype ref_effect = Set_Ref git_oid | Delete_Ref

datatype retention_effect = Add_Root | Remove_Root

datatype effect_target =
    Target_Ref ref_name
  | Target_ForgeStream forge_stream_id
  | Target_Retention retention_root
  | Target_Outbox outbox_delivery_key

fun target_key ::
  "effect_target \<Rightarrow> nat \<times> ref_name option \<times> forge_stream_id option \<times> retention_root option
     \<times> outbox_delivery_key option" where
  "target_key (Target_Ref n) = (0, Some n, None, None, None)"
| "target_key (Target_ForgeStream s) = (1, None, Some s, None, None)"
| "target_key (Target_Retention r) = (2, None, None, Some r, None)"
| "target_key (Target_Outbox k) = (3, None, None, None, Some k)"

lemma target_key_inject [simp]: "target_key x = target_key y \<longleftrightarrow> x = y"
  by (cases x; cases y) simp_all

instantiation effect_target :: linorder
begin

definition less_eq_effect_target :: "effect_target \<Rightarrow> effect_target \<Rightarrow> bool" where
  "x \<le> y \<longleftrightarrow> target_key x \<le> target_key y"

definition less_effect_target :: "effect_target \<Rightarrow> effect_target \<Rightarrow> bool" where
  "x < y \<longleftrightarrow> target_key x < target_key y"

instance
  by standard
    (auto simp: less_eq_effect_target_def less_effect_target_def less_le_not_le
      simp flip: target_key_inject)

end

datatype absorption_reason =
    IdentityEffect
  | OverwrittenBySucceedingIntent
  | InverseCancelled
  | PreconditionMismatchNoOp
  | DuplicateIdenticalDelivery

datatype intent_disposition =
    Surviving effect_target
  | Absorbed absorption_reason
  | Disposition_StatementError refusal_code
  | TransactionAborted

record intent_mapping =
  mapping_address :: intent_address
  mapping_disposition :: intent_disposition

record net_effects =
  eff_refs :: "(ref_name, ref_effect) btree_map"
  eff_forge :: "(forge_stream_id, forge_event_kind list) btree_map"
  eff_retention :: "(retention_root, retention_effect) btree_map"
  eff_outbox :: "(outbox_delivery_key, digest) btree_map"

definition effects_is_empty :: "net_effects \<Rightarrow> bool" where
  "effects_is_empty e \<longleftrightarrow>
     bt_is_empty (eff_refs e) \<and> bt_is_empty (eff_forge e) \<and> bt_is_empty (eff_retention e) \<and>
     bt_is_empty (eff_outbox e)"

definition target_count :: "net_effects \<Rightarrow> nat" where
  "target_count e =
     bt_len (eff_refs e) + bt_len (eff_forge e) + bt_len (eff_retention e) + bt_len (eff_outbox e)"

datatype fold_outcome = Folded net_effects | Aborted refusal_code intent_address

record fold_report =
  report_outcome :: fold_outcome
  report_mappings :: "intent_mapping list"

definition is_total_for :: "fold_report \<Rightarrow> transaction_request \<Rightarrow> bool" where
  "is_total_for report request \<longleftrightarrow> length (report_mappings report) = intent_count request"

definition report_effects :: "fold_report \<Rightarrow> net_effects option" where
  "report_effects report = (case report_outcome report of Folded e \<Rightarrow> Some e | Aborted _ _ \<Rightarrow> None)"

section \<open>The basis and the scratch state\<close>

record fold_basis =
  basis_refs :: "(ref_name, git_oid) btree_map"
  basis_forge_positions :: "(forge_stream_id, forge_stream_position) btree_map"
  basis_retention :: "retention_root btree_set"
  basis_outbox :: "(outbox_delivery_key, digest) btree_map"

record scratch =
  scr_refs :: "(ref_name, git_oid) btree_map"
  scr_forge_positions :: "(forge_stream_id, forge_stream_position) btree_map"
  scr_forge_events :: "(forge_stream_id, forge_event_kind list) btree_map"
  scr_retention :: "retention_root btree_set"
  scr_outbox :: "(outbox_delivery_key, digest) btree_map"

definition scratch_from_basis :: "fold_basis \<Rightarrow> scratch" where
  "scratch_from_basis b =
     \<lparr>scr_refs = basis_refs b, scr_forge_positions = basis_forge_positions b,
      scr_forge_events = bt_empty, scr_retention = basis_retention b,
      scr_outbox = basis_outbox b\<rparr>"

datatype applied =
    Changed effect_target
  | Applied_Absorbed absorption_reason
  | Mismatch refusal_code

text \<open>The position of a stream, \<open>GENESIS\<close> when it has never advanced.\<close>

definition position_of ::
  "(forge_stream_id, forge_stream_position) btree_map \<Rightarrow> forge_stream_id \<Rightarrow>
     forge_stream_position" where
  "position_of positions stream =
     (case bt_get positions stream of Some p \<Rightarrow> p | None \<Rightarrow> position_GENESIS)"

fun apply_intent :: "scratch \<Rightarrow> intent \<Rightarrow> scratch \<times> applied" where
  "apply_intent s (Intent_Ref (Ref_Update name expected new force)) =
     (if \<not> is_satisfied_by expected (bt_get (scr_refs s) name)
      then (s, Mismatch ExpectedOldRefMismatch)
      else if bt_get (scr_refs s) name = Some new then (s, Applied_Absorbed IdentityEffect)
      else (s\<lparr>scr_refs := bt_insert name new (scr_refs s)\<rparr>, Changed (Target_Ref name)))"
| "apply_intent s (Intent_Ref (Ref_Delete name expected)) =
     (if \<not> is_satisfied_by expected (bt_get (scr_refs s) name)
      then (s, Mismatch ExpectedOldRefMismatch)
      else if bt_contains (scr_refs s) name
      then (s\<lparr>scr_refs := bt_remove name (scr_refs s)\<rparr>, Changed (Target_Ref name))
      else (s, Applied_Absorbed IdentityEffect))"
| "apply_intent s (Intent_Forge forge) =
     (let stream = forge_stream forge;
          current = position_of (scr_forge_positions s) stream in
      if current \<noteq> forge_expected_position forge then (s, Mismatch ForgeTransitionInvalid)
      else if is_exhausted current then (s, Mismatch ResourceBudgetExceeded)
      else
        (s\<lparr>scr_forge_positions := bt_insert stream (successor current) (scr_forge_positions s),
           scr_forge_events :=
             bt_insert stream
               ((case bt_get (scr_forge_events s) stream of Some es \<Rightarrow> es | None \<Rightarrow> [])
                 @ [forge_event forge])
               (scr_forge_events s)\<rparr>,
         Changed (Target_ForgeStream stream)))"
| "apply_intent s (Intent_Retention (AddRoot root)) =
     (if bt_contains (scr_retention s) root then (s, Applied_Absorbed IdentityEffect)
      else (s\<lparr>scr_retention := bs_insert root (scr_retention s)\<rparr>,
            Changed (Target_Retention root)))"
| "apply_intent s (Intent_Retention (RemoveRoot root)) =
     (if bt_contains (scr_retention s) root
      then (s\<lparr>scr_retention := bt_remove root (scr_retention s)\<rparr>,
            Changed (Target_Retention root))
      else (s, Applied_Absorbed IdentityEffect))"
| "apply_intent s (Intent_Outbox outbox) =
     (case bt_get (scr_outbox s) (outbox_delivery_key outbox) of
        Some bound \<Rightarrow>
          if bound = outbox_parameters outbox
          then (s, Applied_Absorbed DuplicateIdenticalDelivery)
          else (s, Mismatch EffectIdempotencyKeyReuse)
      | None \<Rightarrow>
          (s\<lparr>scr_outbox := bt_insert (outbox_delivery_key outbox) (outbox_parameters outbox)
                (scr_outbox s)\<rparr>,
           Changed (Target_Outbox (outbox_delivery_key outbox))))"

section \<open>Diffing and retiring\<close>

definition diff :: "fold_basis \<Rightarrow> scratch \<Rightarrow> net_effects" where
  "diff basis s =
     \<lparr>eff_refs =
        bt_collect (\<lambda>name _. \<not> bt_contains (scr_refs s) name) (\<lambda>_ _. Delete_Ref)
          (basis_refs basis)
          (bt_collect (\<lambda>name v. bt_get (basis_refs basis) name \<noteq> Some v) (\<lambda>_ v. Set_Ref v)
            (scr_refs s) bt_empty),
      eff_forge = bt_collect (\<lambda>_ events. events \<noteq> []) (\<lambda>_ events. events)
          (scr_forge_events s) bt_empty,
      eff_retention =
        bt_collect (\<lambda>root _. \<not> bt_contains (scr_retention s) root) (\<lambda>_ _. Remove_Root)
          (basis_retention basis)
          (bt_collect (\<lambda>root _. \<not> bt_contains (basis_retention basis) root) (\<lambda>_ _. Add_Root)
            (scr_retention s) bt_empty),
      eff_outbox =
        bt_collect (\<lambda>key parameters. bt_get (basis_outbox basis) key \<noteq> Some parameters)
          (\<lambda>_ parameters. parameters) (scr_outbox s) bt_empty\<rparr>"

fun target_changed :: "net_effects \<Rightarrow> effect_target \<Rightarrow> bool" where
  "target_changed e (Target_Ref name) = bt_contains (eff_refs e) name"
| "target_changed e (Target_ForgeStream stream) = bt_contains (eff_forge e) stream"
| "target_changed e (Target_Retention root) = bt_contains (eff_retention e) root"
| "target_changed e (Target_Outbox key) = bt_contains (eff_outbox e) key"

fun is_forge_target :: "effect_target \<Rightarrow> bool" where
  "is_forge_target (Target_ForgeStream _) = True"
| "is_forge_target _ = False"

definition retire_one ::
  "net_effects \<Rightarrow> (effect_target, nat) btree_map \<Rightarrow> nat \<times> intent_mapping \<Rightarrow> intent_mapping" where
  "retire_one e contributed im =
     (case im of (index, mapping) \<Rightarrow>
      case mapping_disposition mapping of
        Surviving target \<Rightarrow>
          if is_forge_target target then
            if \<not> target_changed e target
            then mapping\<lparr>mapping_disposition := Absorbed IdentityEffect\<rparr>
            else mapping
          else
            (case (target_changed e target, bt_get contributed target = Some index) of
               (True, True) \<Rightarrow> mapping
             | (True, False) \<Rightarrow>
                 mapping\<lparr>mapping_disposition := Absorbed OverwrittenBySucceedingIntent\<rparr>
             | (False, True) \<Rightarrow> mapping\<lparr>mapping_disposition := Absorbed IdentityEffect\<rparr>
             | (False, False) \<Rightarrow> mapping\<lparr>mapping_disposition := Absorbed InverseCancelled\<rparr>)
      | _ \<Rightarrow> mapping)"

definition retire_absorbed ::
  "net_effects \<Rightarrow> (effect_target, nat) btree_map \<Rightarrow> intent_mapping list \<Rightarrow> intent_mapping list" where
  "retire_absorbed e contributed mappings = map (retire_one e contributed) (enumerate 0 mappings)"

section \<open>The reference folder\<close>

record fold_acc =
  acc_scratch :: scratch
  acc_mappings :: "intent_mapping list"
  acc_contributed :: "(effect_target, nat) btree_map"

definition statement_policy :: "transaction_request \<Rightarrow> intent_address \<Rightarrow> mismatch_policy" where
  "statement_policy request address =
     (case nth_opt (address_statement address) (req_statements request) of
        Some st \<Rightarrow> stmt_mismatch_policy st
      | None \<Rightarrow> TxnAbort)"

definition push_mapping :: "intent_address \<Rightarrow> intent_disposition \<Rightarrow> fold_acc \<Rightarrow> fold_acc" where
  "push_mapping address d acc =
     acc\<lparr>acc_mappings :=
       acc_mappings acc @ [\<lparr>mapping_address = address, mapping_disposition = d\<rparr>]\<rparr>"

definition fold_intent ::
  "transaction_request \<Rightarrow> fold_acc \<Rightarrow> intent_address \<times> intent \<Rightarrow>
     (refusal_code \<times> intent_address) + fold_acc" where
  "fold_intent request acc ai =
     (case ai of (address, intent) \<Rightarrow>
      case apply_intent (acc_scratch acc) intent of (scratch', outcome) \<Rightarrow>
      let acc' = acc\<lparr>acc_scratch := scratch'\<rparr> in
      case outcome of
        Changed target \<Rightarrow>
          Inr (push_mapping address (Surviving target)
                (acc'\<lparr>acc_contributed :=
                   bt_insert target (length (acc_mappings acc)) (acc_contributed acc)\<rparr>))
      | Applied_Absorbed reason \<Rightarrow> Inr (push_mapping address (Absorbed reason) acc')
      | Mismatch code \<Rightarrow>
          (case statement_policy request address of
             NoOp \<Rightarrow> Inr (push_mapping address (Absorbed PreconditionMismatchNoOp) acc')
           | StatementError \<Rightarrow> Inr (push_mapping address (Disposition_StatementError code) acc')
           | TxnAbort \<Rightarrow> Inl (code, address)))"

definition fold_start :: "fold_basis \<Rightarrow> fold_acc" where
  "fold_start basis =
     \<lparr>acc_scratch = scratch_from_basis basis, acc_mappings = [], acc_contributed = bt_empty\<rparr>"

definition fold_request :: "fold_basis \<Rightarrow> transaction_request \<Rightarrow> fold_report" where
  "fold_request basis request =
     (case try_fold (fold_intent request) (fold_start basis) (addressed_intents request) of
        Inl (code, address) \<Rightarrow>
          \<lparr>report_outcome = Aborted code address,
           report_mappings =
             map (\<lambda>(a, _). \<lparr>mapping_address = a, mapping_disposition = TransactionAborted\<rparr>)
               (addressed_intents request)\<rparr>
      | Inr acc \<Rightarrow>
          (let e = diff basis (acc_scratch acc) in
           \<lparr>report_outcome = Folded e,
            report_mappings = retire_absorbed e (acc_contributed acc) (acc_mappings acc)\<rparr>))"

end
