(* ===== verification/Repo_Roots.thy ===== *)
theory Repo_Roots
  imports Net_Effects
begin

text \<open>
  The values an authority head publishes, from \<open>fgit-reference/src/state.rs\<close>: the pinned policy
  snapshot, the canonical roots and the breaches a transition can report, together with the
  application of net effects to roots of \<open>transition.rs\<close>.
\<close>

section \<open>Invariant breaches\<close>

datatype invariant_breach =
    SecondDecisionInBatch tx_id
  | SecondTerminalDecision tx_id decision_outcome
  | RefusalOutcomeExpected tx_id
  | SequenceExhausted string
  | EmptyDecisionBatch repository_decision_batch_id
  | HeadPredecessorMismatch repository_authority_head_id "repository_authority_head_id option"
  | PolicyEpochNotSuccessor policy_epoch policy_epoch
  | HeadGenerationNotSuccessor head_generation head_generation
  | DecisionSequenceDiscontinuity decision_sequence decision_sequence
  | RepositorySequenceDiscontinuity repository_sequence repository_sequence
  | IdentityReused string
  | TxIdDerivationInconsistent tx_id tx_id
  | TxIdInputsInconsistent tx_id
  | UnknownSeal tx_id
  | UnknownCapsule prepared_txn_capsule_id
  | UnstagedBatch repository_decision_batch_id
  | RepositoryMismatch repository_id repository_id
  | ResultingRootMismatch string
  | QuarantineEscape git_oid
  | TraceStepUnencodable

type_synonym 'a model_result = "invariant_breach + 'a"

definition breach_refusal_code :: "invariant_breach \<Rightarrow> refusal_code" where
  "breach_refusal_code _ = InternalInvariantBreach"

section \<open>Policy snapshots\<close>

record principal_capabilities =
  cap_writable_scopes :: "bytes btree_set"
  cap_may_force :: bool
  cap_may_publish_forge :: bool
  cap_may_add_legal_hold :: bool

definition capabilities_default :: principal_capabilities where
  "capabilities_default =
     \<lparr>cap_writable_scopes = bt_empty, cap_may_force = False, cap_may_publish_forge = False,
      cap_may_add_legal_hold = False\<rparr>"

definition may_write_scope :: "principal_capabilities \<Rightarrow> bytes \<Rightarrow> bool" where
  "may_write_scope c scope = bt_contains (cap_writable_scopes c) scope"

record policy_snapshot =
  pol_epoch :: policy_epoch
  pol_protected_scopes :: "bytes btree_set"
  pol_principals :: "(principal_id, principal_capabilities) btree_map"
  pol_max_intents_per_transaction :: nat
  pol_supported_schemas :: "schema_id btree_set"
  pol_supported_durability :: "durability_profile btree_set"

definition capabilities_of :: "policy_snapshot \<Rightarrow> principal_id \<Rightarrow> principal_capabilities" where
  "capabilities_of p who =
     (case bt_get (pol_principals p) who of Some c \<Rightarrow> c | None \<Rightarrow> capabilities_default)"

definition is_protected :: "policy_snapshot \<Rightarrow> bytes \<Rightarrow> bool" where
  "is_protected p scope = bt_contains (pol_protected_scopes p) scope"

definition offers_durability :: "policy_snapshot \<Rightarrow> durability_profile \<Rightarrow> bool" where
  "offers_durability p profile = bt_contains (pol_supported_durability p) profile"

section \<open>Canonical roots\<close>

record repository_roots =
  root_refs :: "(ref_name, git_oid) btree_map"
  root_forge_positions :: "(forge_stream_id, forge_stream_position) btree_map"
  root_outcome_index :: "(tx_id, decision_outcome) btree_map"
  root_retention :: "retention_root btree_set"
  root_outbox :: "(outbox_delivery_key, digest) btree_map"

definition roots_default :: repository_roots where
  "roots_default =
     \<lparr>root_refs = bt_empty, root_forge_positions = bt_empty, root_outcome_index = bt_empty,
      root_retention = bt_empty, root_outbox = bt_empty\<rparr>"

definition protected_objects :: "repository_roots \<Rightarrow> git_oid list" where
  "protected_objects r = bt_values (root_refs r) @ map root_object (bt_keys (root_retention r))"

definition basis_of :: "repository_roots \<Rightarrow> fold_basis" where
  "basis_of r =
     \<lparr>basis_refs = root_refs r, basis_forge_positions = root_forge_positions r,
      basis_retention = root_retention r, basis_outbox = root_outbox r\<rparr>"

section \<open>Applying net effects (transition.rs)\<close>

fun apply_ref_effect ::
  "(ref_name, git_oid) btree_map \<Rightarrow> ref_name \<times> ref_effect \<Rightarrow> (ref_name, git_oid) btree_map" where
  "apply_ref_effect m (name, Set_Ref oid) = bt_insert name oid m"
| "apply_ref_effect m (name, Delete_Ref) = bt_remove name m"

fun apply_retention_effect ::
  "retention_root btree_set \<Rightarrow> retention_root \<times> retention_effect \<Rightarrow> retention_root btree_set" where
  "apply_retention_effect s (root, Add_Root) = bs_insert root s"
| "apply_retention_effect s (root, Remove_Root) = bt_remove root s"

definition advance_once ::
  "forge_stream_position \<Rightarrow> forge_event_kind \<Rightarrow> forge_stream_position model_result" where
  "advance_once position event =
     (if is_exhausted position then Inl (SequenceExhausted ''forge stream'')
      else Inr (successor position))"

fun advance_stream ::
  "(forge_stream_id, forge_stream_position) btree_map \<Rightarrow> forge_stream_id \<times> forge_event_kind list \<Rightarrow>
     (forge_stream_id, forge_stream_position) btree_map model_result" where
  "advance_stream positions (stream, events) =
     rbind (try_fold advance_once (position_of positions stream) events) (\<lambda>position.
     Inr (bt_insert stream position positions))"

definition apply_effects :: "repository_roots \<Rightarrow> net_effects \<Rightarrow> repository_roots model_result" where
  "apply_effects roots e =
     rbind (try_fold advance_stream (root_forge_positions roots) (bt_entries (eff_forge e)))
       (\<lambda>positions.
       Inr (roots\<lparr>
         root_refs := foldl apply_ref_effect (root_refs roots) (bt_entries (eff_refs e)),
         root_forge_positions := positions,
         root_retention :=
           foldl apply_retention_effect (root_retention roots) (bt_entries (eff_retention e)),
         root_outbox := bt_extend (root_outbox roots) (bt_entries (eff_outbox e))\<rparr>))"

section \<open>Applying effects target by target\<close>

lemma bt_get_foldl_ref_effects:
  "distinct (map fst xs) \<Longrightarrow>
   bt_get (foldl apply_ref_effect m xs) name =
     (case map_of xs name of
        Some (Set_Ref oid) \<Rightarrow> Some oid | Some Delete_Ref \<Rightarrow> None | None \<Rightarrow> bt_get m name)"
proof (induction xs arbitrary: m)
  case (Cons x xs)
  obtain n e where x: "x = (n, e)"
    by (cases x)
  from Cons.prems x have "map_of xs n = None"
    by (simp add: map_of_eq_None_iff)
  with Cons x show ?case
    by (cases e) (auto split: option.splits ref_effect.splits)
qed simp

lemma bt_get_foldl_retention_effects:
  "distinct (map fst xs) \<Longrightarrow>
   bt_get (foldl apply_retention_effect m xs) root =
     (case map_of xs root of
        Some Add_Root \<Rightarrow> Some () | Some Remove_Root \<Rightarrow> None | None \<Rightarrow> bt_get m root)"
proof (induction xs arbitrary: m)
  case (Cons x xs)
  obtain r e where x: "x = (r, e)"
    by (cases x)
  from Cons.prems x have "map_of xs r = None"
    by (simp add: map_of_eq_None_iff)
  with Cons x show ?case
    by (cases e) (auto simp: bs_insert_def split: option.splits retention_effect.splits)
qed simp

abbreviation advance :: "forge_stream_position \<Rightarrow> forge_event_kind list \<Rightarrow> forge_stream_position model_result" where
  "advance \<equiv> try_fold advance_once"

lemma advance_Inr_iff:
  "advance p es = Inr q \<longleftrightarrow>
     unat (position_get q) = unat (position_get p) + length es"
proof (induction es arbitrary: p)
  case Nil
  then show ?case
    by (auto simp: word_unat_eq_iff intro: forge_stream_position.expand)
next
  case (Cons e es)
  show ?case
  proof (cases "is_exhausted p")
    case True
    then have "position_get p = max_value"
      by (simp add: is_exhausted_def)
    then have "unat (position_get q) \<le> unat (position_get p)"
      by (simp flip: word_le_nat_alt)
    with True show ?thesis
      by (simp add: advance_once_def)
  next
    case False
    with Cons show ?thesis
      by (simp add: advance_once_def is_exhausted_def successor_def saturating_succ_def unat_succ)
  qed
qed


lemma advance_streams_get:
  assumes "try_fold advance_stream m xs = Inr m'" "distinct (map fst xs)"
  shows "case map_of xs stream of
      Some es \<Rightarrow> \<exists>q. bt_get m' stream = Some q \<and> advance (position_of m stream) es = Inr q
    | None \<Rightarrow> bt_get m' stream = bt_get m stream"
  using assms
proof (induction xs arbitrary: m)
  case (Cons x xs)
  obtain st es where x: "x = (st, es)"
    by (cases x)
  from Cons.prems(1) x obtain q where q: "advance (position_of m st) es = Inr q"
      and rest: "try_fold advance_stream (bt_insert st q m) xs = Inr m'"
    by (auto)
  from Cons.prems(2) x have "map_of xs st = None"
    by (simp add: map_of_eq_None_iff)
  moreover have "position_of (bt_insert st q m) stream = position_of m stream" if "stream \<noteq> st"
    using that by (simp add: position_of_def)
  ultimately show ?case
    using Cons.IH [OF rest] Cons.prems(2) q x by (cases "stream = st"; cases "map_of xs stream") simp_all
qed simp

lemma advance_streams_total:
  assumes "distinct (map fst xs)"
    and "\<And>st es. (st, es) \<in> set xs \<Longrightarrow> \<exists>q. advance (position_of m st) es = Inr q"
  shows "\<exists>m'. try_fold advance_stream m xs = Inr m'"
  using assms
proof (induction xs arbitrary: m)
  case (Cons x xs)
  obtain st es where x: "x = (st, es)"
    by (cases x)
  from Cons.prems(2) x obtain q where q: "advance (position_of m st) es = Inr q"
    by auto
  have "position_of (bt_insert st q m) st' = position_of m st'" if "st' \<noteq> st" for st'
    using that by (simp add: position_of_def)
  then have "\<exists>m'. try_fold advance_stream (bt_insert st q m) xs = Inr m'"
    using Cons.prems x by (intro Cons.IH) (auto, metis fst_conv image_eqI)
  with q x show ?case
    by simp
qed simp

text \<open>The observable behaviour of a successful application, one root at a time.\<close>

lemma apply_effects_Inr:
  assumes "apply_effects roots e = Inr roots'"
  shows apply_effects_refs:
      "bt_get (root_refs roots') name =
         (case bt_get (eff_refs e) name of
            Some (Set_Ref oid) \<Rightarrow> Some oid
          | Some Delete_Ref \<Rightarrow> None
          | None \<Rightarrow> bt_get (root_refs roots) name)"
    and apply_effects_retention:
      "bt_get (root_retention roots') root =
         (case bt_get (eff_retention e) root of
            Some Add_Root \<Rightarrow> Some ()
          | Some Remove_Root \<Rightarrow> None
          | None \<Rightarrow> bt_get (root_retention roots) root)"
    and apply_effects_outbox:
      "bt_get (root_outbox roots') = bt_get (root_outbox roots) ++ bt_get (eff_outbox e)"
    and apply_effects_outcomes: "root_outcome_index roots' = root_outcome_index roots"
    and apply_effects_forge_None:
      "bt_get (eff_forge e) stream = None \<Longrightarrow>
         bt_get (root_forge_positions roots') stream = bt_get (root_forge_positions roots) stream"
    and apply_effects_forge_Some:
      "bt_get (eff_forge e) stream = Some es \<Longrightarrow>
         \<exists>q. bt_get (root_forge_positions roots') stream = Some q \<and>
             advance (position_of (root_forge_positions roots) stream) es = Inr q"
proof -
  from assms obtain positions where
    p: "try_fold advance_stream (root_forge_positions roots) (bt_entries (eff_forge e)) = Inr positions"
    and roots': "roots' = roots\<lparr>
         root_refs := foldl apply_ref_effect (root_refs roots) (bt_entries (eff_refs e)),
         root_forge_positions := positions,
         root_retention :=
           foldl apply_retention_effect (root_retention roots) (bt_entries (eff_retention e)),
         root_outbox := bt_extend (root_outbox roots) (bt_entries (eff_outbox e))\<rparr>"
    by (auto simp: apply_effects_def)
  show "bt_get (root_refs roots') name =
         (case bt_get (eff_refs e) name of
            Some (Set_Ref oid) \<Rightarrow> Some oid
          | Some Delete_Ref \<Rightarrow> None
          | None \<Rightarrow> bt_get (root_refs roots) name)"
    by (simp add: roots' bt_get_foldl_ref_effects)
  show "bt_get (root_retention roots') root =
         (case bt_get (eff_retention e) root of
            Some Add_Root \<Rightarrow> Some ()
          | Some Remove_Root \<Rightarrow> None
          | None \<Rightarrow> bt_get (root_retention roots) root)"
    by (simp add: roots' bt_get_foldl_retention_effects)
  show "bt_get (root_outbox roots') = bt_get (root_outbox roots) ++ bt_get (eff_outbox e)"
    by (simp add: roots' bt_extend_entries)
  show "root_outcome_index roots' = root_outcome_index roots"
    by (simp add: roots')
  show "bt_get (root_forge_positions roots') stream = bt_get (root_forge_positions roots) stream"
    if "bt_get (eff_forge e) stream = None"
    using advance_streams_get [OF p, of stream] that by (simp add: roots')
  show "\<exists>q. bt_get (root_forge_positions roots') stream = Some q \<and>
      advance (position_of (root_forge_positions roots) stream) es = Inr q"
    if "bt_get (eff_forge e) stream = Some es"
    using advance_streams_get [OF p, of stream] that by (simp add: roots')
qed

section \<open>The fold replays\<close>

text \<open>
  What every scratch state of the fold satisfies: an outbox binding of the basis is kept, and a
  stream has advanced from its basis position by exactly its recorded events.
\<close>

definition scratch_wf :: "fold_basis \<Rightarrow> scratch \<Rightarrow> bool" where
  "scratch_wf basis s \<longleftrightarrow>
     (\<forall>k v. bt_get (basis_outbox basis) k = Some v \<longrightarrow> bt_get (scr_outbox s) k = Some v) \<and>
     (\<forall>st. bt_get (scr_forge_events s) st = None \<longrightarrow>
        bt_get (scr_forge_positions s) st = bt_get (basis_forge_positions basis) st) \<and>
     (\<forall>st es. bt_get (scr_forge_events s) st = Some es \<longrightarrow>
        es \<noteq> [] \<and>
        (\<exists>q. bt_get (scr_forge_positions s) st = Some q \<and>
             advance (position_of (basis_forge_positions basis) st) es = Inr q))"

lemma scratch_wf_start: "scratch_wf basis (scratch_from_basis basis)"
  by (simp add: scratch_wf_def scratch_from_basis_def)

lemma scratch_wf_apply_intent:
  assumes "scratch_wf basis s"
  shows "scratch_wf basis (fst (apply_intent s i))"
proof (cases i)
  case (Intent_Ref r)
  with assms show ?thesis
    by (cases r) (auto simp: scratch_wf_def)
next
  case (Intent_Retention r)
  with assms show ?thesis
    by (cases r) (auto simp: scratch_wf_def)
next
  case (Intent_Outbox b)
  with assms show ?thesis
    by (auto simp: scratch_wf_def split: option.splits)
next
  case (Intent_Forge f)
  let ?st = "forge_stream f" and ?pos = "position_of (scr_forge_positions s) (forge_stream f)"
  show ?thesis
  proof (cases "?pos = forge_expected_position f \<and> \<not> is_exhausted ?pos")
    case True
    then have step: "advance_once ?pos (forge_event f) = Inr (successor ?pos)"
      by (auto simp: advance_once_def)
    have before: "advance (position_of (basis_forge_positions basis) ?st)
        (case bt_get (scr_forge_events s) ?st of Some es \<Rightarrow> es | None \<Rightarrow> []) = Inr ?pos"
    proof (cases "bt_get (scr_forge_events s) ?st")
      case None
      with assms show ?thesis
        by (simp add: scratch_wf_def position_of_def)
    next
      case (Some es)
      with assms obtain q where "bt_get (scr_forge_positions s) ?st = Some q"
          "advance (position_of (basis_forge_positions basis) ?st) es = Inr q"
        unfolding scratch_wf_def by blast
      with Some show ?thesis
        by (simp add: position_of_def)
    qed
    from True Intent_Forge have "fst (apply_intent s i) =
        s\<lparr>scr_forge_positions := bt_insert ?st (successor ?pos) (scr_forge_positions s),
          scr_forge_events := bt_insert ?st
            ((case bt_get (scr_forge_events s) ?st of Some es \<Rightarrow> es | None \<Rightarrow> []) @ [forge_event f])
            (scr_forge_events s)\<rparr>"
      by (auto simp: Let_def)
    with assms before step show ?thesis
      by (simp add: scratch_wf_def try_fold_append)
  next
    case False
    with assms Intent_Forge show ?thesis
      by (auto simp: Let_def)
  qed
qed

lemma fold_intent_scratch:
  assumes "fold_intent request acc (a, i) = Inr acc'"
  shows "acc_scratch acc' = fst (apply_intent (acc_scratch acc) i)"
  using assms
  by (auto simp: fold_intent_def push_mapping_def Let_def
      split: prod.splits applied.splits mismatch_policy.splits)

lemma fold_scratch_wf:
  assumes "try_fold (fold_intent request) (fold_start basis) xs = Inr acc"
  shows "scratch_wf basis (acc_scratch acc)"
  using assms
proof (rule try_fold_invariant [where P = "\<lambda>acc. scratch_wf basis (acc_scratch acc)"])
  show "scratch_wf basis (acc_scratch (fold_start basis))"
    by (simp add: fold_start_def scratch_wf_start)
next
  fix acc x acc'
  assume "scratch_wf basis (acc_scratch acc)" "fold_intent request acc x = Inr acc'"
  then show "scratch_wf basis (acc_scratch acc')"
    by (cases x) (simp add: fold_intent_scratch scratch_wf_apply_intent)
qed

definition install_scratch :: "repository_roots \<Rightarrow> scratch \<Rightarrow> repository_roots" where
  "install_scratch roots s =
     roots\<lparr>root_refs := scr_refs s, root_forge_positions := scr_forge_positions s,
           root_retention := scr_retention s, root_outbox := scr_outbox s\<rparr>"

lemma basis_of_simps [simp]:
  "basis_refs (basis_of r) = root_refs r" "basis_forge_positions (basis_of r) = root_forge_positions r"
  "basis_retention (basis_of r) = root_retention r" "basis_outbox (basis_of r) = root_outbox r"
  by (simp_all add: basis_of_def)

lemma diff_replays:
  assumes wf: "scratch_wf (basis_of roots) s"
  shows "apply_effects roots (diff (basis_of roots) s) = Inr (install_scratch roots s)"
proof -
  let ?e = "diff (basis_of roots) s"
  have forge: "bt_get (eff_forge ?e) st = bt_get (scr_forge_events s) st" for st
    using wf by (auto simp: diff_def scratch_wf_def split: option.splits)
  have "\<exists>positions. try_fold advance_stream (root_forge_positions roots)
      (bt_entries (eff_forge ?e)) = Inr positions"
  proof (rule advance_streams_total)
    fix st es
    assume "(st, es) \<in> set (bt_entries (eff_forge ?e))"
    then have "bt_get (scr_forge_events s) st = Some es"
      by (simp add: forge)
    with wf have "\<exists>q. advance (position_of (basis_forge_positions (basis_of roots)) st) es = Inr q"
      unfolding scratch_wf_def by blast
    then show "\<exists>q. advance (position_of (root_forge_positions roots) st) es = Inr q"
      by simp
  qed simp
  then obtain roots' where r: "apply_effects roots ?e = Inr roots'"
    by (auto simp: apply_effects_def)
  have "root_refs roots' = scr_refs s"
    by (rule bt_eqI)
      (auto simp: apply_effects_refs [OF r] diff_def split: option.splits)
  moreover have "root_retention roots' = scr_retention s"
    by (rule bt_eqI)
      (auto simp: apply_effects_retention [OF r] diff_def split: option.splits)
  moreover have "root_outbox roots' = scr_outbox s"
  proof (rule bt_eqI)
    fix k
    have "bt_get (root_outbox roots) k = Some v \<Longrightarrow> bt_get (scr_outbox s) k = Some v" for v
      using wf by (simp add: scratch_wf_def)
    then show "bt_get (root_outbox roots') k = bt_get (scr_outbox s) k"
      by (cases "bt_get (root_outbox roots) k")
        (auto simp: apply_effects_outbox [OF r] diff_def map_add_def
          split: option.splits)
  qed
  moreover have "root_forge_positions roots' = scr_forge_positions s"
  proof (rule bt_eqI)
    fix st
    show "bt_get (root_forge_positions roots') st = bt_get (scr_forge_positions s) st"
    proof (cases "bt_get (scr_forge_events s) st")
      case None
      with wf apply_effects_forge_None [OF r, of st] show ?thesis
        by (simp add: forge scratch_wf_def)
    next
      case (Some es)
      with wf obtain q where "bt_get (scr_forge_positions s) st = Some q"
          "advance (position_of (basis_forge_positions (basis_of roots)) st) es = Inr q"
        unfolding scratch_wf_def by blast
      with Some apply_effects_forge_Some [OF r, of st es] show ?thesis
        by (auto simp: forge)
    qed
  qed
  ultimately show ?thesis
    using r apply_effects_outcomes [OF r] by (simp add: install_scratch_def)
qed

end
