(* ===== verification/Capsules.thy ===== *)
theory Capsules
  imports Repo_Roots
begin

text \<open>
  Prepared capsules and the conflict witnesses that decide whether they survive a lost race
  (\<open>fgit-reference/src/capsule.rs\<close>).
\<close>

datatype witness_granularity = Coarse | Refined

record conflict_witness =
  wit_granularity :: witness_granularity
  wit_basis_generation :: head_generation
  wit_refs :: "(ref_name, git_oid option) btree_map"
  wit_forge_positions :: "(forge_stream_id, forge_stream_position) btree_map"
  wit_retention_present :: "retention_root btree_set"
  wit_retention_absent :: "retention_root btree_set"
  wit_outbox :: "(outbox_delivery_key, digest option) btree_map"
  wit_policy_epoch :: policy_epoch

definition refined_reads_hold :: "conflict_witness \<Rightarrow> repository_roots \<Rightarrow> bool" where
  "refined_reads_hold w roots \<longleftrightarrow>
     list_all (\<lambda>(name, observed). bt_get (root_refs roots) name = observed)
       (bt_entries (wit_refs w)) \<and>
     list_all (\<lambda>(stream, observed). position_of (root_forge_positions roots) stream = observed)
       (bt_entries (wit_forge_positions w)) \<and>
     list_all (\<lambda>root. bt_contains (root_retention roots) root) (bt_keys (wit_retention_present w)) \<and>
     list_all (\<lambda>root. \<not> bt_contains (root_retention roots) root)
       (bt_keys (wit_retention_absent w)) \<and>
     list_all (\<lambda>(key, observed). bt_get (root_outbox roots) key = observed)
       (bt_entries (wit_outbox w))"

definition witness_reusable ::
  "conflict_witness \<Rightarrow> repository_roots \<Rightarrow> head_generation \<Rightarrow> policy_epoch \<Rightarrow> bool" where
  "witness_reusable w roots generation epoch =
     (if wit_policy_epoch w \<noteq> epoch then False
      else case wit_granularity w of
        Coarse \<Rightarrow> wit_basis_generation w = generation \<and> refined_reads_hold w roots
      | Refined \<Rightarrow> refined_reads_hold w roots)"

definition coarsened :: "conflict_witness \<Rightarrow> conflict_witness" where
  "coarsened w = w\<lparr>wit_granularity := Coarse\<rparr>"

definition refined :: "conflict_witness \<Rightarrow> conflict_witness" where
  "refined w = w\<lparr>wit_granularity := Refined\<rparr>"

datatype prepared_verdict = Verdict_Commit net_effects | Verdict_Refuse refusal_code

fun verdict_is_commit :: "prepared_verdict \<Rightarrow> bool" where
  "verdict_is_commit (Verdict_Commit _) = True"
| "verdict_is_commit (Verdict_Refuse _) = False"

fun verdict_refusal_code :: "prepared_verdict \<Rightarrow> refusal_code option" where
  "verdict_refusal_code (Verdict_Refuse code) = Some code"
| "verdict_refusal_code (Verdict_Commit _) = None"

record prepared_txn_capsule =
  caps_id :: prepared_txn_capsule_id
  caps_tx_id :: tx_id
  caps_seal_id :: transaction_seal_id
  caps_basis_head :: repository_authority_head_id
  caps_basis_generation :: head_generation
  caps_basis_rcr :: "repository_commit_id option"
  caps_principal_snapshot :: principal_snapshot_id
  caps_canonical_request_digest :: digest
  caps_intent_map :: "intent_mapping list"
  caps_object_closure :: "git_oid btree_set"
  caps_witness :: conflict_witness
  caps_verdict :: prepared_verdict
  caps_durability :: durability_profile
  caps_profile :: preparation_profile_id

definition capsule_reusable ::
  "prepared_txn_capsule \<Rightarrow> repository_authority_head_id \<Rightarrow> head_generation \<Rightarrow> repository_roots \<Rightarrow>
     policy_epoch \<Rightarrow> bool" where
  "capsule_reusable c head generation roots epoch =
     (if caps_basis_head c = head then True
      else witness_reusable (caps_witness c) roots generation epoch)"

definition capsule_effects :: "prepared_txn_capsule \<Rightarrow> net_effects option" where
  "capsule_effects c =
     (case caps_verdict c of Verdict_Commit e \<Rightarrow> Some e | Verdict_Refuse _ \<Rightarrow> None)"

end
