(* ===== verification/Decision_Batches.thy ===== *)
theory Decision_Batches
  imports Capsules
begin

text \<open>
  Terminal decisions, committed records and the batch under construction
  (\<open>fgit-reference/src/decision.rs\<close>). A draft assigns decision and repository sequences itself
  and refuses a second decision for the same transaction; sealing an empty draft is refused.
\<close>

record published_decision =
  dec_tx_id :: tx_id
  dec_sequence :: decision_sequence
  dec_outcome :: decision_outcome

definition decision_is_committed :: "published_decision \<Rightarrow> bool" where
  "decision_is_committed d = advances_repository_sequence (dec_outcome d)"

record repository_commit_record =
  rcr_id :: repository_commit_id
  rcr_repository :: repository_id
  rcr_repository_sequence :: repository_sequence
  rcr_parent :: "repository_commit_id option"
  rcr_tx_id :: tx_id
  rcr_principal_snapshot :: principal_snapshot_id
  rcr_canonical_request_digest :: digest
  rcr_effects :: net_effects
  rcr_resulting_refs :: "(ref_name, git_oid) btree_map"
  rcr_resulting_forge_positions :: "(forge_stream_id, forge_stream_position) btree_map"
  rcr_object_closure :: "git_oid btree_set"
  rcr_policy_epoch :: policy_epoch
  rcr_retention_delta :: "(retention_root, retention_effect) btree_map"
  rcr_outbox_delta :: "(outbox_delivery_key, digest) btree_map"

record decision_batch =
  batch_id :: repository_decision_batch_id
  batch_repository :: repository_id
  batch_predecessor_head :: repository_authority_head_id
  batch_predecessor_generation :: head_generation
  batch_first_decision_sequence :: decision_sequence
  batch_decisions :: "published_decision list"
  batch_committed :: "repository_commit_record list"
  batch_resulting :: repository_roots
  batch_resulting_policy_epoch :: policy_epoch
  batch_durability :: durability_profile

definition last_decision_sequence :: "decision_batch \<Rightarrow> decision_sequence option" where
  "last_decision_sequence b = map_option dec_sequence (last_opt (batch_decisions b))"

definition last_commit ::
  "decision_batch \<Rightarrow> (repository_commit_id \<times> repository_sequence) option" where
  "last_commit b =
     map_option (\<lambda>r. (rcr_id r, rcr_repository_sequence r)) (last_opt (batch_committed b))"

definition terminated_transactions :: "decision_batch \<Rightarrow> tx_id list" where
  "terminated_transactions b = map dec_tx_id (batch_decisions b)"

record decision_batch_draft =
  draft_id :: repository_decision_batch_id
  draft_repository :: repository_id
  draft_predecessor_head :: repository_authority_head_id
  draft_predecessor_generation :: head_generation
  draft_first_decision_sequence :: decision_sequence
  draft_next_decision_sequence :: decision_sequence
  draft_next_repository_sequence :: repository_sequence
  draft_parent_commit :: "repository_commit_id option"
  draft_seen :: "tx_id btree_set"
  draft_decisions :: "published_decision list"
  draft_committed :: "repository_commit_record list"
  draft_durability :: durability_profile

record sequence_assignment =
  asg_decision_sequence :: decision_sequence
  asg_repository_sequence :: "repository_sequence option"

record commit_candidate =
  cand_id :: repository_commit_id
  cand_repository :: repository_id
  cand_tx_id :: tx_id
  cand_principal_snapshot :: principal_snapshot_id
  cand_canonical_request_digest :: digest
  cand_effects :: net_effects
  cand_resulting_refs :: "(ref_name, git_oid) btree_map"
  cand_resulting_forge_positions :: "(forge_stream_id, forge_stream_position) btree_map"
  cand_object_closure :: "git_oid btree_set"
  cand_policy_epoch :: policy_epoch
  cand_retention_delta :: "(retention_root, retention_effect) btree_map"
  cand_outbox_delta :: "(outbox_delivery_key, digest) btree_map"

definition draft_open ::
  "repository_decision_batch_id \<Rightarrow> repository_id \<Rightarrow> repository_authority_head_id \<Rightarrow>
   head_generation \<Rightarrow> decision_sequence \<Rightarrow> repository_sequence \<Rightarrow> repository_commit_id option \<Rightarrow>
   durability_profile \<Rightarrow> decision_batch_draft" where
  "draft_open i repository predecessor_head predecessor_generation first_decision
     first_repository parent_commit durability =
     \<lparr>draft_id = i, draft_repository = repository, draft_predecessor_head = predecessor_head,
      draft_predecessor_generation = predecessor_generation,
      draft_first_decision_sequence = first_decision,
      draft_next_decision_sequence = first_decision,
      draft_next_repository_sequence = first_repository,
      draft_parent_commit = parent_commit, draft_seen = bt_empty, draft_decisions = [],
      draft_committed = [], draft_durability = durability\<rparr>"

definition draft_holds :: "decision_batch_draft \<Rightarrow> tx_id \<Rightarrow> bool" where
  "draft_holds d tx = bt_contains (draft_seen d) tx"

definition draft_is_empty :: "decision_batch_draft \<Rightarrow> bool" where
  "draft_is_empty d \<longleftrightarrow> draft_decisions d = []"

definition reserve_decision_sequence ::
  "decision_batch_draft \<Rightarrow> tx_id \<Rightarrow> (decision_batch_draft \<times> decision_sequence) model_result" where
  "reserve_decision_sequence d tx =
     (if bt_contains (draft_seen d) tx then Inl (SecondDecisionInBatch tx)
      else
        (let assigned = draft_next_decision_sequence d in
         rbind (map_err (\<lambda>_. SequenceExhausted ''decision'')
                 (counter_next ''DecisionSequence'' assigned)) (\<lambda>next.
         Inr (d\<lparr>draft_seen := bs_insert tx (draft_seen d),
                draft_next_decision_sequence := next\<rparr>, assigned))))"

definition push_refusal ::
  "decision_batch_draft \<Rightarrow> tx_id \<Rightarrow> decision_outcome \<Rightarrow>
     (decision_batch_draft \<times> sequence_assignment) model_result" where
  "push_refusal d tx outcome =
     (if advances_repository_sequence outcome then Inl (RefusalOutcomeExpected tx)
      else
        rbind (reserve_decision_sequence d tx) (\<lambda>(d', sequence).
        Inr (d'\<lparr>draft_decisions :=
               draft_decisions d' @
               [\<lparr>dec_tx_id = tx, dec_sequence = sequence, dec_outcome = outcome\<rparr>]\<rparr>,
             \<lparr>asg_decision_sequence = sequence, asg_repository_sequence = None\<rparr>)))"

definition record_of ::
  "commit_candidate \<Rightarrow> repository_sequence \<Rightarrow> repository_commit_id option \<Rightarrow>
     repository_commit_record" where
  "record_of c sequence parent =
     \<lparr>rcr_id = cand_id c, rcr_repository = cand_repository c, rcr_repository_sequence = sequence,
      rcr_parent = parent, rcr_tx_id = cand_tx_id c,
      rcr_principal_snapshot = cand_principal_snapshot c,
      rcr_canonical_request_digest = cand_canonical_request_digest c,
      rcr_effects = cand_effects c, rcr_resulting_refs = cand_resulting_refs c,
      rcr_resulting_forge_positions = cand_resulting_forge_positions c,
      rcr_object_closure = cand_object_closure c, rcr_policy_epoch = cand_policy_epoch c,
      rcr_retention_delta = cand_retention_delta c, rcr_outbox_delta = cand_outbox_delta c\<rparr>"

definition push_commit ::
  "decision_batch_draft \<Rightarrow> commit_candidate \<Rightarrow>
     (decision_batch_draft \<times> sequence_assignment) model_result" where
  "push_commit d c =
     rbind (reserve_decision_sequence d (cand_tx_id c)) (\<lambda>(d', sequence).
     let repository_sequence = draft_next_repository_sequence d' in
     rbind (map_err (\<lambda>_. SequenceExhausted ''repository'')
             (counter_next ''RepositorySequence'' repository_sequence)) (\<lambda>next.
     Inr (d'\<lparr>draft_next_repository_sequence := next,
            draft_parent_commit := Some (cand_id c),
            draft_decisions :=
              draft_decisions d' @
              [\<lparr>dec_tx_id = cand_tx_id c, dec_sequence = sequence,
                dec_outcome = Committed (cand_id c)\<rparr>],
            draft_committed :=
              draft_committed d' @ [record_of c repository_sequence (draft_parent_commit d')]\<rparr>,
          \<lparr>asg_decision_sequence = sequence,
           asg_repository_sequence = Some repository_sequence\<rparr>)))"

definition draft_finish ::
  "decision_batch_draft \<Rightarrow> repository_roots \<Rightarrow> policy_epoch \<Rightarrow> decision_batch model_result" where
  "draft_finish d resulting epoch =
     (if draft_decisions d = [] then Inl (EmptyDecisionBatch (draft_id d))
      else Inr
        \<lparr>batch_id = draft_id d, batch_repository = draft_repository d,
         batch_predecessor_head = draft_predecessor_head d,
         batch_predecessor_generation = draft_predecessor_generation d,
         batch_first_decision_sequence = draft_first_decision_sequence d,
         batch_decisions = draft_decisions d, batch_committed = draft_committed d,
         batch_resulting = resulting, batch_resulting_policy_epoch = epoch,
         batch_durability = draft_durability d\<rparr>)"

section \<open>Well-formed drafts\<close>

text \<open>A list of records each of which names the previous one as its parent.\<close>

fun linked :: "repository_commit_id option \<Rightarrow> repository_commit_record list \<Rightarrow> bool" where
  "linked p [] \<longleftrightarrow> True"
| "linked p (r # rs) \<longleftrightarrow> rcr_parent r = p \<and> linked (Some (rcr_id r)) rs"

definition last_id ::
  "repository_commit_id option \<Rightarrow> repository_commit_record list \<Rightarrow> repository_commit_id option" where
  "last_id p rs = (if rs = [] then p else Some (rcr_id (last rs)))"

lemma last_id_simps [simp]:
  "last_id p [] = p" "last_id p (rs @ [r]) = Some (rcr_id r)"
  by (simp_all add: last_id_def)

lemma linked_append: "linked p (rs @ qs) \<longleftrightarrow> linked p rs \<and> linked (last_id p rs) qs"
  by (induction rs arbitrary: p) (auto simp: last_id_def)

lemma last_id_append: "last_id p (rs @ qs) = last_id (last_id p rs) qs"
  by (auto simp: last_id_def)

text \<open>The commits a decision stream announces.\<close>

fun committed_pair :: "published_decision \<Rightarrow> (tx_id \<times> repository_commit_id) option" where
  "committed_pair d =
     (case dec_outcome d of Committed i \<Rightarrow> Some (dec_tx_id d, i) | Refused _ _ \<Rightarrow> None)"

definition record_pair :: "repository_commit_record \<Rightarrow> tx_id \<times> repository_commit_id" where
  "record_pair r = (rcr_tx_id r, rcr_id r)"

definition draft_wf ::
  "nat \<Rightarrow> repository_commit_id option \<Rightarrow> decision_batch_draft \<Rightarrow> bool" where
  "draft_wf r0 p0 d \<longleftrightarrow>
     cnt (draft_first_decision_sequence d) \<le> cnt (draft_next_decision_sequence d) \<and>
     map (cnt \<circ> dec_sequence) (draft_decisions d)
       = [cnt (draft_first_decision_sequence d)..<cnt (draft_next_decision_sequence d)] \<and>
     r0 \<le> cnt (draft_next_repository_sequence d) \<and>
     map (cnt \<circ> rcr_repository_sequence) (draft_committed d)
       = [r0..<cnt (draft_next_repository_sequence d)] \<and>
     bs_set (draft_seen d) = dec_tx_id ` set (draft_decisions d) \<and>
     distinct (map dec_tx_id (draft_decisions d)) \<and>
     linked p0 (draft_committed d) \<and>
     draft_parent_commit d = last_id p0 (draft_committed d) \<and>
     List.map_filter committed_pair (draft_decisions d) = map record_pair (draft_committed d)"

lemma draft_wf_open [simp]:
  "draft_wf (cnt first_repository) p0
     (draft_open i repository head generation first_decision first_repository p0 durability)"
  by (simp add: draft_wf_def draft_open_def List.map_filter_def)

lemma reserve_Inr:
  assumes "reserve_decision_sequence d tx = Inr (d', sequence)"
  obtains n where
    "tx \<notin> bs_set (draft_seen d)" "sequence = draft_next_decision_sequence d"
    "cnt n = Suc (cnt (draft_next_decision_sequence d))"
    "d' = d\<lparr>draft_seen := bs_insert tx (draft_seen d), draft_next_decision_sequence := n\<rparr>"
proof -
  from assms obtain n where
    "counter_next ''DecisionSequence'' (draft_next_decision_sequence d) = Inr n"
    "tx \<notin> bs_set (draft_seen d)" "sequence = draft_next_decision_sequence d"
    "d' = d\<lparr>draft_seen := bs_insert tx (draft_seen d), draft_next_decision_sequence := n\<rparr>"
    by (auto simp: reserve_decision_sequence_def Let_def split: if_splits)
  then show ?thesis
    by (intro that [of n]) (auto dest: counter_next_cnt)
qed

lemma push_refusal_Inr:
  assumes "push_refusal d tx outcome = Inr (d', a)"
  obtains code i n where
    "outcome = Refused code i" "tx \<notin> bs_set (draft_seen d)"
    "cnt n = Suc (cnt (draft_next_decision_sequence d))"
    "d' = d\<lparr>draft_seen := bs_insert tx (draft_seen d), draft_next_decision_sequence := n,
            draft_decisions := draft_decisions d @
              [\<lparr>dec_tx_id = tx, dec_sequence = draft_next_decision_sequence d,
                dec_outcome = outcome\<rparr>]\<rparr>"
    "a = \<lparr>asg_decision_sequence = draft_next_decision_sequence d, asg_repository_sequence = None\<rparr>"
proof -
  from assms obtain d1 sequence where
    out: "\<not> advances_repository_sequence outcome" and
    res: "reserve_decision_sequence d tx = Inr (d1, sequence)" and
    d': "d' = d1\<lparr>draft_decisions := draft_decisions d1 @
           [\<lparr>dec_tx_id = tx, dec_sequence = sequence, dec_outcome = outcome\<rparr>]\<rparr>" and
    a: "a = \<lparr>asg_decision_sequence = sequence, asg_repository_sequence = None\<rparr>"
    by (auto simp: push_refusal_def split: if_splits)
  obtain code i where "outcome = Refused code i"
    using out by (cases outcome) auto
  with res d' a show ?thesis
    by (elim reserve_Inr) (auto intro: that)
qed

lemma push_commit_Inr:
  assumes "push_commit d c = Inr (d', a)"
  obtains n m where
    "cand_tx_id c \<notin> bs_set (draft_seen d)"
    "cnt n = Suc (cnt (draft_next_decision_sequence d))"
    "cnt m = Suc (cnt (draft_next_repository_sequence d))"
    "d' = d\<lparr>draft_seen := bs_insert (cand_tx_id c) (draft_seen d),
            draft_next_decision_sequence := n, draft_next_repository_sequence := m,
            draft_parent_commit := Some (cand_id c),
            draft_decisions := draft_decisions d @
              [\<lparr>dec_tx_id = cand_tx_id c, dec_sequence = draft_next_decision_sequence d,
                dec_outcome = Committed (cand_id c)\<rparr>],
            draft_committed := draft_committed d @
              [record_of c (draft_next_repository_sequence d) (draft_parent_commit d)]\<rparr>"
    "a = \<lparr>asg_decision_sequence = draft_next_decision_sequence d,
          asg_repository_sequence = Some (draft_next_repository_sequence d)\<rparr>"
proof -
  from assms obtain d1 sequence m where
    res: "reserve_decision_sequence d (cand_tx_id c) = Inr (d1, sequence)" and
    m: "counter_next ''RepositorySequence'' (draft_next_repository_sequence d1) = Inr m" and
    d': "d' = d1\<lparr>draft_next_repository_sequence := m, draft_parent_commit := Some (cand_id c),
            draft_decisions := draft_decisions d1 @
              [\<lparr>dec_tx_id = cand_tx_id c, dec_sequence = sequence,
                dec_outcome = Committed (cand_id c)\<rparr>],
            draft_committed := draft_committed d1 @
              [record_of c (draft_next_repository_sequence d1) (draft_parent_commit d1)]\<rparr>" and
    a: "a = \<lparr>asg_decision_sequence = sequence,
          asg_repository_sequence = Some (draft_next_repository_sequence d1)\<rparr>"
    by (auto simp: push_commit_def Let_def)
  from counter_next_cnt [OF m] res d' a show ?thesis
    by (elim reserve_Inr) (auto intro: that)
qed

lemma push_refusal_wf:
  assumes "push_refusal d tx outcome = Inr (d', a)" "draft_wf r0 p0 d"
  shows "draft_wf r0 p0 d'"
  using assms(1)
proof (rule push_refusal_Inr)
  fix code i n
  assume "outcome = Refused code i" "tx \<notin> bs_set (draft_seen d)"
    "cnt n = Suc (cnt (draft_next_decision_sequence d))"
    "d' = d\<lparr>draft_seen := bs_insert tx (draft_seen d), draft_next_decision_sequence := n,
            draft_decisions := draft_decisions d @
              [\<lparr>dec_tx_id = tx, dec_sequence = draft_next_decision_sequence d,
                dec_outcome = outcome\<rparr>]\<rparr>"
  with assms(2) show ?thesis
    by (auto simp: draft_wf_def map_filter_append map_filter_single)
qed

lemma push_commit_wf:
  assumes "push_commit d c = Inr (d', a)" "draft_wf r0 p0 d"
  shows "draft_wf r0 p0 d'"
  using assms(1)
proof (rule push_commit_Inr)
  fix n m
  assume "cand_tx_id c \<notin> bs_set (draft_seen d)"
    "cnt n = Suc (cnt (draft_next_decision_sequence d))"
    "cnt m = Suc (cnt (draft_next_repository_sequence d))"
    "d' = d\<lparr>draft_seen := bs_insert (cand_tx_id c) (draft_seen d),
            draft_next_decision_sequence := n, draft_next_repository_sequence := m,
            draft_parent_commit := Some (cand_id c),
            draft_decisions := draft_decisions d @
              [\<lparr>dec_tx_id = cand_tx_id c, dec_sequence = draft_next_decision_sequence d,
                dec_outcome = Committed (cand_id c)\<rparr>],
            draft_committed := draft_committed d @
              [record_of c (draft_next_repository_sequence d) (draft_parent_commit d)]\<rparr>"
  with assms(2) show ?thesis
    by (auto simp: draft_wf_def map_filter_append map_filter_single linked_append record_of_def
        record_pair_def)
qed

end
