(* ===== verification/Repo_State.thy ===== *)
theory Repo_State
  imports Decision_Batches
begin

text \<open>
  The complete state of one modelled repository and its queries
  (\<open>fgit-reference/src/state.rs\<close>): the authority head and its chain, staged and published batches,
  seals, capsules, quarantine and admitted objects, and the ledger of identities ever introduced.
  The three executable invariant checks of the sources are definitions here; the loop that walks
  the head chain terminates because every iteration checks that the generation decreases.
\<close>

section \<open>Authority heads\<close>

record authority_head_body =
  body_repository :: repository_id
  body_generation :: head_generation
  body_predecessor :: "repository_authority_head_id option"
  body_decision_tail :: "repository_decision_batch_id option"
  body_latest_decision_sequence :: "decision_sequence option"
  body_latest_committed_rcr :: "repository_commit_id option"
  body_latest_repository_sequence :: "repository_sequence option"
  body_roots :: repository_roots
  body_configuration :: policy_snapshot
  body_format_registry_epoch :: registry_epoch

definition next_sequence :: "string \<Rightarrow> string \<Rightarrow> 'd counter option \<Rightarrow> 'd counter model_result" where
  "next_sequence field kind latest =
     (case latest of
        None \<Rightarrow> Inr counter_FIRST
      | Some c \<Rightarrow> map_err (\<lambda>_. SequenceExhausted kind) (counter_next field c))"

definition next_decision_sequence :: "authority_head_body \<Rightarrow> decision_sequence model_result" where
  "next_decision_sequence b =
     next_sequence ''DecisionSequence'' ''decision'' (body_latest_decision_sequence b)"

definition next_repository_sequence :: "authority_head_body \<Rightarrow> repository_sequence model_result" where
  "next_repository_sequence b =
     next_sequence ''RepositorySequence'' ''repository'' (body_latest_repository_sequence b)"

definition next_generation :: "authority_head_body \<Rightarrow> head_generation model_result" where
  "next_generation b =
     map_err (\<lambda>_. SequenceExhausted ''generation'') (counter_next ''HeadGeneration'' (body_generation b))"

record authority_head =
  head_id :: repository_authority_head_id
  head_body :: authority_head_body

section \<open>Seals, objects and staged batches\<close>

datatype idempotency_scope =
  IdempotencyScope (scope_tenant: tenant_id) (scope_repository: repository_id)
    (scope_principal: principal_id) (scope_key: idempotency_key)

definition idempotency_scope_key :: "idempotency_scope \<Rightarrow> tenant_id \<times> repository_id \<times> principal_id \<times> idempotency_key" where
  "idempotency_scope_key x = (scope_tenant x, scope_repository x, scope_principal x, scope_key x)"

lemma idempotency_scope_key_inject [simp]: "idempotency_scope_key x = idempotency_scope_key y \<longleftrightarrow> x = y"
  by (cases x; cases y) (simp add: idempotency_scope_key_def)

instantiation idempotency_scope :: linorder
begin

definition less_eq_idempotency_scope :: "idempotency_scope \<Rightarrow> idempotency_scope \<Rightarrow> bool" where
  "x \<le> y \<longleftrightarrow> idempotency_scope_key x \<le> idempotency_scope_key y"

definition less_idempotency_scope :: "idempotency_scope \<Rightarrow> idempotency_scope \<Rightarrow> bool" where
  "x < y \<longleftrightarrow> idempotency_scope_key x < idempotency_scope_key y"

instance
  by standard
    (auto simp: less_eq_idempotency_scope_def less_idempotency_scope_def less_le_not_le simp flip: idempotency_scope_key_inject)

end

lemma idempotency_scope_order [simp]:
  "IdempotencyScope a b c d \<le> IdempotencyScope a' b' c' d' \<longleftrightarrow> (a, b, c, d) \<le> (a', b', c', d')"
  "IdempotencyScope a b c d < IdempotencyScope a' b' c' d' \<longleftrightarrow> (a, b, c, d) < (a', b', c', d')"
  by (simp_all add: less_eq_idempotency_scope_def less_idempotency_scope_def idempotency_scope_key_def)

record seal_record =
  sealrec_id :: transaction_seal_id
  sealrec_fields :: seal_fields
  sealrec_preparations :: u32

record object_record =
  obj_parents :: "git_oid list"

record quarantined_object =
  q_declared :: git_oid
  q_recomputed :: git_oid
  q_parents :: "git_oid list"

definition is_identity_verified :: "quarantined_object \<Rightarrow> bool" where
  "is_identity_verified q \<longleftrightarrow> q_declared q = q_recomputed q"

record staged_batch =
  stg_batch :: decision_batch
  stg_candidate_head :: authority_head
  stg_durability_satisfied :: bool

definition may_become_visible :: "staged_batch \<Rightarrow> bool" where
  "may_become_visible sb \<longleftrightarrow>
     \<not> requires_durability_before_visibility (batch_durability (stg_batch sb)) \<or>
     stg_durability_satisfied sb"

section \<open>The identity ledger\<close>

record identity_ledger =
  led_tx_by_inputs :: "(tx_id_derivation_inputs, tx_id) btree_map"
  led_inputs_by_tx :: "(tx_id, tx_id_derivation_inputs) btree_map"
  led_heads :: "repository_authority_head_id btree_set"
  led_batches :: "repository_decision_batch_id btree_set"
  led_commits :: "repository_commit_id btree_set"
  led_capsules :: "prepared_txn_capsule_id btree_set"
  led_seals :: "transaction_seal_id btree_set"

definition ledger_default :: identity_ledger where
  "ledger_default =
     \<lparr>led_tx_by_inputs = bt_empty, led_inputs_by_tx = bt_empty, led_heads = bt_empty,
      led_batches = bt_empty, led_commits = bt_empty, led_capsules = bt_empty,
      led_seals = bt_empty\<rparr>"

definition bind_transaction ::
  "identity_ledger \<Rightarrow> tx_id \<Rightarrow> tx_id_derivation_inputs \<Rightarrow> identity_ledger model_result" where
  "bind_transaction l tx inputs =
     rbind (case bt_get (led_tx_by_inputs l) inputs of
              Some bound \<Rightarrow>
                if bound \<noteq> tx then Inl (TxIdDerivationInconsistent bound tx) else Inr ()
            | None \<Rightarrow> Inr ()) (\<lambda>_.
     rbind (case bt_get (led_inputs_by_tx l) tx of
              Some bound_inputs \<Rightarrow>
                if bound_inputs \<noteq> inputs then Inl (TxIdInputsInconsistent tx) else Inr ()
            | None \<Rightarrow> Inr ()) (\<lambda>_.
     Inr (l\<lparr>led_tx_by_inputs := bt_insert inputs tx (led_tx_by_inputs l),
            led_inputs_by_tx := bt_insert tx inputs (led_inputs_by_tx l)\<rparr>)))"

definition introduce :: "'a::linorder btree_set \<Rightarrow> 'a \<Rightarrow> string \<Rightarrow> 'a btree_set model_result" where
  "introduce ids i kind =
     (if bt_contains ids i then Inl (IdentityReused kind) else Inr (bs_insert i ids))"

definition introduce_head ::
  "identity_ledger \<Rightarrow> repository_authority_head_id \<Rightarrow> identity_ledger model_result" where
  "introduce_head l i =
     rbind (introduce (led_heads l) i ''head'') (\<lambda>s. Inr (l\<lparr>led_heads := s\<rparr>))"

definition introduce_batch ::
  "identity_ledger \<Rightarrow> repository_decision_batch_id \<Rightarrow> identity_ledger model_result" where
  "introduce_batch l i =
     rbind (introduce (led_batches l) i ''batch'') (\<lambda>s. Inr (l\<lparr>led_batches := s\<rparr>))"

definition introduce_commit ::
  "identity_ledger \<Rightarrow> repository_commit_id \<Rightarrow> identity_ledger model_result" where
  "introduce_commit l i =
     rbind (introduce (led_commits l) i ''commit'') (\<lambda>s. Inr (l\<lparr>led_commits := s\<rparr>))"

definition introduce_capsule ::
  "identity_ledger \<Rightarrow> prepared_txn_capsule_id \<Rightarrow> identity_ledger model_result" where
  "introduce_capsule l i =
     rbind (introduce (led_capsules l) i ''capsule'') (\<lambda>s. Inr (l\<lparr>led_capsules := s\<rparr>))"

definition introduce_seal ::
  "identity_ledger \<Rightarrow> transaction_seal_id \<Rightarrow> identity_ledger model_result" where
  "introduce_seal l i =
     rbind (introduce (led_seals l) i ''seal'') (\<lambda>s. Inr (l\<lparr>led_seals := s\<rparr>))"

section \<open>Repository state\<close>

record genesis_configuration =
  gen_tenant :: tenant_id
  gen_repository :: repository_id
  gen_object_format :: git_hash_algorithm
  gen_head_id :: repository_authority_head_id
  gen_policy :: policy_snapshot
  gen_format_registry_epoch :: registry_epoch

record repository_state =
  st_tenant :: tenant_id
  st_repository :: repository_id
  st_object_format :: git_hash_algorithm
  st_head :: authority_head
  st_head_chain :: "(repository_authority_head_id, authority_head_body) btree_map"
  st_batches :: "(repository_decision_batch_id, decision_batch) btree_map"
  st_staged :: "(repository_decision_batch_id, staged_batch) btree_map"
  st_decisions :: "published_decision list"
  st_commits :: "repository_commit_record list"
  st_seals :: "(tx_id, seal_record) btree_map"
  st_idempotency_index :: "(idempotency_scope, digest) btree_map"
  st_capsules :: "(prepared_txn_capsule_id, prepared_txn_capsule) btree_map"
  st_quarantine :: "(tx_id, (git_oid, quarantined_object) btree_map) btree_map"
  st_objects :: "(git_oid, object_record) btree_map"
  st_identities :: identity_ledger

definition genesis_body :: "genesis_configuration \<Rightarrow> authority_head_body" where
  "genesis_body c =
     \<lparr>body_repository = gen_repository c, body_generation = counter_FIRST,
      body_predecessor = None, body_decision_tail = None, body_latest_decision_sequence = None,
      body_latest_committed_rcr = None, body_latest_repository_sequence = None,
      body_roots = roots_default, body_configuration = gen_policy c,
      body_format_registry_epoch = gen_format_registry_epoch c\<rparr>"

definition genesis :: "genesis_configuration \<Rightarrow> repository_state" where
  "genesis c =
     \<lparr>st_tenant = gen_tenant c, st_repository = gen_repository c,
      st_object_format = gen_object_format c,
      st_head = \<lparr>head_id = gen_head_id c, head_body = genesis_body c\<rparr>,
      st_head_chain = bt_insert (gen_head_id c) (genesis_body c) bt_empty,
      st_batches = bt_empty, st_staged = bt_empty, st_decisions = [], st_commits = [],
      st_seals = bt_empty, st_idempotency_index = bt_empty, st_capsules = bt_empty,
      st_quarantine = bt_empty, st_objects = bt_empty,
      st_identities =
        (case introduce_head ledger_default (gen_head_id c) of
           Inr l \<Rightarrow> l
         | Inl _ \<Rightarrow> ledger_default)\<rparr>"

abbreviation st_body :: "repository_state \<Rightarrow> authority_head_body" where
  "st_body s \<equiv> head_body (st_head s)"

abbreviation st_roots :: "repository_state \<Rightarrow> repository_roots" where
  "st_roots s \<equiv> body_roots (st_body s)"

abbreviation st_policy :: "repository_state \<Rightarrow> policy_snapshot" where
  "st_policy s \<equiv> body_configuration (st_body s)"

definition outcome_of :: "repository_state \<Rightarrow> tx_id \<Rightarrow> decision_outcome option" where
  "outcome_of s tx = bt_get (root_outcome_index (st_roots s)) tx"

definition is_terminal :: "repository_state \<Rightarrow> tx_id \<Rightarrow> bool" where
  "is_terminal s tx \<longleftrightarrow> outcome_of s tx \<noteq> None"

definition preparations_of :: "repository_state \<Rightarrow> tx_id \<Rightarrow> u32" where
  "preparations_of s tx =
     (case bt_get (st_seals s) tx of Some r \<Rightarrow> sealrec_preparations r | None \<Rightarrow> 0)"

definition seal_of :: "repository_state \<Rightarrow> tx_id \<Rightarrow> seal_record option" where
  "seal_of s tx = bt_get (st_seals s) tx"

definition quarantine_of ::
  "repository_state \<Rightarrow> tx_id \<Rightarrow> (git_oid, quarantined_object) btree_map option" where
  "quarantine_of s tx = bt_get (st_quarantine s) tx"

definition is_admitted :: "repository_state \<Rightarrow> git_oid \<Rightarrow> bool" where
  "is_admitted s oid = bt_contains (st_objects s) oid"

section \<open>Ancestry\<close>

text \<open>
  The ancestry walk shared by \<open>RepositoryState::is_reachable\<close> and \<open>reachable_in\<close>: a stack of
  objects to expand and the set already expanded. The stack's top is the head of the list, so
  pushing the parents in order puts them in front in reverse.
\<close>

function ancestor_walk ::
  "('v \<Rightarrow> 'k list) \<Rightarrow> ('k::linorder, 'v) btree_map \<Rightarrow> 'k \<Rightarrow> 'k btree_set \<Rightarrow> 'k list \<Rightarrow> bool" where
  "ancestor_walk ps view candidate visited [] = False"
| "ancestor_walk ps view candidate visited (current # frontier) =
     (if bt_contains visited current then ancestor_walk ps view candidate visited frontier
      else case bt_get view current of
        None \<Rightarrow> ancestor_walk ps view candidate (bs_insert current visited) frontier
      | Some r \<Rightarrow>
          if candidate \<in> set (ps r) then True
          else ancestor_walk ps view candidate (bs_insert current visited)
                 (rev (ps r) @ frontier))"
  by pat_completeness auto

termination
proof (relation "measures [\<lambda>(ps, view, candidate, visited, frontier).
    card (dom (bt_get view) - bs_set visited), \<lambda>(ps, view, candidate, visited, frontier).
    length frontier]", goal_cases)
  case (4 ps view candidate visited current frontier r)
  then have "dom (bt_get view) - bs_set (bs_insert current visited)
      \<subset> dom (bt_get view) - bs_set visited"
    by auto
  then have "card (dom (bt_get view) - bs_set (bs_insert current visited))
      < card (dom (bt_get view) - bs_set visited)"
    by (rule psubset_card_mono [rotated]) simp
  then show ?case
    by simp
next
  case (3 ps view candidate visited current frontier)
  then have "dom (bt_get view) - bs_set (bs_insert current visited)
      = dom (bt_get view) - bs_set visited"
    by auto
  then show ?case
    by simp
qed auto

definition is_reachable :: "repository_state \<Rightarrow> git_oid \<Rightarrow> git_oid \<Rightarrow> bool" where
  "is_reachable s tip candidate \<longleftrightarrow>
     tip = candidate \<or> ancestor_walk obj_parents (st_objects s) candidate bt_empty [tip]"

definition reachable_in ::
  "(git_oid, git_oid list) btree_map \<Rightarrow> git_oid \<Rightarrow> git_oid \<Rightarrow> bool" where
  "reachable_in view tip candidate \<longleftrightarrow>
     tip = candidate \<or> ancestor_walk (\<lambda>ps. ps) view candidate bt_empty [tip]"

section \<open>Executable invariant checks\<close>

definition assert_no_quarantine_escape :: "repository_state \<Rightarrow> unit model_result" where
  "assert_no_quarantine_escape s =
     (case find (\<lambda>object. \<not> bt_contains (st_objects s) object) (protected_objects (st_roots s)) of
        Some object \<Rightarrow> Inl (QuarantineEscape object)
      | None \<Rightarrow> Inr ())"

lemma next_generation_unat:
  "next_generation b = Inr g \<Longrightarrow>
     unat (counter_get g) = Suc (unat (counter_get (body_generation b)))"
  by (auto simp: next_generation_def counter_next_def dest: checked_succ_unat)

function chain_walk ::
  "(repository_authority_head_id, authority_head_body) btree_map \<Rightarrow> authority_head_body \<Rightarrow> u64 \<Rightarrow>
     (authority_head_body \<times> u64) model_result" where
  "chain_walk chain cursor steps =
     (case body_predecessor cursor of
        None \<Rightarrow> Inr (cursor, steps)
      | Some predecessor \<Rightarrow>
          (case bt_get chain predecessor of
             None \<Rightarrow> Inl (HeadPredecessorMismatch predecessor (Some predecessor))
           | Some body \<Rightarrow>
               rbind (next_generation body) (\<lambda>expected.
               if expected \<noteq> body_generation cursor
               then Inl (HeadGenerationNotSuccessor (body_generation body) (body_generation cursor))
               else chain_walk chain body (steps + 1))))"
  by pat_completeness auto

termination
  by (relation "measure (\<lambda>(chain, cursor, steps). unat (counter_get (body_generation cursor)))")
    (auto dest: next_generation_unat)

declare chain_walk.simps [simp del]

definition assert_head_chain_continuous :: "repository_state \<Rightarrow> unit model_result" where
  "assert_head_chain_continuous s =
     rbind (chain_walk (st_head_chain s) (st_body s) 0) (\<lambda>(cursor, steps).
     if counter_get (body_generation cursor) \<noteq> counter_get (counter_FIRST :: head_generation)
     then Inl (HeadGenerationNotSuccessor (body_generation cursor) counter_FIRST)
     else if steps + 1 \<noteq> counter_get (body_generation (st_body s))
     then Inl (HeadGenerationNotSuccessor (body_generation cursor) (body_generation (st_body s)))
     else Inr ())"

definition check_decision_sequence ::
  "decision_sequence \<Rightarrow> published_decision \<Rightarrow> decision_sequence model_result" where
  "check_decision_sequence expected d =
     (if dec_sequence d \<noteq> expected
      then Inl (DecisionSequenceDiscontinuity expected (dec_sequence d))
      else map_err (\<lambda>_. SequenceExhausted ''decision'') (counter_next ''DecisionSequence'' expected))"

definition check_repository_sequence ::
  "repository_sequence \<Rightarrow> repository_commit_record \<Rightarrow> repository_sequence model_result" where
  "check_repository_sequence expected r =
     (if rcr_repository_sequence r \<noteq> expected
      then Inl (RepositorySequenceDiscontinuity expected (rcr_repository_sequence r))
      else map_err (\<lambda>_. SequenceExhausted ''repository'')
             (counter_next ''RepositorySequence'' expected))"

definition assert_sequences_gap_free :: "repository_state \<Rightarrow> unit model_result" where
  "assert_sequences_gap_free s =
     rbind (try_fold check_decision_sequence counter_FIRST (st_decisions s)) (\<lambda>_.
     rbind (try_fold check_repository_sequence counter_FIRST (st_commits s)) (\<lambda>_. Inr ()))"

section \<open>Introducing identities\<close>

lemma introduce_Inr_iff:
  "introduce ids i kind = Inr ids' \<longleftrightarrow> i \<notin> bs_set ids \<and> ids' = bs_insert i ids"
  by (auto simp: introduce_def)

lemmas introduces_def =
  introduce_head_def introduce_batch_def introduce_commit_def introduce_capsule_def introduce_seal_def

lemma bind_transaction_Inr:
  assumes "bind_transaction l tx inputs = Inr l'"
  shows "l' = l\<lparr>led_tx_by_inputs := bt_insert inputs tx (led_tx_by_inputs l),
                 led_inputs_by_tx := bt_insert tx inputs (led_inputs_by_tx l)\<rparr>"
    and "bt_get (led_tx_by_inputs l) inputs \<in> {None, Some tx}"
    and "bt_get (led_inputs_by_tx l) tx \<in> {None, Some inputs}"
  using assms by (auto simp: bind_transaction_def split: option.splits if_splits)

lemma next_sequence_cnt:
  "next_sequence field kind latest = Inr c \<Longrightarrow>
     cnt c = Suc (case latest of None \<Rightarrow> 0 | Some l \<Rightarrow> cnt l)"
  by (auto simp: next_sequence_def counter_FIRST_def counter_next_cnt split: option.splits)

end
