(* ===== verification/Transitions.thy ===== *)
theory Transitions
  imports Repo_State
begin

text \<open>
  The transitions of \<open>fgit-reference/src/transition.rs\<close>, each from a state and an input to a
  breach or a new state and an outcome: sealing, quarantine, preparation (admission checks, fold
  and policy), the decision of a capsule, staging of a batch, the head compare-and-swap and the
  configuration transition. Loops that return at the first violation are \<open>first_some\<close> over the
  map's entries in key order, loops that propagate an error are \<open>try_fold\<close>.
\<close>

section \<open>Sealing\<close>

datatype seal_outcome =
    Created transaction_seal_id
  | ExistingRetry transaction_seal_id
  | Rejected request_rejection_code

fun seal_outcome_id :: "seal_outcome \<Rightarrow> transaction_seal_id option" where
  "seal_outcome_id (Created i) = Some i"
| "seal_outcome_id (ExistingRetry i) = Some i"
| "seal_outcome_id (Rejected _) = None"

fun is_rejection :: "seal_outcome \<Rightarrow> bool" where
  "is_rejection (Rejected _) = True"
| "is_rejection _ = False"

record seal_request =
  sr_seal_id :: transaction_seal_id
  sr_request :: transaction_request

definition idempotency_scope_of :: "transaction_request \<Rightarrow> idempotency_scope" where
  "idempotency_scope_of r =
     IdempotencyScope (req_tenant r) (req_repository r) (req_principal r) (req_idempotency_key r)"

definition seal ::
  "repository_state \<Rightarrow> seal_request \<Rightarrow> (repository_state \<times> seal_outcome) model_result" where
  "seal s input =
     (let request = sr_request input;
          fields = seal_fields_of request;
          scope = idempotency_scope_of request in
      if req_repository request \<noteq> st_repository s
      then Inl (RepositoryMismatch (st_repository s) (req_repository request))
      else if (case bt_get (st_idempotency_index s) scope of
                 Some bound \<Rightarrow> bound \<noteq> req_canonical_request_digest request
               | None \<Rightarrow> False)
      then Inr (s, Rejected Rej_IdempotencyKeyReuse)
      else if \<not> bt_contains (pol_supported_schemas (st_policy s)) (req_schema request)
      then Inr (s, Rejected Rej_SchemaUnsupported)
      else
        (case bt_get (st_seals s) (req_tx_id request) of
           Some existing \<Rightarrow>
             if sealrec_fields existing = fields
             then Inr (s, ExistingRetry (sealrec_id existing))
             else Inr (s, Rejected Rej_IdempotencyKeyReuse)
         | None \<Rightarrow>
             rbind (bind_transaction (st_identities s) (req_tx_id request)
                     (derivation_inputs fields)) (\<lambda>l.
             rbind (introduce_seal l (sr_seal_id input)) (\<lambda>l'.
             Inr (s\<lparr>st_identities := l',
                    st_seals :=
                      bt_insert (req_tx_id request)
                        \<lparr>sealrec_id = sr_seal_id input, sealrec_fields = fields,
                         sealrec_preparations = 0\<rparr> (st_seals s),
                    st_idempotency_index :=
                      bt_insert scope (req_canonical_request_digest request)
                        (st_idempotency_index s)\<rparr>,
                  Created (sr_seal_id input))))))"

section \<open>Quarantine\<close>

record quarantine_request =
  qr_tx_id :: tx_id
  qr_objects :: "quarantined_object list"

definition stage_objects :: "repository_state \<Rightarrow> quarantine_request \<Rightarrow> repository_state model_result" where
  "stage_objects s input =
     (if \<not> bt_contains (st_seals s) (qr_tx_id input) then Inl (UnknownSeal (qr_tx_id input))
      else
        (let slot = (case bt_get (st_quarantine s) (qr_tx_id input) of
                       Some m \<Rightarrow> m | None \<Rightarrow> bt_empty) in
         Inr (s\<lparr>st_quarantine :=
                  bt_insert (qr_tx_id input)
                    (bt_extend slot (map (\<lambda>q. (q_declared q, q)) (qr_objects input)))
                    (st_quarantine s)\<rparr>)))"

section \<open>Preparation\<close>

record prepare_request =
  pr_capsule_id :: prepared_txn_capsule_id
  pr_request :: transaction_request
  pr_principal_snapshot :: principal_snapshot_id
  pr_profile :: preparation_profile_id
  pr_granularity :: witness_granularity

record evaluation =
  ev_verdict :: prepared_verdict
  ev_intent_map :: "intent_mapping list"
  ev_object_closure :: "git_oid btree_set"

definition refused_before_fold :: "refusal_code \<Rightarrow> evaluation" where
  "refused_before_fold code =
     \<lparr>ev_verdict = Verdict_Refuse code, ev_intent_map = [], ev_object_closure = bt_empty\<rparr>"

definition forced_ref :: "intent \<Rightarrow> ref_name option" where
  "forced_ref i =
     (case i of Intent_Ref (Ref_Update name _ _ True) \<Rightarrow> Some name | _ \<Rightarrow> None)"

definition forced_refs :: "transaction_request \<Rightarrow> ref_name btree_set" where
  "forced_refs request =
     bs_of_list (List.map_filter (\<lambda>(_, i). forced_ref i) (addressed_intents request))"

definition event_named_ref :: "forge_event_kind \<Rightarrow> ref_name option" where
  "event_named_ref e =
     (case e of
        PullRequestOpened _ target \<Rightarrow> Some target
      | PullRequestMerged _ target \<Rightarrow> Some target
      | PullRequestUpdated _ target \<Rightarrow> Some target
      | PullRequestReviewed _ target \<Rightarrow> Some target
      | MergeQueueChanged _ target \<Rightarrow> Some target
      | WorkflowCheckObserved _ source \<Rightarrow> Some source
      | _ \<Rightarrow> None)"

fun named_ref :: "intent \<Rightarrow> ref_name option" where
  "named_ref (Intent_Ref ref_intent) = Some (ref_intent_target ref_intent)"
| "named_ref (Intent_Forge forge) = event_named_ref (forge_event forge)"
| "named_ref (Intent_Retention _) = None"
| "named_ref (Intent_Outbox _) = None"

definition intent_object :: "intent \<Rightarrow> git_oid option" where
  "intent_object i =
     (case i of
        Intent_Ref (Ref_Update _ _ new _) \<Rightarrow> Some new
      | Intent_Retention (AddRoot root) \<Rightarrow> Some (root_object root)
      | _ \<Rightarrow> None)"

definition intent_objects :: "transaction_request \<Rightarrow> git_oid list" where
  "intent_objects request = List.map_filter (\<lambda>(_, i). intent_object i) (addressed_intents request)"

definition available_objects ::
  "repository_state \<Rightarrow> tx_id \<Rightarrow> (git_oid, git_oid list) btree_map" where
  "available_objects s tx =
     (let view = bt_collect (\<lambda>_ _. True) (\<lambda>_ r. obj_parents r) (st_objects s) bt_empty in
      case bt_get (st_quarantine s) tx of
        None \<Rightarrow> view
      | Some staged \<Rightarrow>
          foldl (\<lambda>v object. if is_identity_verified object
                   then bt_insert (q_declared object) (q_parents object) v else v)
            view (bt_values staged))"

definition check_ref_effect ::
  "repository_state \<Rightarrow> transaction_request \<Rightarrow> (git_oid, git_oid list) btree_map \<Rightarrow>
     ref_name \<times> ref_effect \<Rightarrow> refusal_code option" where
  "check_ref_effect s request available ne =
     (case ne of (name, effect) \<Rightarrow>
      let policy = st_policy s;
          capabilities = capabilities_of policy (req_principal request) in
      case scope_of name of
        None \<Rightarrow> Some RefNameInvalid
      | Some scope \<Rightarrow>
          if \<not> may_write_scope capabilities scope then Some CapabilityScopeViolation
          else
            (let protection = (if is_protected policy scope then Some ProtectedRefTransitionDenied
                               else None) in
             case effect of
               Delete_Ref \<Rightarrow> protection
             | Set_Ref new \<Rightarrow>
                 (case bt_get (root_refs (st_roots s)) name of
                    None \<Rightarrow> None
                  | Some old \<Rightarrow>
                      if reachable_in available new old then None
                      else if \<not> bt_contains (forced_refs request) name
                      then Some NonFastForwardRefused
                      else if \<not> cap_may_force capabilities then Some ForceNotPermitted
                      else protection)))"

definition check_event :: "net_effects \<Rightarrow> forge_event_kind \<Rightarrow> refusal_code option" where
  "check_event e event =
     (case required_ref_effect event of
        None \<Rightarrow> None
      | Some required \<Rightarrow>
          (case bt_get (eff_refs e) required of
             Some (Set_Ref _) \<Rightarrow> None
           | Some Delete_Ref \<Rightarrow> Some ConflictingSemanticEffects
           | None \<Rightarrow> Some ForgeTransitionInvalid))"

definition check_retention_effect ::
  "principal_capabilities \<Rightarrow> retention_root \<times> retention_effect \<Rightarrow> refusal_code option" where
  "check_retention_effect capabilities re =
     (case re of
        (root, Add_Root) \<Rightarrow>
          if root_class root = LegalHold \<and> \<not> cap_may_add_legal_hold capabilities
          then Some CapabilityScopeViolation else None
      | (root, Remove_Root) \<Rightarrow>
          if \<not> is_ordinarily_removable (root_class root) then Some RetentionHoldViolation else None)"

definition evaluate_policy ::
  "repository_state \<Rightarrow> transaction_request \<Rightarrow> net_effects \<Rightarrow> (git_oid, git_oid list) btree_map \<Rightarrow>
     refusal_code option" where
  "evaluate_policy s request e available =
     (let capabilities = capabilities_of (st_policy s) (req_principal request) in
      case first_some (check_ref_effect s request available) (bt_entries (eff_refs e)) of
        Some code \<Rightarrow> Some code
      | None \<Rightarrow>
          if \<not> bt_is_empty (eff_forge e) \<and> \<not> cap_may_publish_forge capabilities
          then Some CapabilityScopeViolation
          else
            (case first_some (first_some (check_event e)) (bt_values (eff_forge e)) of
               Some code \<Rightarrow> Some code
             | None \<Rightarrow> first_some (check_retention_effect capabilities) (bt_entries (eff_retention e))))"

definition named_objects :: "transaction_request \<Rightarrow> git_oid list" where
  "named_objects request = bt_keys (req_promised_closure request) @ intent_objects request"

definition evaluate :: "repository_state \<Rightarrow> transaction_request \<Rightarrow> evaluation" where
  "evaluate s request =
     (let policy = st_policy s; available = available_objects s (req_tx_id request) in
      if \<not> bt_contains (pol_supported_schemas policy) (req_schema request)
      then refused_before_fold SchemaUnsupported
      else if intent_count request > pol_max_intents_per_transaction policy
      then refused_before_fold ResourceBudgetExceeded
      else if \<not> offers_durability policy (req_durability request)
      then refused_before_fold DurabilityProfileUnavailable
      else if list_ex (\<lambda>(_, i). case named_ref i of Some name \<Rightarrow> \<not> is_canonical name | None \<Rightarrow> False)
                (addressed_intents request)
      then refused_before_fold RefNameInvalid
      else if list_ex (\<lambda>oid. oid_algorithm oid \<noteq> st_object_format s) (named_objects request)
      then refused_before_fold HashAlgorithmDomainMismatch
      else if (case bt_get (st_quarantine s) (req_tx_id request) of
                 Some staged \<Rightarrow> list_ex (\<lambda>q. \<not> is_identity_verified q) (bt_values staged)
               | None \<Rightarrow> False)
      then refused_before_fold NativeObjectIdMismatch
      else if list_ex (\<lambda>oid. \<not> bt_contains available oid) (named_objects request)
      then refused_before_fold ObjectClosureIncomplete
      else
        (let report = fold_request (basis_of (st_roots s)) request in
         case report_outcome report of
           Aborted code _ \<Rightarrow>
             \<lparr>ev_verdict = Verdict_Refuse code, ev_intent_map = report_mappings report,
              ev_object_closure = bt_empty\<rparr>
         | Folded e \<Rightarrow>
             (case evaluate_policy s request e available of
                Some code \<Rightarrow>
                  \<lparr>ev_verdict = Verdict_Refuse code, ev_intent_map = report_mappings report,
                   ev_object_closure = bt_empty\<rparr>
              | None \<Rightarrow>
                  \<lparr>ev_verdict = Verdict_Commit e, ev_intent_map = report_mappings report,
                   ev_object_closure =
                     bs_extend (req_promised_closure request) (intent_objects request)\<rparr>)))"

definition forge_subject :: "forge_event_kind \<Rightarrow> ref_name option" where
  "forge_subject e =
     (case e of
        WorkflowCheckObserved _ source \<Rightarrow> Some source
      | MergeQueueChanged _ target \<Rightarrow> Some target
      | _ \<Rightarrow> required_ref_effect e)"

definition observe_ref :: "repository_roots \<Rightarrow> ref_name \<Rightarrow> conflict_witness \<Rightarrow> conflict_witness" where
  "observe_ref roots name w =
     w\<lparr>wit_refs := bt_insert name (bt_get (root_refs roots) name) (wit_refs w)\<rparr>"

definition observe_root ::
  "repository_roots \<Rightarrow> retention_root \<Rightarrow> conflict_witness \<Rightarrow> conflict_witness" where
  "observe_root roots root w =
     (if bt_contains (root_retention roots) root
      then w\<lparr>wit_retention_present := bs_insert root (wit_retention_present w)\<rparr>
      else w\<lparr>wit_retention_absent := bs_insert root (wit_retention_absent w)\<rparr>)"

fun observe_intent :: "repository_roots \<Rightarrow> conflict_witness \<Rightarrow> intent \<Rightarrow> conflict_witness" where
  "observe_intent roots w (Intent_Ref ref_intent) =
     observe_ref roots (ref_intent_target ref_intent) w"
| "observe_intent roots w (Intent_Forge forge) =
     (let stream = forge_stream forge;
          w' = w\<lparr>wit_forge_positions :=
                  bt_insert stream (position_of (root_forge_positions roots) stream)
                    (wit_forge_positions w)\<rparr> in
      case forge_subject (forge_event forge) of
        Some target \<Rightarrow> observe_ref roots target w'
      | None \<Rightarrow> w')"
| "observe_intent roots w (Intent_Retention (AddRoot root)) = observe_root roots root w"
| "observe_intent roots w (Intent_Retention (RemoveRoot root)) = observe_root roots root w"
| "observe_intent roots w (Intent_Outbox delivery) =
     w\<lparr>wit_outbox :=
        bt_insert (outbox_delivery_key delivery)
          (bt_get (root_outbox roots) (outbox_delivery_key delivery)) (wit_outbox w)\<rparr>"

definition build_witness ::
  "repository_state \<Rightarrow> transaction_request \<Rightarrow> witness_granularity \<Rightarrow> conflict_witness" where
  "build_witness s request granularity =
     foldl (\<lambda>w (_, i). observe_intent (st_roots s) w i)
       \<lparr>wit_granularity = granularity, wit_basis_generation = body_generation (st_body s),
        wit_refs = bt_empty, wit_forge_positions = bt_empty, wit_retention_present = bt_empty,
        wit_retention_absent = bt_empty, wit_outbox = bt_empty,
        wit_policy_epoch = pol_epoch (st_policy s)\<rparr>
       (addressed_intents request)"

definition charge_preparation ::
  "tx_id \<Rightarrow> (tx_id, seal_record) btree_map \<Rightarrow> (tx_id, seal_record) btree_map" where
  "charge_preparation tx seals =
     (case bt_get seals tx of
        Some r \<Rightarrow>
          bt_insert tx (r\<lparr>sealrec_preparations := saturating_succ (sealrec_preparations r)\<rparr>) seals
      | None \<Rightarrow> seals)"

definition prepare ::
  "repository_state \<Rightarrow> prepare_request \<Rightarrow>
     (repository_state \<times> prepared_txn_capsule_id) model_result" where
  "prepare s input =
     (let request = pr_request input in
      case bt_get (st_seals s) (req_tx_id request) of
        None \<Rightarrow> Inl (UnknownSeal (req_tx_id request))
      | Some seal_rec \<Rightarrow>
          if sealrec_fields seal_rec \<noteq> seal_fields_of request
          then Inl (TxIdInputsInconsistent (req_tx_id request))
          else
            (let ev = evaluate s request;
                 capsule =
                   \<lparr>caps_id = pr_capsule_id input, caps_tx_id = req_tx_id request,
                    caps_seal_id = sealrec_id seal_rec, caps_basis_head = head_id (st_head s),
                    caps_basis_generation = body_generation (st_body s),
                    caps_basis_rcr = body_latest_committed_rcr (st_body s),
                    caps_principal_snapshot = pr_principal_snapshot input,
                    caps_canonical_request_digest = req_canonical_request_digest request,
                    caps_intent_map = ev_intent_map ev, caps_object_closure = ev_object_closure ev,
                    caps_witness = build_witness s request (pr_granularity input),
                    caps_verdict = ev_verdict ev, caps_durability = req_durability request,
                    caps_profile = pr_profile input\<rparr> in
             rbind (introduce_capsule (st_identities s) (pr_capsule_id input)) (\<lambda>l.
             Inr (s\<lparr>st_identities := l,
                    st_capsules := bt_insert (pr_capsule_id input) capsule (st_capsules s),
                    st_seals := charge_preparation (req_tx_id request) (st_seals s)\<rparr>,
                  pr_capsule_id input))))"

section \<open>Deciding a capsule\<close>

definition REPREPARATION_BUDGET :: u32 where
  "REPREPARATION_BUDGET = 4"

datatype repreparation_reason = BasisSuperseded | Reason_PolicyEpochSuperseded

fun reason_code_point :: "repreparation_reason \<Rightarrow> u16" where
  "reason_code_point BasisSuperseded = 1"
| "reason_code_point Reason_PolicyEpochSuperseded = 2"

definition reason_from_code_point :: "u16 \<Rightarrow> repreparation_reason option" where
  "reason_from_code_point point =
     (if point = 1 then Some BasisSuperseded
      else if point = 2 then Some Reason_PolicyEpochSuperseded
      else None)"

datatype decision_verdict =
    AlreadyTerminal decision_outcome
  | Decide_Commit net_effects
  | Decide_Refuse refusal_code
  | RequiresRepreparation repreparation_reason

definition decide_against ::
  "repository_state \<Rightarrow> prepared_txn_capsule \<Rightarrow> repository_roots \<Rightarrow> head_generation \<Rightarrow>
     decision_verdict" where
  "decide_against s capsule roots generation =
     (case outcome_of s (caps_tx_id capsule) of
        Some existing \<Rightarrow> AlreadyTerminal existing
      | None \<Rightarrow>
          (case caps_verdict capsule of
             Verdict_Refuse code \<Rightarrow> Decide_Refuse code
           | Verdict_Commit e \<Rightarrow>
               (let epoch = pol_epoch (st_policy s);
                    exhausted = REPREPARATION_BUDGET \<le> preparations_of s (caps_tx_id capsule) in
                if wit_policy_epoch (caps_witness capsule) \<noteq> epoch
                then if exhausted then Decide_Refuse PolicyEpochSuperseded
                     else RequiresRepreparation Reason_PolicyEpochSuperseded
                else if witness_reusable (caps_witness capsule) roots generation epoch
                then Decide_Commit e
                else if exhausted then Decide_Refuse BasisCapsuleNotReusable
                else RequiresRepreparation BasisSuperseded)))"

definition decide :: "repository_state \<Rightarrow> prepared_txn_capsule \<Rightarrow> decision_verdict" where
  "decide s capsule = decide_against s capsule (st_roots s) (body_generation (st_body s))"

section \<open>Staging a batch\<close>

record decision_body_identity =
  dbi_commit :: repository_commit_id
  dbi_refusal_record :: refusal_record_id

record stage_request =
  sg_batch_id :: repository_decision_batch_id
  sg_candidate_head_id :: repository_authority_head_id
  sg_capsules :: "prepared_txn_capsule_id list"
  sg_bodies :: "(tx_id, decision_body_identity) btree_map"
  sg_durability_satisfied :: bool

record stage_outcome =
  so_batch :: "repository_decision_batch_id option"
  so_deferred :: "(tx_id \<times> repreparation_reason) list"

definition strictest_durability :: "prepared_txn_capsule list \<Rightarrow> durability_profile" where
  "strictest_durability capsules =
     (if list_ex (\<lambda>c. requires_durability_before_visibility (caps_durability c)) capsules
      then CanonicalSource else DerivedGeneration)"

definition select_capsule ::
  "repository_state \<Rightarrow> prepared_txn_capsule list \<Rightarrow> prepared_txn_capsule_id \<Rightarrow>
     prepared_txn_capsule list model_result" where
  "select_capsule s selected i =
     (case bt_get (st_capsules s) i of
        None \<Rightarrow> Inl (UnknownCapsule i)
      | Some capsule \<Rightarrow> Inr (selected @ [capsule]))"

record stage_acc =
  sa_draft :: decision_batch_draft
  sa_scratch :: repository_roots
  sa_committed :: "tx_id list"
  sa_deferred :: "(tx_id \<times> repreparation_reason) list"

definition index_outcome :: "tx_id \<Rightarrow> decision_outcome \<Rightarrow> repository_roots \<Rightarrow> repository_roots" where
  "index_outcome tx outcome roots =
     roots\<lparr>root_outcome_index := bt_insert tx outcome (root_outcome_index roots)\<rparr>"

definition candidate_of ::
  "repository_state \<Rightarrow> prepared_txn_capsule \<Rightarrow> decision_body_identity \<Rightarrow> net_effects \<Rightarrow>
     repository_roots \<Rightarrow> commit_candidate" where
  "candidate_of s capsule bodies e scratch =
     \<lparr>cand_id = dbi_commit bodies, cand_repository = st_repository s,
      cand_tx_id = caps_tx_id capsule, cand_principal_snapshot = caps_principal_snapshot capsule,
      cand_canonical_request_digest = caps_canonical_request_digest capsule, cand_effects = e,
      cand_resulting_refs = root_refs scratch,
      cand_resulting_forge_positions = root_forge_positions scratch,
      cand_object_closure = caps_object_closure capsule,
      cand_policy_epoch = wit_policy_epoch (caps_witness capsule),
      cand_retention_delta = eff_retention e, cand_outbox_delta = eff_outbox e\<rparr>"

definition stage_capsule ::
  "repository_state \<Rightarrow> (tx_id, decision_body_identity) btree_map \<Rightarrow> stage_acc \<Rightarrow>
     prepared_txn_capsule \<Rightarrow> stage_acc model_result" where
  "stage_capsule s bodies_map acc capsule =
     (let tx = caps_tx_id capsule in
      case outcome_of s tx of
        Some existing \<Rightarrow> Inl (SecondTerminalDecision tx existing)
      | None \<Rightarrow>
          (case bt_get bodies_map tx of
             None \<Rightarrow> Inl (UnknownSeal tx)
           | Some bodies \<Rightarrow>
               (case decide_against s capsule (sa_scratch acc) (body_generation (st_body s)) of
                  AlreadyTerminal existing \<Rightarrow> Inl (SecondTerminalDecision tx existing)
                | RequiresRepreparation reason \<Rightarrow>
                    Inr (acc\<lparr>sa_deferred := sa_deferred acc @ [(tx, reason)]\<rparr>)
                | Decide_Refuse code \<Rightarrow>
                    (let outcome = Refused code (dbi_refusal_record bodies) in
                     rbind (push_refusal (sa_draft acc) tx outcome) (\<lambda>(d, _).
                     Inr (acc\<lparr>sa_draft := d,
                              sa_scratch := index_outcome tx outcome (sa_scratch acc)\<rparr>)))
                | Decide_Commit e \<Rightarrow>
                    rbind (apply_effects (sa_scratch acc) e) (\<lambda>scratch.
                    rbind (push_commit (sa_draft acc) (candidate_of s capsule bodies e scratch))
                      (\<lambda>(d, _).
                    Inr (acc\<lparr>sa_draft := d,
                             sa_scratch :=
                               index_outcome tx (Committed (dbi_commit bodies)) scratch,
                             sa_committed := sa_committed acc @ [tx]\<rparr>))))))"

definition build_candidate_head ::
  "authority_head \<Rightarrow> decision_batch \<Rightarrow> repository_authority_head_id \<Rightarrow>
     authority_head model_result" where
  "build_candidate_head head batch i =
     (let body = head_body head in
      case (case last_commit batch of
              Some (commit, sequence) \<Rightarrow> (Some commit, Some sequence)
            | None \<Rightarrow> (body_latest_committed_rcr body, body_latest_repository_sequence body)) of
        (latest_committed_rcr, latest_repository_sequence) \<Rightarrow>
          rbind (next_generation body) (\<lambda>generation.
          Inr \<lparr>head_id = i, head_body =
            \<lparr>body_repository = body_repository body, body_generation = generation,
             body_predecessor = Some (head_id head), body_decision_tail = Some (batch_id batch),
             body_latest_decision_sequence =
               (case last_decision_sequence batch of
                  Some d \<Rightarrow> Some d
                | None \<Rightarrow> body_latest_decision_sequence body),
             body_latest_committed_rcr = latest_committed_rcr,
             body_latest_repository_sequence = latest_repository_sequence,
             body_roots = batch_resulting batch, body_configuration = body_configuration body,
             body_format_registry_epoch = body_format_registry_epoch body\<rparr>\<rparr>))"

definition introduce_commit_of ::
  "(tx_id, decision_body_identity) btree_map \<Rightarrow> identity_ledger \<Rightarrow> tx_id \<Rightarrow>
     identity_ledger model_result" where
  "introduce_commit_of bodies_map l tx =
     (case bt_get bodies_map tx of
        Some bodies \<Rightarrow> introduce_commit l (dbi_commit bodies)
      | None \<Rightarrow> Inr l)"

definition stage ::
  "repository_state \<Rightarrow> stage_request \<Rightarrow> (repository_state \<times> stage_outcome) model_result" where
  "stage s input =
     rbind (try_fold (select_capsule s) [] (sg_capsules input)) (\<lambda>unsorted.
     let selected = sort_key caps_tx_id unsorted; head = st_head s; body = head_body head in
     rbind (next_decision_sequence body) (\<lambda>first_decision.
     rbind (next_repository_sequence body) (\<lambda>first_repository.
     rbind (try_fold (stage_capsule s (sg_bodies input))
             \<lparr>sa_draft =
                draft_open (sg_batch_id input) (st_repository s) (head_id head)
                  (body_generation body) first_decision first_repository
                  (body_latest_committed_rcr body) (strictest_durability selected),
              sa_scratch = body_roots body, sa_committed = [], sa_deferred = []\<rparr>
             selected) (\<lambda>acc.
     if draft_is_empty (sa_draft acc)
     then Inr (s, \<lparr>so_batch = None, so_deferred = sa_deferred acc\<rparr>)
     else
       rbind (draft_finish (sa_draft acc) (sa_scratch acc)
               (pol_epoch (body_configuration body))) (\<lambda>batch.
       rbind (build_candidate_head head batch (sg_candidate_head_id input)) (\<lambda>candidate.
       rbind (introduce_batch (st_identities s) (sg_batch_id input)) (\<lambda>l1.
       rbind (introduce_head l1 (sg_candidate_head_id input)) (\<lambda>l2.
       rbind (try_fold (introduce_commit_of (sg_bodies input)) l2 (sa_committed acc)) (\<lambda>l3.
       Inr (s\<lparr>st_identities := l3,
              st_staged :=
                bt_insert (sg_batch_id input)
                  \<lparr>stg_batch = batch, stg_candidate_head = candidate,
                   stg_durability_satisfied = sg_durability_satisfied input\<rparr> (st_staged s)\<rparr>,
            \<lparr>so_batch = Some (sg_batch_id input), so_deferred = sa_deferred acc\<rparr>))))))))))"

section \<open>Configuration transitions\<close>

record configuration_request =
  cr_candidate_head_id :: repository_authority_head_id
  cr_expected_head :: repository_authority_head_id
  cr_expected_generation :: head_generation
  cr_policy :: policy_snapshot

datatype configuration_outcome =
    Config_Won repository_authority_head_id policy_epoch
  | Config_Lost repository_authority_head_id head_generation

definition publish_configuration ::
  "repository_state \<Rightarrow> configuration_request \<Rightarrow>
     (repository_state \<times> configuration_outcome) model_result" where
  "publish_configuration s input =
     (let head = st_head s; body = head_body head in
      if cr_expected_head input \<noteq> head_id head \<or>
         cr_expected_generation input \<noteq> body_generation body
      then Inr (s, Config_Lost (head_id head) (body_generation body))
      else
        rbind (map_err (\<lambda>_. SequenceExhausted ''policy'')
                (counter_next ''PolicyEpoch'' (pol_epoch (body_configuration body))))
          (\<lambda>required.
        if pol_epoch (cr_policy input) \<noteq> required
        then Inl (PolicyEpochNotSuccessor (pol_epoch (body_configuration body))
                    (pol_epoch (cr_policy input)))
        else
          rbind (next_generation body) (\<lambda>generation.
          let candidate =
                \<lparr>head_id = cr_candidate_head_id input,
                 head_body =
                   body\<lparr>body_generation := generation, body_predecessor := Some (head_id head),
                        body_configuration := cr_policy input\<rparr>\<rparr> in
          rbind (introduce_head (st_identities s) (cr_candidate_head_id input)) (\<lambda>l.
          Inr (s\<lparr>st_identities := l,
                 st_head_chain :=
                   bt_insert (cr_candidate_head_id input) (head_body candidate) (st_head_chain s),
                 st_head := candidate\<rparr>,
               Config_Won (cr_candidate_head_id input) (pol_epoch (cr_policy input)))))))"

section \<open>The head compare-and-swap\<close>

datatype cas_outcome =
    Won repository_authority_head_id repository_decision_batch_id
  | Lost repository_authority_head_id head_generation
  | DurabilityUnsatisfied repository_decision_batch_id

record cas_request =
  cas_expected_head :: repository_authority_head_id
  cas_expected_generation :: head_generation
  cas_batch :: repository_decision_batch_id

definition promote_object ::
  "(git_oid, quarantined_object) btree_map \<Rightarrow> (git_oid, object_record) btree_map \<Rightarrow> git_oid \<Rightarrow>
     (git_oid, object_record) btree_map" where
  "promote_object staged objects oid =
     (case bt_get staged oid of
        Some object \<Rightarrow>
          if is_identity_verified object
          then bt_insert oid \<lparr>obj_parents = q_parents object\<rparr> objects
          else objects
      | None \<Rightarrow> objects)"

definition promote_closure ::
  "repository_state \<Rightarrow> tx_id \<Rightarrow> git_oid btree_set \<Rightarrow> repository_state" where
  "promote_closure s tx closure =
     (case bt_get (st_quarantine s) tx of
        None \<Rightarrow> s
      | Some staged \<Rightarrow>
          s\<lparr>st_objects := foldl (promote_object staged) (st_objects s) (bt_keys closure)\<rparr>)"

definition retire_transaction :: "repository_state \<Rightarrow> tx_id \<Rightarrow> repository_state" where
  "retire_transaction s tx =
     s\<lparr>st_quarantine := bt_remove tx (st_quarantine s),
       st_capsules := bt_retain (\<lambda>_ c. caps_tx_id c \<noteq> tx) (st_capsules s)\<rparr>"

definition install_batch ::
  "repository_state \<Rightarrow> repository_decision_batch_id \<Rightarrow> staged_batch \<Rightarrow> repository_state" where
  "install_batch s requested sb =
     (let batch = stg_batch sb;
          candidate = stg_candidate_head sb;
          s1 = s\<lparr>st_staged := bt_remove requested (st_staged s),
                 st_head_chain := bt_insert (head_id candidate) (head_body candidate) (st_head_chain s),
                 st_head := candidate,
                 st_decisions := st_decisions s @ batch_decisions batch,
                 st_commits := st_commits s @ batch_committed batch\<rparr>;
          s2 = foldl (\<lambda>t r. promote_closure t (rcr_tx_id r) (rcr_object_closure r)) s1
                 (batch_committed batch);
          s3 = foldl retire_transaction s2 (terminated_transactions batch) in
      s3\<lparr>st_batches := bt_insert (batch_id batch) batch (st_batches s3)\<rparr>)"

definition cas_checks :: "repository_state \<Rightarrow> staged_batch \<Rightarrow> unit model_result" where
  "cas_checks s sb =
     (let head = st_head s; body = head_body head; candidate = head_body (stg_candidate_head sb) in
      if body_predecessor candidate \<noteq> Some (head_id head)
      then Inl (HeadPredecessorMismatch (head_id head) (body_predecessor candidate))
      else
        rbind (next_generation body) (\<lambda>expected_generation.
        if body_generation candidate \<noteq> expected_generation
        then Inl (HeadGenerationNotSuccessor (body_generation body) (body_generation candidate))
        else
          rbind (next_decision_sequence body) (\<lambda>expected_decision.
          if batch_first_decision_sequence (stg_batch sb) \<noteq> expected_decision
          then Inl (DecisionSequenceDiscontinuity expected_decision
                      (batch_first_decision_sequence (stg_batch sb)))
          else
            (case batch_committed (stg_batch sb) of
               [] \<Rightarrow> Inr ()
             | first # _ \<Rightarrow>
                 rbind (next_repository_sequence body) (\<lambda>expected_repository.
                 if rcr_repository_sequence first \<noteq> expected_repository
                 then Inl (RepositorySequenceDiscontinuity expected_repository
                             (rcr_repository_sequence first))
                 else Inr ())))))"

definition compare_and_swap ::
  "repository_state \<Rightarrow> cas_request \<Rightarrow> (repository_state \<times> cas_outcome) model_result" where
  "compare_and_swap s input =
     (case bt_get (st_staged s) (cas_batch input) of
        None \<Rightarrow> Inl (UnstagedBatch (cas_batch input))
      | Some sb \<Rightarrow>
          if cas_expected_head input \<noteq> head_id (st_head s) \<or>
             cas_expected_generation input \<noteq> body_generation (st_body s)
          then Inr (s, Lost (head_id (st_head s)) (body_generation (st_body s)))
          else
            rbind (cas_checks s sb) (\<lambda>_.
            if \<not> may_become_visible sb then Inr (s, DurabilityUnsatisfied (cas_batch input))
            else Inr (install_batch s (cas_batch input) sb,
                      Won (head_id (stg_candidate_head sb)) (batch_id (stg_batch sb)))))"

section \<open>What a transition leaves alone\<close>

text \<open>
  The canonical part of the state: the head, its chain, the staged batches, the published history
  and the identities of heads, batches and commits. Sealing, quarantine, preparation, deciding and
  cancellation never touch it.
\<close>

definition same_canonical :: "repository_state \<Rightarrow> repository_state \<Rightarrow> bool" where
  "same_canonical s t \<longleftrightarrow>
     st_head t = st_head s \<and> st_head_chain t = st_head_chain s \<and> st_staged t = st_staged s \<and>
     st_decisions t = st_decisions s \<and> st_commits t = st_commits s \<and>
     st_batches t = st_batches s \<and> st_repository t = st_repository s \<and>
     st_object_format t = st_object_format s \<and> st_objects t = st_objects s \<and>
     led_heads (st_identities t) = led_heads (st_identities s) \<and>
     led_batches (st_identities t) = led_batches (st_identities s) \<and>
     led_commits (st_identities t) = led_commits (st_identities s)"

lemma same_canonical_refl [simp]: "same_canonical s s"
  by (simp add: same_canonical_def)

lemma seal_same_canonical: "seal s input = Inr (t, outcome) \<Longrightarrow> same_canonical s t"
  by (auto simp: seal_def Let_def same_canonical_def introduces_def introduce_Inr_iff
      split: if_splits option.splits dest!: bind_transaction_Inr(1))

lemma stage_objects_same_canonical: "stage_objects s input = Inr t \<Longrightarrow> same_canonical s t"
  by (auto simp: stage_objects_def Let_def same_canonical_def split: if_splits)

lemma prepare_same_canonical: "prepare s input = Inr (t, i) \<Longrightarrow> same_canonical s t"
  by (auto simp: prepare_def Let_def same_canonical_def introduces_def introduce_Inr_iff
      split: if_splits option.splits)

section \<open>Replaying committed records\<close>

text \<open>
  The roots without the outcome index, which decisions write and effects do not, and the
  sequential application of a list of committed records to them.
\<close>

definition content :: "repository_roots \<Rightarrow> repository_roots" where
  "content r = r\<lparr>root_outcome_index := bt_empty\<rparr>"

definition replay ::
  "repository_roots \<Rightarrow> repository_commit_record list \<Rightarrow> repository_roots model_result" where
  "replay roots rs = try_fold apply_effects roots (map rcr_effects rs)"

lemma apply_effects_content:
  "apply_effects r e = Inr r' \<Longrightarrow> apply_effects (content r) e = Inr (content r')"
  by (auto simp: apply_effects_def content_def)

lemma replay_append: "replay r (rs @ qs) = rbind (replay r rs) (\<lambda>r'. replay r' qs)"
  by (simp add: replay_def try_fold_append)

lemma content_index_outcome [simp]: "content (index_outcome tx outcome r) = content r"
  by (simp add: content_def index_outcome_def)

section \<open>What staging produces\<close>

definition outcome_entry :: "published_decision \<Rightarrow> tx_id \<times> decision_outcome" where
  "outcome_entry d = (dec_tx_id d, dec_outcome d)"

text \<open>A committed record is the capsule of its transaction, decided at this head.\<close>

definition record_from :: "repository_state \<Rightarrow> prepared_txn_capsule \<Rightarrow> repository_commit_record \<Rightarrow> bool" where
  "record_from s c r \<longleftrightarrow>
     rcr_tx_id r = caps_tx_id c \<and> caps_verdict c = Verdict_Commit (rcr_effects r) \<and>
     rcr_canonical_request_digest r = caps_canonical_request_digest c \<and>
     rcr_principal_snapshot r = caps_principal_snapshot c \<and>
     rcr_object_closure r = caps_object_closure c \<and>
     rcr_repository r = st_repository s \<and>
     rcr_policy_epoch r = pol_epoch (st_policy s) \<and>
     wit_policy_epoch (caps_witness c) = pol_epoch (st_policy s) \<and>
     rcr_retention_delta r = eff_retention (rcr_effects r) \<and>
     rcr_outbox_delta r = eff_outbox (rcr_effects r)"

text \<open>
  The records of a batch in order: each comes from a capsule whose recorded reads hold of the
  roots its predecessors left, and states the references and stream positions it results in.
\<close>

fun decided_from ::
  "repository_state \<Rightarrow> prepared_txn_capsule set \<Rightarrow> repository_roots \<Rightarrow>
     repository_commit_record list \<Rightarrow> bool" where
  "decided_from s caps roots [] \<longleftrightarrow> True"
| "decided_from s caps roots (r # rs) \<longleftrightarrow>
     (\<exists>c \<in> caps. \<exists>roots'.
        record_from s c r \<and> refined_reads_hold (caps_witness c) roots \<and>
        apply_effects roots (rcr_effects r) = Inr roots' \<and>
        rcr_resulting_refs r = root_refs roots' \<and>
        rcr_resulting_forge_positions r = root_forge_positions roots' \<and>
        decided_from s caps roots' rs)"

lemma refined_reads_hold_content [simp]:
  "refined_reads_hold w (content roots) \<longleftrightarrow> refined_reads_hold w roots"
  by (simp add: refined_reads_hold_def content_def)

lemma basis_of_content [simp]: "basis_of (content roots) = basis_of roots"
  by (simp add: basis_of_def content_def)

lemma decided_from_snoc:
  assumes "decided_from s caps roots rs" "replay roots rs = Inr roots1" "c \<in> caps" "record_from s c r"
    and "refined_reads_hold (caps_witness c) roots1" "apply_effects roots1 (rcr_effects r) = Inr roots2"
    and "rcr_resulting_refs r = root_refs roots2"
    and "rcr_resulting_forge_positions r = root_forge_positions roots2"
  shows "decided_from s caps roots (rs @ [r])"
  using assms(1,2)
proof (induction rs arbitrary: roots)
  case Nil
  with assms(3-) show ?case
    by (auto simp: replay_def)
next
  case (Cons q rs)
  from Cons.prems(1) obtain c' roots' where
    q: "c' \<in> caps" "record_from s c' q" "refined_reads_hold (caps_witness c') roots"
      "apply_effects roots (rcr_effects q) = Inr roots'" "rcr_resulting_refs q = root_refs roots'"
      "rcr_resulting_forge_positions q = root_forge_positions roots'" "decided_from s caps roots' rs"
    by auto
  with Cons.prems(2) have "replay roots' rs = Inr roots1"
    by (simp add: replay_def)
  from Cons.IH [OF q(7) this] q show ?case
    by auto
qed

text \<open>A refusal in a batch is the verdict of a capsule or the end of its retry budget.\<close>

definition refusal_from :: "prepared_txn_capsule \<Rightarrow> published_decision \<Rightarrow> bool" where
  "refusal_from c d \<longleftrightarrow>
     dec_tx_id d = caps_tx_id c \<and>
     (\<exists>code i. dec_outcome d = Refused code i \<and>
        (caps_verdict c = Verdict_Refuse code \<or>
         code \<in> {PolicyEpochSuperseded, BasisCapsuleNotReusable}))"

definition stage_wf ::
  "repository_state \<Rightarrow> (tx_id, decision_body_identity) btree_map \<Rightarrow> prepared_txn_capsule set \<Rightarrow> decision_batch_draft \<Rightarrow> stage_acc \<Rightarrow> bool" where
  "stage_wf s bodies_map caps opened acc \<longleftrightarrow>
     draft_wf (cnt (draft_next_repository_sequence opened)) (draft_parent_commit opened)
       (sa_draft acc) \<and>
     draft_id (sa_draft acc) = draft_id opened \<and>
     draft_repository (sa_draft acc) = draft_repository opened \<and>
     draft_predecessor_head (sa_draft acc) = draft_predecessor_head opened \<and>
     draft_predecessor_generation (sa_draft acc) = draft_predecessor_generation opened \<and>
     draft_first_decision_sequence (sa_draft acc) = draft_first_decision_sequence opened \<and>
     draft_durability (sa_draft acc) = draft_durability opened \<and>
     root_outcome_index (sa_scratch acc)
       = bt_extend (root_outcome_index (st_roots s))
           (map outcome_entry (draft_decisions (sa_draft acc))) \<and>
     replay (content (st_roots s)) (draft_committed (sa_draft acc))
       = Inr (content (sa_scratch acc)) \<and>
     (\<forall>d \<in> set (draft_decisions (sa_draft acc)). outcome_of s (dec_tx_id d) = None) \<and>
     sa_committed acc = map rcr_tx_id (draft_committed (sa_draft acc)) \<and>
     decided_from s caps (content (st_roots s)) (draft_committed (sa_draft acc)) \<and>
     (\<forall>r \<in> set (draft_committed (sa_draft acc)).
        (\<exists>c \<in> caps. record_from s c r) \<and>
        (\<exists>b. bt_get bodies_map (rcr_tx_id r) = Some b \<and> rcr_id r = dbi_commit b)) \<and>
     (\<forall>d \<in> set (draft_decisions (sa_draft acc)).
        decision_is_committed d \<or> (\<exists>c \<in> caps. refusal_from c d))"

lemma decide_against_Commit:
  assumes "decide_against s capsule roots g = Decide_Commit e"
  shows "caps_verdict capsule = Verdict_Commit e" "outcome_of s (caps_tx_id capsule) = None"
    "wit_policy_epoch (caps_witness capsule) = pol_epoch (st_policy s)"
    "witness_reusable (caps_witness capsule) roots g (pol_epoch (st_policy s))"
  using assms
  by (auto simp: decide_against_def Let_def split: option.splits prepared_verdict.splits if_splits)

lemma decide_against_Refuse:
  assumes "decide_against s capsule roots g = Decide_Refuse code"
  shows "caps_verdict capsule = Verdict_Refuse code \<or>
      code \<in> {PolicyEpochSuperseded, BasisCapsuleNotReusable}"
  using assms
  by (auto simp: decide_against_def Let_def split: option.splits prepared_verdict.splits if_splits)

lemma stage_capsule_wf:
  assumes step: "stage_capsule s bodies_map acc c = Inr acc'"
    and wf: "stage_wf s bodies_map caps opened acc" and c: "c \<in> caps"
  shows "stage_wf s bodies_map caps opened acc'"
proof -
  let ?tx = "caps_tx_id c"
  from step obtain bodies where
    fresh: "outcome_of s ?tx = None" and
    bodies: "bt_get bodies_map ?tx = Some bodies"
    by (auto simp: stage_capsule_def Let_def split: option.splits)
  show ?thesis
  proof (cases "decide_against s c (sa_scratch acc) (body_generation (st_body s))")
    case (AlreadyTerminal existing)
    with step fresh bodies show ?thesis
      by (simp add: stage_capsule_def)
  next
    case (RequiresRepreparation reason)
    with step fresh bodies wf show ?thesis
      by (auto simp: stage_capsule_def stage_wf_def)
  next
    case (Decide_Refuse code)
    let ?outcome = "Refused code (dbi_refusal_record bodies)"
    from step fresh bodies Decide_Refuse obtain d a where
      push: "push_refusal (sa_draft acc) ?tx ?outcome = Inr (d, a)" and
      acc': "acc' = acc\<lparr>sa_draft := d, sa_scratch := index_outcome ?tx ?outcome (sa_scratch acc)\<rparr>"
      by (auto simp: stage_capsule_def Let_def)
    from push_refusal_wf [OF push] wf have "draft_wf (cnt (draft_next_repository_sequence opened))
        (draft_parent_commit opened) d"
      by (simp add: stage_wf_def)
    moreover note decide_against_Refuse [OF Decide_Refuse]
    ultimately show ?thesis
      using push wf fresh c unfolding acc'
      by (elim push_refusal_Inr)
        (auto simp: stage_wf_def index_outcome_def bt_extend_def outcome_entry_def refusal_from_def
          content_def decision_is_committed_def)
  next
    case (Decide_Commit e)
    note facts = decide_against_Commit [OF Decide_Commit]
    from step fresh bodies Decide_Commit obtain scratch d a where
      app: "apply_effects (sa_scratch acc) e = Inr scratch" and
      push: "push_commit (sa_draft acc) (candidate_of s c bodies e scratch) = Inr (d, a)" and
      acc': "acc' = acc\<lparr>sa_draft := d,
         sa_scratch := index_outcome ?tx (Committed (dbi_commit bodies)) scratch,
         sa_committed := sa_committed acc @ [?tx]\<rparr>"
      by (auto simp: stage_capsule_def Let_def)
    from push_commit_wf [OF push] wf have "draft_wf (cnt (draft_next_repository_sequence opened))
        (draft_parent_commit opened) d"
      by (simp add: stage_wf_def)
    moreover note apply_effects_content [OF app] apply_effects_outcomes [OF app]
    moreover have "decided_from s caps (content (st_roots s)) (draft_committed d)"
      using push
    proof (rule push_commit_Inr)
      fix n m
      let ?r = "record_of (candidate_of s c bodies e scratch)
          (draft_next_repository_sequence (sa_draft acc)) (draft_parent_commit (sa_draft acc))"
      assume d: "d = (sa_draft acc)\<lparr>
          draft_seen := bs_insert (cand_tx_id (candidate_of s c bodies e scratch)) (draft_seen (sa_draft acc)),
          draft_next_decision_sequence := n, draft_next_repository_sequence := m,
          draft_parent_commit := Some (cand_id (candidate_of s c bodies e scratch)),
          draft_decisions := draft_decisions (sa_draft acc) @
            [\<lparr>dec_tx_id = cand_tx_id (candidate_of s c bodies e scratch),
              dec_sequence = draft_next_decision_sequence (sa_draft acc),
              dec_outcome = Committed (cand_id (candidate_of s c bodies e scratch))\<rparr>],
          draft_committed := draft_committed (sa_draft acc) @ [?r]\<rparr>"
      have "decided_from s caps (content (st_roots s)) (draft_committed (sa_draft acc) @ [?r])"
      proof (rule decided_from_snoc)
        show "decided_from s caps (content (st_roots s)) (draft_committed (sa_draft acc))"
            "replay (content (st_roots s)) (draft_committed (sa_draft acc)) = Inr (content (sa_scratch acc))"
          using wf by (simp_all add: stage_wf_def)
        show "apply_effects (content (sa_scratch acc)) (rcr_effects ?r) = Inr (content scratch)"
          using apply_effects_content [OF app] by (simp add: record_of_def candidate_of_def)
        show "refined_reads_hold (caps_witness c) (content (sa_scratch acc))"
          using facts(4) by (auto simp: witness_reusable_def split: if_splits witness_granularity.splits)
      qed (use c facts in \<open>simp_all add: record_from_def record_of_def candidate_of_def content_def\<close>)
      then show ?thesis
        by (simp add: d)
    qed
    ultimately show ?thesis
      using push wf fresh c facts bodies unfolding acc'
      by (elim push_commit_Inr)
        (auto simp: stage_wf_def index_outcome_def bt_extend_def outcome_entry_def record_from_def
          content_def decision_is_committed_def candidate_of_def record_of_def try_fold_append
          replay_def intro!: bexI [of _ c])
  qed
qed


lemma stage_loop_wf:
  assumes "try_fold (stage_capsule s bodies_map)
      \<lparr>sa_draft = opened, sa_scratch = st_roots s, sa_committed = [], sa_deferred = []\<rparr> selected = Inr acc"
    and "opened = draft_open i repo h g fd fr p dur" "set selected \<subseteq> caps"
  shows "stage_wf s bodies_map caps opened acc"
  using assms(1)
proof (rule try_fold_invariant)
  show "stage_wf s bodies_map caps opened
      \<lparr>sa_draft = opened, sa_scratch = st_roots s, sa_committed = [], sa_deferred = []\<rparr>"
    using draft_wf_open [of fr p i repo h g fd dur] assms(2)
    by (simp add: stage_wf_def draft_open_def replay_def)
next
  fix acc x acc'
  assume "stage_wf s bodies_map caps opened acc" "x \<in> set selected" "stage_capsule s bodies_map acc x = Inr acc'"
  then show "stage_wf s bodies_map caps opened acc'"
    using assms(3) by (auto intro: stage_capsule_wf)
qed

text \<open>
  How a staged batch fits the head it was staged against. The predicate speaks about the head
  only, so it survives every step that does not replace the head.
\<close>

definition fits :: "authority_head \<Rightarrow> staged_batch \<Rightarrow> bool" where
  "fits head sb \<longleftrightarrow>
     (let b = stg_batch sb; body = head_body head in
      build_candidate_head head b (head_id (stg_candidate_head sb)) = Inr (stg_candidate_head sb) \<and>
      batch_predecessor_head b = head_id head \<and>
      batch_predecessor_generation b = body_generation body \<and>
      batch_decisions b \<noteq> [] \<and>
      next_decision_sequence body = Inr (batch_first_decision_sequence b) \<and>
      map (cnt \<circ> dec_sequence) (batch_decisions b)
        = [cnt (batch_first_decision_sequence b)..<
             cnt (batch_first_decision_sequence b) + length (batch_decisions b)] \<and>
      cnt (batch_first_decision_sequence b) + length (batch_decisions b) < 2 ^ 64 \<and>
      (\<exists>fr. next_repository_sequence body = Inr fr \<and>
         map (cnt \<circ> rcr_repository_sequence) (batch_committed b)
           = [cnt fr..<cnt fr + length (batch_committed b)] \<and>
         cnt fr + length (batch_committed b) < 2 ^ 64) \<and>
      distinct (map dec_tx_id (batch_decisions b)) \<and>
      linked (body_latest_committed_rcr body) (batch_committed b) \<and>
      List.map_filter committed_pair (batch_decisions b) = map record_pair (batch_committed b) \<and>
      root_outcome_index (batch_resulting b)
        = bt_extend (root_outcome_index (body_roots body)) (map outcome_entry (batch_decisions b)) \<and>
      replay (content (body_roots body)) (batch_committed b) = Inr (content (batch_resulting b)) \<and>
      (\<forall>d \<in> set (batch_decisions b).
         bt_get (root_outcome_index (body_roots body)) (dec_tx_id d) = None) \<and>
      batch_resulting_policy_epoch b = pol_epoch (body_configuration body))"

lemma select_capsules:
  assumes "try_fold (select_capsule s) acc is = Inr cs"
  shows "cs = acc @ map (\<lambda>i. the (bt_get (st_capsules s) i)) is"
    "\<forall>i \<in> set is. bt_get (st_capsules s) i \<noteq> None"
  using assms
  by (induction "is" arbitrary: acc) (fastforce simp: select_capsule_def split: option.splits)+

lemma interval_length:
  fixes xs :: "'a list"
  assumes "map f xs = [a..<b]" "a \<le> b"
  shows "b = a + length xs"
  using arg_cong [OF assms(1), of length] assms(2) by simp

lemma cnt_less: "cnt c < 2 ^ 64"
  using unsigned_less [of "counter_get c"] by simp

lemma introduce_commit_of_Some:
  "bt_get bodies_map tx = Some b \<Longrightarrow>
     introduce_commit_of bodies_map l tx = introduce_commit l (dbi_commit b)"
  by (simp add: introduce_commit_of_def)

lemma introduce_commits_Inr:
  assumes "try_fold (introduce_commit_of bodies_map) l (map rcr_tx_id rs) = Inr l'"
    and "\<forall>r \<in> set rs. \<exists>b. bt_get bodies_map (rcr_tx_id r) = Some b \<and> rcr_id r = dbi_commit b"
  shows "\<exists>cs. l' = l\<lparr>led_commits := cs\<rparr> \<and>
      bs_set cs = bs_set (led_commits l) \<union> rcr_id ` set rs \<and>
      distinct (map rcr_id rs) \<and> bs_set (led_commits l) \<inter> rcr_id ` set rs = {}"
  using assms
proof (induction rs arbitrary: l)
  case (Cons r rs)
  from Cons.prems obtain b where b: "bt_get bodies_map (rcr_tx_id r) = Some b" "rcr_id r = dbi_commit b"
    by auto
  with Cons.prems(1) have fresh: "rcr_id r \<notin> bs_set (led_commits l)" and
    rest: "try_fold (introduce_commit_of bodies_map)
        (l\<lparr>led_commits := bs_insert (rcr_id r) (led_commits l)\<rparr>) (map rcr_tx_id rs) = Inr l'"
    by (auto simp: introduce_commit_of_Some introduce_commit_def introduce_Inr_iff)
  from Cons.IH [OF rest] Cons.prems(2) obtain cs where
    "l' = l\<lparr>led_commits := cs\<rparr>"
    "bs_set cs = insert (rcr_id r) (bs_set (led_commits l)) \<union> rcr_id ` set rs"
    "distinct (map rcr_id rs)" "insert (rcr_id r) (bs_set (led_commits l)) \<inter> rcr_id ` set rs = {}"
    by auto
  with fresh show ?case
    by (intro exI [of _ cs]) auto
qed (auto intro: exI [of _ "led_commits l'"])


lemma build_candidate_head_Inr:
  assumes "build_candidate_head head b i = Inr c"
  shows "head_id c = i" "next_generation (head_body head) = Inr (body_generation (head_body c))"
    "body_predecessor (head_body c) = Some (head_id head)"
    "body_decision_tail (head_body c) = Some (batch_id b)"
    "body_repository (head_body c) = body_repository (head_body head)"
    "body_roots (head_body c) = batch_resulting b"
    "body_configuration (head_body c) = body_configuration (head_body head)"
    "body_format_registry_epoch (head_body c) = body_format_registry_epoch (head_body head)"
    "body_latest_decision_sequence (head_body c) =
       (case last_decision_sequence b of
          Some d \<Rightarrow> Some d | None \<Rightarrow> body_latest_decision_sequence (head_body head))"
    "body_latest_committed_rcr (head_body c) =
       last_id (body_latest_committed_rcr (head_body head)) (batch_committed b)"
    "body_latest_repository_sequence (head_body c) =
       (case last_opt (batch_committed b) of
          Some r \<Rightarrow> Some (rcr_repository_sequence r)
        | None \<Rightarrow> body_latest_repository_sequence (head_body head))"
  using assms
  by (auto simp: build_candidate_head_def Let_def last_commit_def last_id_def last_opt_def
      split: prod.splits option.splits if_splits)

lemma draft_finish_Inr:
  assumes "draft_finish d resulting epoch = Inr b"
  shows "draft_decisions d \<noteq> []" "batch_id b = draft_id d" "batch_repository b = draft_repository d"
    "batch_predecessor_head b = draft_predecessor_head d"
    "batch_predecessor_generation b = draft_predecessor_generation d"
    "batch_first_decision_sequence b = draft_first_decision_sequence d"
    "batch_decisions b = draft_decisions d" "batch_committed b = draft_committed d"
    "batch_resulting b = resulting" "batch_resulting_policy_epoch b = epoch"
    "batch_durability b = draft_durability d"
  using assms by (auto simp: draft_finish_def split: if_splits)

lemma stage_wf_fits:
  assumes wf: "stage_wf s bodies_map caps opened acc"
    and fd: "next_decision_sequence (st_body s) = Inr (draft_first_decision_sequence opened)"
    and fr: "next_repository_sequence (st_body s) = Inr (draft_next_repository_sequence opened)"
    and op: "draft_predecessor_head opened = head_id (st_head s)"
      "draft_predecessor_generation opened = body_generation (st_body s)"
      "draft_parent_commit opened = body_latest_committed_rcr (st_body s)"
    and fin: "draft_finish (sa_draft acc) (sa_scratch acc) (pol_epoch (st_policy s)) = Inr (stg_batch sb)"
    and cand: "build_candidate_head (st_head s) (stg_batch sb) (head_id (stg_candidate_head sb))
      = Inr (stg_candidate_head sb)"
  shows "fits (st_head s) sb"
proof -
  let ?d = "sa_draft acc"
  have b: "batch_decisions (stg_batch sb) = draft_decisions ?d"
      "batch_committed (stg_batch sb) = draft_committed ?d"
      "batch_resulting (stg_batch sb) = sa_scratch acc"
      "batch_first_decision_sequence (stg_batch sb) = draft_first_decision_sequence opened"
      "batch_predecessor_head (stg_batch sb) = head_id (st_head s)"
      "batch_predecessor_generation (stg_batch sb) = body_generation (st_body s)"
      "batch_resulting_policy_epoch (stg_batch sb) = pol_epoch (st_policy s)"
      "draft_decisions ?d \<noteq> []"
    using wf op by (auto simp: draft_finish_Inr [OF fin] stage_wf_def)
  from wf have dwf: "draft_wf (cnt (draft_next_repository_sequence opened))
      (body_latest_committed_rcr (st_body s)) ?d"
      "draft_first_decision_sequence ?d = draft_first_decision_sequence opened"
    by (simp_all add: stage_wf_def op)
  then have "cnt (draft_next_decision_sequence ?d)
        = cnt (draft_first_decision_sequence opened) + length (draft_decisions ?d)"
      "cnt (draft_next_repository_sequence ?d)
        = cnt (draft_next_repository_sequence opened) + length (draft_committed ?d)"
    unfolding draft_wf_def by (auto intro: interval_length)
  with dwf wf b fd fr cand cnt_less [of "draft_next_decision_sequence ?d"]
    cnt_less [of "draft_next_repository_sequence ?d"] show ?thesis
    by (simp add: fits_def Let_def draft_wf_def stage_wf_def outcome_of_def)
qed

text \<open>The effect of staging on the state: nothing, or one new batch that fits the head.\<close>

lemma stage_cases:
  assumes "stage s input = Inr (t, outcome)"
  obtains (deferred) "t = s" "so_batch outcome = None"
  | (staged) sb l where
      "t = s\<lparr>st_identities := l, st_staged := bt_insert (sg_batch_id input) sb (st_staged s)\<rparr>"
      "so_batch outcome = Some (sg_batch_id input)"
      "fits (st_head s) sb" "batch_id (stg_batch sb) = sg_batch_id input"
      "batch_repository (stg_batch sb) = st_repository s"
      "head_id (stg_candidate_head sb) = sg_candidate_head_id input"
      "stg_durability_satisfied sb = sg_durability_satisfied input"
      "sg_batch_id input \<notin> bs_set (led_batches (st_identities s))"
      "sg_candidate_head_id input \<notin> bs_set (led_heads (st_identities s))"
      "l = (st_identities s)\<lparr>led_batches := led_batches l, led_heads := led_heads l,
              led_commits := led_commits l\<rparr>"
      "bs_set (led_batches l) = insert (sg_batch_id input) (bs_set (led_batches (st_identities s)))"
      "bs_set (led_heads l) = insert (sg_candidate_head_id input) (bs_set (led_heads (st_identities s)))"
      "bs_set (led_commits l)
         = bs_set (led_commits (st_identities s)) \<union> rcr_id ` set (batch_committed (stg_batch sb))"
      "distinct (map rcr_id (batch_committed (stg_batch sb)))"
      "bs_set (led_commits (st_identities s)) \<inter> rcr_id ` set (batch_committed (stg_batch sb)) = {}"
      "\<forall>r \<in> set (batch_committed (stg_batch sb)).
         \<exists>i c. i \<in> set (sg_capsules input) \<and> bt_get (st_capsules s) i = Some c \<and> record_from s c r"
      "\<forall>d \<in> set (batch_decisions (stg_batch sb)). decision_is_committed d \<or>
         (\<exists>i c. i \<in> set (sg_capsules input) \<and> bt_get (st_capsules s) i = Some c \<and> refusal_from c d)"
      "decided_from s {c. \<exists>i \<in> set (sg_capsules input). bt_get (st_capsules s) i = Some c}
         (content (st_roots s)) (batch_committed (stg_batch sb))"
      "batch_durability (stg_batch sb) = strictest_durability
         (sort_key caps_tx_id (map (\<lambda>i. the (bt_get (st_capsules s) i)) (sg_capsules input)))"
proof -
  from assms obtain unsorted where
    sel: "try_fold (select_capsule s) [] (sg_capsules input) = Inr unsorted" 
    by (auto simp: stage_def)
  define selected where "selected = sort_key caps_tx_id unsorted"
  have selset: "set selected = {c. \<exists>i \<in> set (sg_capsules input). bt_get (st_capsules s) i = Some c}"
    using select_capsules [OF sel] by (auto simp: selected_def image_iff) force+
  from assms sel obtain fd fr acc where
    fd: "next_decision_sequence (st_body s) = Inr fd" and
    fr: "next_repository_sequence (st_body s) = Inr fr" and
    loop: "try_fold (stage_capsule s (sg_bodies input))
             \<lparr>sa_draft =
                draft_open (sg_batch_id input) (st_repository s) (head_id (st_head s))
                  (body_generation (st_body s)) fd fr
                  (body_latest_committed_rcr (st_body s)) (strictest_durability selected),
              sa_scratch = st_roots s, sa_committed = [], sa_deferred = []\<rparr>
             selected = Inr acc"
    by (auto simp: stage_def Let_def selected_def)
  note wf = stage_loop_wf [OF loop refl subset_refl]
  show ?thesis
  proof (cases "draft_is_empty (sa_draft acc)")
    case True
    with assms sel fd fr loop show ?thesis
      by (intro deferred) (auto simp: stage_def Let_def selected_def)
  next
    case False
    with assms sel fd fr loop obtain batch cand l1 l2 l3 where
      fin: "draft_finish (sa_draft acc) (sa_scratch acc) (pol_epoch (st_policy s)) = Inr batch" and
      cand: "build_candidate_head (st_head s) batch (sg_candidate_head_id input) = Inr cand" and
      l1: "introduce_batch (st_identities s) (sg_batch_id input) = Inr l1" and
      l2: "introduce_head l1 (sg_candidate_head_id input) = Inr l2" and
      l3: "try_fold (introduce_commit_of (sg_bodies input)) l2 (sa_committed acc) = Inr l3" and
      t: "t = s\<lparr>st_identities := l3,
              st_staged :=
                bt_insert (sg_batch_id input)
                  \<lparr>stg_batch = batch, stg_candidate_head = cand,
                   stg_durability_satisfied = sg_durability_satisfied input\<rparr> (st_staged s)\<rparr>" and
      out: "so_batch outcome = Some (sg_batch_id input)"
      by (auto simp: stage_def Let_def selected_def)
    define sb where "sb = \<lparr>stg_batch = batch, stg_candidate_head = cand,
        stg_durability_satisfied = sg_durability_satisfied input\<rparr>"
    note batch = draft_finish_Inr [OF fin]
    have ids: "sa_committed acc = map rcr_tx_id (batch_committed batch)"
        "\<forall>r \<in> set (batch_committed batch).
           \<exists>b. bt_get (sg_bodies input) (rcr_tx_id r) = Some b \<and> rcr_id r = dbi_commit b"
      using wf by (auto simp: stage_wf_def batch)
    from introduce_commits_Inr [OF l3 [unfolded ids(1)] ids(2)] obtain cs where
      cs: "l3 = l2\<lparr>led_commits := cs\<rparr>"
        "bs_set cs = bs_set (led_commits l2) \<union> rcr_id ` set (batch_committed batch)"
        "distinct (map rcr_id (batch_committed batch))"
        "bs_set (led_commits l2) \<inter> rcr_id ` set (batch_committed batch) = {}"
      by blast
    have fit: "fits (st_head s) sb"
      by (rule stage_wf_fits [OF wf]) (use fd fr fin cand in
          \<open>simp_all add: sb_def draft_open_def build_candidate_head_Inr(1) [OF cand]\<close>)
    have ledger: "l3 = (st_identities s)\<lparr>
          led_batches := bs_insert (sg_batch_id input) (led_batches (st_identities s)),
          led_heads := bs_insert (sg_candidate_head_id input) (led_heads (st_identities s)),
          led_commits := cs\<rparr>"
        "sg_batch_id input \<notin> bs_set (led_batches (st_identities s))"
        "sg_candidate_head_id input \<notin> bs_set (led_heads (st_identities s))"
        "led_commits l2 = led_commits (st_identities s)"
      using l1 l2 cs(1) by (auto simp: introduces_def introduce_Inr_iff simp del: domIff)
    have records: "\<forall>r \<in> set (batch_committed batch).
         \<exists>i c. i \<in> set (sg_capsules input) \<and> bt_get (st_capsules s) i = Some c \<and> record_from s c r"
        "\<forall>d \<in> set (batch_decisions batch). decision_is_committed d \<or>
         (\<exists>i c. i \<in> set (sg_capsules input) \<and> bt_get (st_capsules s) i = Some c \<and> refusal_from c d)"
      using wf unfolding stage_wf_def batch selset by blast+
    have from_caps: "decided_from s {c. \<exists>i \<in> set (sg_capsules input). bt_get (st_capsules s) i = Some c}
         (content (st_roots s)) (batch_committed batch)"
      using wf unfolding stage_wf_def batch selset by blast
    have ids: "batch_id batch = sg_batch_id input" "batch_repository batch = st_repository s"
        "batch_durability batch = strictest_durability
           (sort_key caps_tx_id (map (\<lambda>i. the (bt_get (st_capsules s) i)) (sg_capsules input)))"
      using wf select_capsules(1) [OF sel]
      by (simp_all add: stage_wf_def batch draft_open_def selected_def)
    show ?thesis
      by (rule staged [of sb l3]) (use t out fit ledger cs records from_caps ids in
          \<open>simp_all add: sb_def build_candidate_head_Inr(1) [OF cand]\<close>)
  qed
qed

section \<open>What the head replacements do\<close>

lemma compare_and_swap_cases:
  assumes "compare_and_swap s input = Inr (t, outcome)"
  obtains
    (lost) "t = s" "outcome = Lost (head_id (st_head s)) (body_generation (st_body s))"
  | (unsatisfied) sb where
      "t = s" "outcome = DurabilityUnsatisfied (cas_batch input)"
      "bt_get (st_staged s) (cas_batch input) = Some sb" "\<not> may_become_visible sb"
  | (won) sb where
      "bt_get (st_staged s) (cas_batch input) = Some sb"
      "cas_expected_head input = head_id (st_head s)"
      "cas_expected_generation input = body_generation (st_body s)"
      "body_predecessor (head_body (stg_candidate_head sb)) = Some (head_id (st_head s))"
      "may_become_visible sb"
      "t = install_batch s (cas_batch input) sb"
      "outcome = Won (head_id (stg_candidate_head sb)) (batch_id (stg_batch sb))"
proof -
  from assms obtain sb where sb: "bt_get (st_staged s) (cas_batch input) = Some sb"
    by (auto simp: compare_and_swap_def split: option.splits)
  show ?thesis
  proof (cases "cas_expected_head input \<noteq> head_id (st_head s) \<or>
      cas_expected_generation input \<noteq> body_generation (st_body s)")
    case True
    with assms sb show ?thesis
      by (intro lost) (auto simp: compare_and_swap_def)
  next
    case False
    with assms sb have c: "cas_checks s sb = Inr ()"
      by (auto simp: compare_and_swap_def)
    then have p: "body_predecessor (head_body (stg_candidate_head sb)) = Some (head_id (st_head s))"
      by (auto simp: cas_checks_def Let_def split: if_splits)
    show ?thesis
    proof (cases "may_become_visible sb")
      case True
      with assms sb False c p show ?thesis
        by (intro won [of sb]) (auto simp: compare_and_swap_def)
    next
      case invisible: False
      with assms sb False c show ?thesis
        by (intro unsatisfied [of sb]) (auto simp: compare_and_swap_def)
    qed
  qed
qed

lemma promote_closures_frame:
  "\<exists>objects. foldl (\<lambda>t r. promote_closure t (rcr_tx_id r) (rcr_object_closure r)) s rs
     = s\<lparr>st_objects := objects\<rparr>"
proof (induction rs arbitrary: s)
  case Nil
  show ?case
    by (rule exI [of _ "st_objects s"]) simp
next
  case (Cons r rs)
  obtain objects where "promote_closure s (rcr_tx_id r) (rcr_object_closure r) = s\<lparr>st_objects := objects\<rparr>"
    by (cases "bt_get (st_quarantine s) (rcr_tx_id r)")
      (auto simp: promote_closure_def intro: that [of "st_objects s"])
  with Cons.IH [of "s\<lparr>st_objects := objects\<rparr>"] show ?case
    by auto
qed

lemma retire_transactions_frame:
  "foldl retire_transaction s txs =
     s\<lparr>st_quarantine := foldl (\<lambda>m tx. bt_remove tx m) (st_quarantine s) txs,
       st_capsules := foldl (\<lambda>m tx. bt_retain (\<lambda>_ c. caps_tx_id c \<noteq> tx) m) (st_capsules s) txs\<rparr>"
  by (induction txs arbitrary: s) (simp_all add: retire_transaction_def)

lemma install_batch_frame:
  "\<exists>objects. install_batch s i sb =
     s\<lparr>st_staged := bt_remove i (st_staged s),
       st_head_chain := bt_insert (head_id (stg_candidate_head sb)) (head_body (stg_candidate_head sb))
         (st_head_chain s),
       st_head := stg_candidate_head sb,
       st_decisions := st_decisions s @ batch_decisions (stg_batch sb),
       st_commits := st_commits s @ batch_committed (stg_batch sb),
       st_objects := objects,
       st_quarantine := foldl (\<lambda>m tx. bt_remove tx m) (st_quarantine s)
         (terminated_transactions (stg_batch sb)),
       st_capsules := foldl (\<lambda>m tx. bt_retain (\<lambda>_ c. caps_tx_id c \<noteq> tx) m) (st_capsules s)
         (terminated_transactions (stg_batch sb)),
       st_batches := bt_insert (batch_id (stg_batch sb)) (stg_batch sb) (st_batches s)\<rparr>"
proof -
  let ?s1 = "s\<lparr>st_staged := bt_remove i (st_staged s),
       st_head_chain := bt_insert (head_id (stg_candidate_head sb)) (head_body (stg_candidate_head sb))
         (st_head_chain s),
       st_head := stg_candidate_head sb,
       st_decisions := st_decisions s @ batch_decisions (stg_batch sb),
       st_commits := st_commits s @ batch_committed (stg_batch sb)\<rparr>"
  obtain objects where "foldl (\<lambda>t r. promote_closure t (rcr_tx_id r) (rcr_object_closure r)) ?s1
      (batch_committed (stg_batch sb)) = ?s1\<lparr>st_objects := objects\<rparr>"
    using promote_closures_frame by blast
  then show ?thesis
    by (intro exI [of _ objects]) (simp add: install_batch_def Let_def retire_transactions_frame)
qed

lemma install_batch_simps [simp]:
  "st_head (install_batch s i sb) = stg_candidate_head sb"
  "st_head_chain (install_batch s i sb) = bt_insert (head_id (stg_candidate_head sb))
     (head_body (stg_candidate_head sb)) (st_head_chain s)"
  "st_staged (install_batch s i sb) = bt_remove i (st_staged s)"
  "st_decisions (install_batch s i sb) = st_decisions s @ batch_decisions (stg_batch sb)"
  "st_commits (install_batch s i sb) = st_commits s @ batch_committed (stg_batch sb)"
  "st_batches (install_batch s i sb)
     = bt_insert (batch_id (stg_batch sb)) (stg_batch sb) (st_batches s)"
  "st_identities (install_batch s i sb) = st_identities s"
  "st_seals (install_batch s i sb) = st_seals s"
  "st_idempotency_index (install_batch s i sb) = st_idempotency_index s"
  "st_repository (install_batch s i sb) = st_repository s"
  "st_tenant (install_batch s i sb) = st_tenant s"
  "st_object_format (install_batch s i sb) = st_object_format s"
  using install_batch_frame [of s i sb] by auto

lemma bt_get_foldl_remove:
  "bt_get (foldl (\<lambda>m tx. bt_remove tx m) m txs) tx = (if tx \<in> set txs then None else bt_get m tx)"
  by (induction txs arbitrary: m) auto

lemma bt_get_foldl_retain:
  "bt_get (foldl (\<lambda>m tx. bt_retain (\<lambda>_ c. caps_tx_id c \<noteq> tx) m) m txs) i =
     (case bt_get m i of
        Some c \<Rightarrow> if caps_tx_id c \<in> set txs then None else Some c
      | None \<Rightarrow> None)"
  by (induction txs arbitrary: m) (auto split: option.splits)

lemma install_batch_quarantine:
  "bt_get (st_quarantine (install_batch s i sb)) tx =
     (if tx \<in> set (terminated_transactions (stg_batch sb)) then None
      else bt_get (st_quarantine s) tx)"
  using install_batch_frame [of s i sb] by (auto simp: bt_get_foldl_remove)

lemma install_batch_capsules:
  "bt_get (st_capsules (install_batch s i sb)) j =
     (case bt_get (st_capsules s) j of
        Some c \<Rightarrow> if caps_tx_id c \<in> set (terminated_transactions (stg_batch sb)) then None else Some c
      | None \<Rightarrow> None)"
  using install_batch_frame [of s i sb] by (auto simp: bt_get_foldl_retain)

lemma publish_configuration_cases:
  assumes "publish_configuration s input = Inr (t, outcome)"
  obtains
    (lost) "t = s" "outcome = Config_Lost (head_id (st_head s)) (body_generation (st_body s))"
  | (won) g e where
      "cr_expected_head input = head_id (st_head s)"
      "cr_expected_generation input = body_generation (st_body s)"
      "counter_next ''PolicyEpoch'' (pol_epoch (st_policy s)) = Inr e"
      "pol_epoch (cr_policy input) = e"
      "next_generation (st_body s) = Inr g"
      "cr_candidate_head_id input \<notin> bs_set (led_heads (st_identities s))"
      "t = s\<lparr>st_identities := (st_identities s)\<lparr>led_heads :=
               bs_insert (cr_candidate_head_id input) (led_heads (st_identities s))\<rparr>,
             st_head_chain := bt_insert (cr_candidate_head_id input)
               ((st_body s)\<lparr>body_generation := g, body_predecessor := Some (head_id (st_head s)),
                  body_configuration := cr_policy input\<rparr>) (st_head_chain s),
             st_head := \<lparr>head_id = cr_candidate_head_id input,
               head_body = (st_body s)\<lparr>body_generation := g,
                  body_predecessor := Some (head_id (st_head s)),
                  body_configuration := cr_policy input\<rparr>\<rparr>\<rparr>"
      "outcome = Config_Won (cr_candidate_head_id input) e"
proof (cases "cr_expected_head input \<noteq> head_id (st_head s) \<or>
    cr_expected_generation input \<noteq> body_generation (st_body s)")
  case True
  with assms show ?thesis
    by (intro lost) (auto simp: publish_configuration_def Let_def)
next
  case False
  with assms obtain e g where
    "counter_next ''PolicyEpoch'' (pol_epoch (st_policy s)) = Inr e" "pol_epoch (cr_policy input) = e"
    "next_generation (st_body s) = Inr g"
    "introduce (led_heads (st_identities s)) (cr_candidate_head_id input) ''head'' \<noteq> Inl (IdentityReused ''head'')"
    by (auto simp: publish_configuration_def Let_def introduce_head_def split: if_splits)
  with assms False show ?thesis
    by (intro won [of e g])
      (auto simp: publish_configuration_def Let_def introduce_head_def introduce_def
        split: if_splits)
qed

end
