(* ===== verification/Machine.thy ===== *)
theory Machine
  imports Transitions
begin

text \<open>
  The model driver of \<open>fgit-reference/src/machine.rs\<close>: one function from a state and an input to a
  breach or a step, and cancellation. A breach leaves no new state, so a run of the machine is a
  sequence of inputs that all stepped; \<open>reachable\<close> is the closure of genesis under such steps.
\<close>

datatype cancellation_phase = BeforeSeal | AfterSealBeforeCas | AfterCas

record cancellation_report =
  cx_phase :: cancellation_phase
  cx_seal_survives :: bool
  cx_outcome :: "decision_outcome option"

definition report_is_decided :: "cancellation_report \<Rightarrow> bool" where
  "report_is_decided r \<longleftrightarrow> cx_outcome r \<noteq> None"

definition report_is_retryable :: "cancellation_report \<Rightarrow> bool" where
  "report_is_retryable r \<longleftrightarrow> cx_seal_survives r \<and> cx_outcome r = None"

record cancellation_request =
  cn_tx_id :: tx_id
  cn_phase :: cancellation_phase

datatype model_input =
    In_Seal seal_request
  | In_StageObjects quarantine_request
  | In_Prepare prepare_request
  | In_Decide prepared_txn_capsule_id
  | In_Stage stage_request
  | In_CompareAndSwap cas_request
  | In_PublishConfiguration configuration_request
  | In_Cancel cancellation_request

datatype model_output =
    Out_Sealed seal_outcome
  | Out_ObjectsQuarantined nat
  | Out_Prepared prepared_txn_capsule_id
  | Out_Decided decision_verdict
  | Out_Staged stage_outcome
  | Out_HeadTransition cas_outcome
  | Out_ConfigurationTransition configuration_outcome
  | Out_Cancelled cancellation_report

record model_step =
  step_next :: repository_state
  step_output :: model_output

definition cancel :: "repository_state \<Rightarrow> cancellation_request \<Rightarrow> model_step" where
  "cancel s request =
     (let outcome = outcome_of s (cn_tx_id request) in
      case cn_phase request of
        AfterSealBeforeCas \<Rightarrow>
          (let t = s\<lparr>st_capsules :=
                      bt_retain (\<lambda>_ c. caps_tx_id c \<noteq> cn_tx_id request) (st_capsules s)\<rparr> in
           \<lparr>step_next = t,
            step_output = Out_Cancelled
              \<lparr>cx_phase = cn_phase request,
               cx_seal_survives = (seal_of t (cn_tx_id request) \<noteq> None),
               cx_outcome = outcome\<rparr>\<rparr>)
      | _ \<Rightarrow>
          \<lparr>step_next = s,
           step_output = Out_Cancelled
             \<lparr>cx_phase = cn_phase request,
              cx_seal_survives = (seal_of s (cn_tx_id request) \<noteq> None),
              cx_outcome = outcome\<rparr>\<rparr>)"

fun step :: "repository_state \<Rightarrow> model_input \<Rightarrow> model_step model_result" where
  "step s (In_Seal request) =
     rbind (seal s request) (\<lambda>(t, outcome).
     Inr \<lparr>step_next = t, step_output = Out_Sealed outcome\<rparr>)"
| "step s (In_StageObjects request) =
     rbind (stage_objects s request) (\<lambda>t.
     Inr \<lparr>step_next = t,
          step_output = Out_ObjectsQuarantined
            (case quarantine_of t (qr_tx_id request) of Some m \<Rightarrow> bt_len m | None \<Rightarrow> 0)\<rparr>)"
| "step s (In_Prepare request) =
     rbind (prepare s request) (\<lambda>(t, capsule).
     Inr \<lparr>step_next = t, step_output = Out_Prepared capsule\<rparr>)"
| "step s (In_Decide capsule) =
     (case bt_get (st_capsules s) capsule of
        None \<Rightarrow> Inl (UnknownCapsule capsule)
      | Some prepared \<Rightarrow>
          Inr \<lparr>step_next = s, step_output = Out_Decided (decide s prepared)\<rparr>)"
| "step s (In_Stage request) =
     rbind (stage s request) (\<lambda>(t, staged).
     Inr \<lparr>step_next = t, step_output = Out_Staged staged\<rparr>)"
| "step s (In_CompareAndSwap request) =
     rbind (compare_and_swap s request) (\<lambda>(t, outcome).
     Inr \<lparr>step_next = t, step_output = Out_HeadTransition outcome\<rparr>)"
| "step s (In_PublishConfiguration request) =
     rbind (publish_configuration s request) (\<lambda>(t, outcome).
     Inr \<lparr>step_next = t, step_output = Out_ConfigurationTransition outcome\<rparr>)"
| "step s (In_Cancel request) = Inr (cancel s request)"

section \<open>Steps and reachability\<close>

lemma cancel_same_canonical: "same_canonical s (step_next (cancel s request))"
  by (auto simp: cancel_def Let_def same_canonical_def split: cancellation_phase.splits)

text \<open>
  A step is one of three kinds: it leaves the canonical part alone, it stages a batch, or it
  replaces the head.
\<close>

lemma step_kinds:
  assumes "step s input = Inr r"
  obtains
    (quiet) "same_canonical s (step_next r)"
  | (staging) request outcome where
      "input = In_Stage request" "stage s request = Inr (step_next r, outcome)"
  | (swap) request outcome where
      "input = In_CompareAndSwap request" "compare_and_swap s request = Inr (step_next r, outcome)"
  | (configuration) request outcome where
      "input = In_PublishConfiguration request"
      "publish_configuration s request = Inr (step_next r, outcome)"
proof (cases input)
  case (In_Seal request)
  with assms show ?thesis
    by (intro quiet) (auto dest: seal_same_canonical)
next
  case (In_StageObjects request)
  with assms show ?thesis
    by (intro quiet) (auto dest: stage_objects_same_canonical)
next
  case (In_Prepare request)
  with assms show ?thesis
    by (intro quiet) (auto dest: prepare_same_canonical)
next
  case (In_Decide i)
  with assms show ?thesis
    by (intro quiet) (auto split: option.splits)
next
  case (In_Stage request)
  with assms show ?thesis
    by (auto intro: staging)
next
  case (In_CompareAndSwap request)
  with assms show ?thesis
    by (auto intro: swap)
next
  case (In_PublishConfiguration request)
  with assms show ?thesis
    by (auto intro: configuration)
next
  case (In_Cancel request)
  with assms show ?thesis
    by (intro quiet) (auto intro: cancel_same_canonical)
qed

text \<open>
  A run feeds the machine inputs that pass a test; a breach ends it. \<open>run_inputs\<close> is the executable
  version, and the states reachable from a genesis configuration are those of its runs on any
  inputs.
\<close>

inductive run :: "(model_input \<Rightarrow> bool) \<Rightarrow> repository_state \<Rightarrow> repository_state \<Rightarrow> bool"
  for allowed s where
  run_refl: "run allowed s s"
| run_step: "run allowed s t \<Longrightarrow> allowed input \<Longrightarrow> step t input = Inr r \<Longrightarrow> run allowed s (step_next r)"

inductive_cases run_cases: "run allowed s t"

abbreviation any_input :: "model_input \<Rightarrow> bool" where
  "any_input \<equiv> \<lambda>_. True"

abbreviation reachable :: "genesis_configuration \<Rightarrow> repository_state \<Rightarrow> bool" where
  "reachable c s \<equiv> run any_input (genesis c) s"

definition next_state :: "repository_state \<Rightarrow> model_input \<Rightarrow> repository_state model_result" where
  "next_state s input = rbind (step s input) (\<lambda>r. Inr (step_next r))"

definition run_inputs :: "repository_state \<Rightarrow> model_input list \<Rightarrow> repository_state model_result" where
  "run_inputs s inputs = try_fold next_state s inputs"

lemma run_trans: "run allowed t u \<Longrightarrow> run allowed s t \<Longrightarrow> run allowed s u"
  by (induction rule: run.induct) (auto intro: run_step)

lemma run_weaken: "run allowed s t \<Longrightarrow> (\<And>i. allowed i \<Longrightarrow> allowed' i) \<Longrightarrow> run allowed' s t"
  by (induction rule: run.induct) (auto intro: run_refl run_step)

lemma run_inputs_run:
  "run_inputs s inputs = Inr t \<Longrightarrow> list_all allowed inputs \<Longrightarrow> run allowed s t"
proof (induction inputs arbitrary: s)
  case (Cons input inputs)
  then obtain r where "step s input = Inr r" "run_inputs (step_next r) inputs = Inr t"
    by (auto simp: run_inputs_def next_state_def)
  with Cons show ?case
    by (auto intro: run_trans run_step [OF run_refl])
qed (auto simp: run_inputs_def intro: run_refl)

section \<open>Invariants of the machine\<close>

text \<open>
  An invariant of runs on inputs that pass a test: it holds at genesis and every allowed step
  keeps it. A property may be kept only while another invariant holds, which \<open>base\<close> supplies.
\<close>

locale machine_invariant =
  fixes allowed :: "model_input \<Rightarrow> bool" and base inv :: "repository_state \<Rightarrow> bool"
  assumes inv_genesis: "inv (genesis c)"
    and base_reachable: "run allowed (genesis c) s \<Longrightarrow> base s"
    and inv_step: "base s \<Longrightarrow> inv s \<Longrightarrow> allowed input \<Longrightarrow> step s input = Inr r \<Longrightarrow> inv (step_next r)"
begin

lemma holds: "run allowed (genesis c) s \<Longrightarrow> inv s"
  by (induction rule: run.induct) (auto intro: inv_genesis inv_step base_reachable)

end

text \<open>A preorder on states that every step of a run from a reachable state climbs.\<close>

locale machine_monotone =
  fixes allowed :: "model_input \<Rightarrow> bool" and base :: "repository_state \<Rightarrow> bool"
    and le :: "repository_state \<Rightarrow> repository_state \<Rightarrow> bool"
  assumes base_reachable: "run allowed (genesis c) s \<Longrightarrow> base s"
    and le_refl: "le s s"
    and le_trans: "le s t \<Longrightarrow> le t u \<Longrightarrow> le s u"
    and le_step: "base s \<Longrightarrow> allowed input \<Longrightarrow> step s input = Inr r \<Longrightarrow> le s (step_next r)"
begin

lemma climbs: "run allowed s t \<Longrightarrow> run allowed (genesis c) s \<Longrightarrow> le s t"
proof (induction rule: run.induct)
  case (run_step t input r)
  then have "base t"
    using base_reachable run_trans by blast
  with run_step show ?case
    by (blast intro: le_trans le_step)
qed (rule le_refl)

end

end
