(* ===== verification/Canonical_History.thy ===== *)
theory Canonical_History
  imports Machine
begin

text \<open>
  The invariant of the canonical part of the state, preserved by every transition: the head chain
  is linked back to genesis with consecutive generations; every staged batch that names the
  current head fits it; the published decisions and commits are numbered without a gap, decide
  every transaction once, agree with the outcome index, and replaying the committed effects from
  empty roots gives the roots the head publishes.
\<close>

definition chain_linked ::
  "(repository_authority_head_id, authority_head_body) btree_map \<Rightarrow> bool" where
  "chain_linked chain \<longleftrightarrow>
     (\<forall>h b. bt_get chain h = Some b \<longrightarrow>
        (body_predecessor b = None \<longrightarrow> body_generation b = counter_FIRST) \<and>
        (\<forall>p. body_predecessor b = Some p \<longrightarrow>
           (\<exists>pb. bt_get chain p = Some pb \<and> next_generation pb = Inr (body_generation b))))"

lemma chain_linked_extend:
  assumes "chain_linked chain" "new \<notin> dom (bt_get chain)" "bt_get chain p = Some pb"
    and "body_predecessor nb = Some p" "next_generation pb = Inr (body_generation nb)"
  shows "chain_linked (bt_insert new nb chain)"
  unfolding chain_linked_def
proof (intro allI impI conjI)
  fix h b
  assume h: "bt_get (bt_insert new nb chain) h = Some b"
  {
    assume "body_predecessor b = None"
    with h assms show "body_generation b = counter_FIRST"
      by (auto simp: chain_linked_def split: if_splits)
  next
    fix q
    assume q: "body_predecessor b = Some q"
    have "\<exists>qb. bt_get chain q = Some qb \<and> next_generation qb = Inr (body_generation b)"
    proof (cases "h = new")
      case True
      with h q assms(3-5) show ?thesis
        by simp
    next
      case False
      with h have "bt_get chain h = Some b"
        by simp
      with q assms(1) show ?thesis
        unfolding chain_linked_def by blast
    qed
    with assms(2) show "\<exists>qb. bt_get (bt_insert new nb chain) q = Some qb \<and>
        next_generation qb = Inr (body_generation b)"
      by auto
  }
qed

definition chain_wf :: "repository_state \<Rightarrow> bool" where
  "chain_wf s \<longleftrightarrow>
     bt_get (st_head_chain s) (head_id (st_head s)) = Some (st_body s) \<and>
     dom (bt_get (st_head_chain s)) \<subseteq> bs_set (led_heads (st_identities s)) \<and>
     chain_linked (st_head_chain s)"

definition staged_wf :: "repository_state \<Rightarrow> bool" where
  "staged_wf s \<longleftrightarrow>
     (\<forall>i sb. bt_get (st_staged s) i = Some sb \<longrightarrow>
        batch_id (stg_batch sb) = i \<and>
        i \<in> bs_set (led_batches (st_identities s)) \<and>
        head_id (stg_candidate_head sb) \<in> bs_set (led_heads (st_identities s)) \<and>
        head_id (stg_candidate_head sb) \<notin> dom (bt_get (st_head_chain s)) \<and>
        body_predecessor (head_body (stg_candidate_head sb))
          = Some (batch_predecessor_head (stg_batch sb)) \<and>
        batch_predecessor_head (stg_batch sb) \<in> dom (bt_get (st_head_chain s)) \<and>
        (batch_predecessor_head (stg_batch sb) = head_id (st_head s) \<longrightarrow> fits (st_head s) sb)) \<and>
     (\<forall>i j sb sc. bt_get (st_staged s) i = Some sb \<longrightarrow> bt_get (st_staged s) j = Some sc \<longrightarrow>
        head_id (stg_candidate_head sb) = head_id (stg_candidate_head sc) \<longrightarrow> i = j)"

definition history_wf :: "repository_state \<Rightarrow> bool" where
  "history_wf s \<longleftrightarrow>
     map (cnt \<circ> dec_sequence) (st_decisions s) = [1..<Suc (length (st_decisions s))] \<and>
     Suc (length (st_decisions s)) < 2 ^ 64 \<and>
     body_latest_decision_sequence (st_body s) = map_option dec_sequence (last_opt (st_decisions s)) \<and>
     map (cnt \<circ> rcr_repository_sequence) (st_commits s) = [1..<Suc (length (st_commits s))] \<and>
     Suc (length (st_commits s)) < 2 ^ 64 \<and>
     body_latest_repository_sequence (st_body s)
       = map_option rcr_repository_sequence (last_opt (st_commits s)) \<and>
     body_latest_committed_rcr (st_body s) = last_id None (st_commits s) \<and>
     linked None (st_commits s) \<and>
     distinct (map dec_tx_id (st_decisions s)) \<and>
     root_outcome_index (st_roots s) = bt_of_list (map outcome_entry (st_decisions s)) \<and>
     List.map_filter committed_pair (st_decisions s) = map record_pair (st_commits s) \<and>
     replay roots_default (st_commits s) = Inr (content (st_roots s))"

definition canonical_wf :: "repository_state \<Rightarrow> bool" where
  "canonical_wf s \<longleftrightarrow> chain_wf s \<and> staged_wf s \<and> history_wf s"

lemma canonical_wf_genesis: "canonical_wf (genesis c)"
  by (simp add: canonical_wf_def chain_wf_def staged_wf_def history_wf_def genesis_def
      genesis_body_def introduce_head_def introduce_def ledger_default_def roots_default_def
      replay_def content_def bt_of_list_def List.map_filter_def chain_linked_def)

lemma canonical_wf_quiet:
  assumes "same_canonical s t"
  shows "canonical_wf t \<longleftrightarrow> canonical_wf s"
  using assms
  by (simp add: same_canonical_def canonical_wf_def chain_wf_def staged_wf_def history_wf_def)

lemma canonical_wf_stage:
  assumes "stage s input = Inr (t, outcome)" and wf: "canonical_wf s"
  shows "canonical_wf t"
  using assms(1)
proof (cases rule: stage_cases)
  case deferred
  with wf show ?thesis
    by simp
next
  case (staged sb l)
  have pred: "body_predecessor (head_body (stg_candidate_head sb))
      = Some (batch_predecessor_head (stg_batch sb))"
    "batch_predecessor_head (stg_batch sb) = head_id (st_head s)"
    using staged(3) by (auto simp: fits_def Let_def dest: build_candidate_head_Inr(3))
  have t: "st_head t = st_head s" "st_head_chain t = st_head_chain s" "st_decisions t = st_decisions s"
    "st_commits t = st_commits s" "st_staged t = bt_insert (sg_batch_id input) sb (st_staged s)"
    "st_identities t = l"
    by (simp_all add: staged(1))
  have "chain_wf t"
    using wf staged(12) unfolding canonical_wf_def chain_wf_def t by blast
  moreover have "history_wf t"
    using wf unfolding canonical_wf_def history_wf_def t by blast
  moreover have "staged_wf t"
    using wf staged(3,4,6,8,9,11,12) pred
    unfolding canonical_wf_def staged_wf_def chain_wf_def t
    by (simp split: if_splits) (metis (no_types, lifting) domI insertCI subsetD)
  ultimately show ?thesis
    by (simp add: canonical_wf_def)
qed


text \<open>Replacing the head by a fresh one makes every batch that stays staged stale.\<close>

lemma staged_wf_new_head:
  assumes wf: "staged_wf s" and fresh: "head_id (st_head t) \<notin> dom (bt_get (st_head_chain s))"
    and chain: "st_head_chain t = bt_insert (head_id (st_head t)) body (st_head_chain s)"
    and staged: "\<And>i sb. bt_get (st_staged t) i = Some sb \<Longrightarrow>
        bt_get (st_staged s) i = Some sb \<and> head_id (stg_candidate_head sb) \<noteq> head_id (st_head t)"
    and led: "bs_set (led_heads (st_identities s)) \<subseteq> bs_set (led_heads (st_identities t))"
      "led_batches (st_identities t) = led_batches (st_identities s)"
  shows "staged_wf t"
proof -
  have "batch_id (stg_batch sb) = i \<and>
        i \<in> bs_set (led_batches (st_identities t)) \<and>
        head_id (stg_candidate_head sb) \<in> bs_set (led_heads (st_identities t)) \<and>
        head_id (stg_candidate_head sb) \<notin> dom (bt_get (st_head_chain t)) \<and>
        body_predecessor (head_body (stg_candidate_head sb))
          = Some (batch_predecessor_head (stg_batch sb)) \<and>
        batch_predecessor_head (stg_batch sb) \<in> dom (bt_get (st_head_chain t)) \<and>
        batch_predecessor_head (stg_batch sb) \<noteq> head_id (st_head t)"
    if "bt_get (st_staged t) i = Some sb" for i sb
  proof -
    note old = staged [OF that]
    then have "batch_id (stg_batch sb) = i" "i \<in> bs_set (led_batches (st_identities s))"
        "head_id (stg_candidate_head sb) \<in> bs_set (led_heads (st_identities s))"
        "head_id (stg_candidate_head sb) \<notin> dom (bt_get (st_head_chain s))"
        "body_predecessor (head_body (stg_candidate_head sb))
          = Some (batch_predecessor_head (stg_batch sb))"
        "batch_predecessor_head (stg_batch sb) \<in> dom (bt_get (st_head_chain s))"
      using wf unfolding staged_wf_def by blast+
    with old fresh led show ?thesis
      unfolding chain dom_bt_insert by auto
  qed
  moreover have "i = j" if "bt_get (st_staged t) i = Some sb" "bt_get (st_staged t) j = Some sc"
      "head_id (stg_candidate_head sb) = head_id (stg_candidate_head sc)" for i j sb sc
    using wf staged [OF that(1)] staged [OF that(2)] that(3) unfolding staged_wf_def by blast
  ultimately show ?thesis
    unfolding staged_wf_def by blast
qed

lemma numbered_next:
  assumes "map (cnt \<circ> g) xs = [1..<Suc (length xs)]"
    and "next_sequence field kind (map_option g (last_opt xs)) = Inr c"
  shows "cnt c = Suc (length xs)"
  using next_sequence_cnt [OF assms(2)] last_numbered [OF assms(1)]
  by (auto simp: last_opt_def split: if_splits)

lemma undecided_iff:
  "bt_get (bt_of_list (map outcome_entry ds)) tx = None \<longleftrightarrow> tx \<notin> dec_tx_id ` set ds"
  by (auto simp: bt_get_of_list map_of_eq_None_iff outcome_entry_def image_iff)

lemma history_wf_install:
  assumes "history_wf s" and fit: "fits (st_head s) sb"
  shows "history_wf (install_batch s i sb)"
proof -
  let ?b = "stg_batch sb" and ?body = "st_body s"
  note h = assms(1) [unfolded history_wf_def]
  note f = fit [unfolded fits_def Let_def]
  from f obtain fr where
    fr: "next_repository_sequence ?body = Inr fr"
      "map (cnt \<circ> rcr_repository_sequence) (batch_committed ?b) = [cnt fr..<cnt fr + length (batch_committed ?b)]"
      "cnt fr + length (batch_committed ?b) < 2 ^ 64"
    by blast
  have fd: "cnt (batch_first_decision_sequence ?b) = Suc (length (st_decisions s))"
    using f h by (intro numbered_next [of dec_sequence]) (auto simp: next_decision_sequence_def)
  have cfr: "cnt fr = Suc (length (st_commits s))"
    using fr(1) h by (intro numbered_next [of rcr_repository_sequence])
      (auto simp: next_repository_sequence_def)
  from f have cand: "build_candidate_head (st_head s) ?b (head_id (stg_candidate_head sb))
      = Inr (stg_candidate_head sb)"
    by blast
  note c = build_candidate_head_Inr [OF cand]
  from f have ne: "batch_decisions ?b \<noteq> []"
    by blast
  from h have lrs: "body_latest_repository_sequence ?body
      = map_option rcr_repository_sequence (last_opt (st_commits s))"
    by blast
  have "map (cnt \<circ> dec_sequence) (st_decisions s @ batch_decisions ?b)
      = [1..<Suc (length (st_decisions s @ batch_decisions ?b))]"
    using f h fd by (intro numbered_append) auto
  moreover have "map (cnt \<circ> rcr_repository_sequence) (st_commits s @ batch_committed ?b)
      = [1..<Suc (length (st_commits s @ batch_committed ?b))]"
    using fr h cfr by (intro numbered_append) auto
  moreover have "Suc (length (st_decisions s @ batch_decisions ?b)) < 2 ^ 64"
      "Suc (length (st_commits s @ batch_committed ?b)) < 2 ^ 64"
    using f fd fr cfr by auto
  moreover have "distinct (map dec_tx_id (st_decisions s @ batch_decisions ?b))"
  proof -
    have "\<forall>d \<in> set (batch_decisions ?b). dec_tx_id d \<notin> dec_tx_id ` set (st_decisions s)"
      using f h by (simp add: undecided_iff)
    then have "dec_tx_id ` set (st_decisions s) \<inter> dec_tx_id ` set (batch_decisions ?b) = {}"
      by (simp add: disjoint_iff image_iff) metis
    then show ?thesis
      using f h by simp
  qed
  moreover have "root_outcome_index (batch_resulting ?b)
      = bt_of_list (map outcome_entry (st_decisions s @ batch_decisions ?b))"
    using f h by (simp add: bt_of_list_append)
  moreover have "replay roots_default (st_commits s @ batch_committed ?b)
      = Inr (content (batch_resulting ?b))"
    using f h by (simp add: replay_append)
  moreover have "linked None (st_commits s @ batch_committed ?b)"
    using f h by (simp add: linked_append)
  moreover have "List.map_filter committed_pair (st_decisions s @ batch_decisions ?b)
      = map record_pair (st_commits s @ batch_committed ?b)"
    using f h by (simp add: map_filter_append)
  moreover have "body_latest_committed_rcr (head_body (stg_candidate_head sb))
      = last_id None (st_commits s @ batch_committed ?b)"
    using h by (simp add: c(10) last_id_append)
  moreover have "body_latest_decision_sequence (head_body (stg_candidate_head sb))
      = map_option dec_sequence (last_opt (st_decisions s @ batch_decisions ?b))"
    using ne by (simp add: c(9) last_decision_sequence_def last_opt_append last_opt_def)
  moreover have "body_latest_repository_sequence (head_body (stg_candidate_head sb))
      = map_option rcr_repository_sequence (last_opt (st_commits s @ batch_committed ?b))"
    using lrs by (simp add: c(11) last_opt_append last_opt_def)
  ultimately show ?thesis
    unfolding history_wf_def install_batch_simps c(6) by blast
qed

lemma canonical_wf_cas:
  assumes "compare_and_swap s input = Inr (t, outcome)" and wf: "canonical_wf s"
  shows "canonical_wf t"
  using assms(1)
proof (cases rule: compare_and_swap_cases)
  case (won sb)
  have st: "batch_predecessor_head (stg_batch sb) = head_id (st_head s)"
      "head_id (stg_candidate_head sb) \<in> bs_set (led_heads (st_identities s))"
      "head_id (stg_candidate_head sb) \<notin> dom (bt_get (st_head_chain s))"
      "fits (st_head s) sb"
    using wf won(1,4) unfolding canonical_wf_def staged_wf_def by auto
  then have cand: "build_candidate_head (st_head s) (stg_batch sb) (head_id (stg_candidate_head sb))
      = Inr (stg_candidate_head sb)"
    by (auto simp: fits_def Let_def)
  note c = build_candidate_head_Inr [OF cand]
  have "history_wf t"
    using wf st(4) won(6) by (simp add: canonical_wf_def history_wf_install)
  moreover have "chain_wf t"
    unfolding won(6) chain_wf_def install_batch_simps
    using wf st c(2,3) by (auto simp: canonical_wf_def chain_wf_def intro: chain_linked_extend)
  moreover have "staged_wf t"
  proof (rule staged_wf_new_head [of s])
    fix i sc
    assume "bt_get (st_staged t) i = Some sc"
    then show "bt_get (st_staged s) i = Some sc \<and> head_id (stg_candidate_head sc) \<noteq> head_id (st_head t)"
      using wf won(1) by (auto simp: won(6) canonical_wf_def staged_wf_def split: if_splits)
  qed (use wf st(3) in \<open>auto simp: won(6) canonical_wf_def\<close>)
  ultimately show ?thesis
    by (simp add: canonical_wf_def)
qed (use wf in simp_all)

lemma canonical_wf_configuration:
  assumes "publish_configuration s input = Inr (t, outcome)" and wf: "canonical_wf s"
  shows "canonical_wf t"
  using assms(1)
proof (cases rule: publish_configuration_cases)
  case (won g e)
  let ?i = "cr_candidate_head_id input"
  from wf won(6) have fresh: "?i \<notin> dom (bt_get (st_head_chain s))"
    by (auto simp: canonical_wf_def chain_wf_def)
  have "history_wf t"
    using wf by (simp add: won(7) canonical_wf_def history_wf_def)
  moreover have "chain_wf t"
    using wf won(5) fresh
    by (auto simp: won(7) canonical_wf_def chain_wf_def intro: chain_linked_extend)
  moreover have "staged_wf t"
  proof (rule staged_wf_new_head [of s])
    fix i sc
    assume "bt_get (st_staged t) i = Some sc"
    then have sc: "bt_get (st_staged s) i = Some sc"
      by (simp add: won(7))
    then have "head_id (stg_candidate_head sc) \<in> bs_set (led_heads (st_identities s))"
      using wf unfolding canonical_wf_def staged_wf_def by blast
    with sc won(6) show "bt_get (st_staged s) i = Some sc \<and>
        head_id (stg_candidate_head sc) \<noteq> head_id (st_head t)"
      by (auto simp: won(7))
  qed (use wf fresh in \<open>auto simp: won(7) canonical_wf_def\<close>)
  ultimately show ?thesis
    by (simp add: canonical_wf_def)
qed (use wf in simp)

lemma canonical_wf_step: "canonical_wf s \<Longrightarrow> step s input = Inr r \<Longrightarrow> canonical_wf (step_next r)"
  by (erule step_kinds)
    (auto simp: canonical_wf_quiet
      intro: canonical_wf_stage canonical_wf_cas canonical_wf_configuration)

interpretation canonical: machine_invariant any_input "\<lambda>_. True" canonical_wf
  by unfold_locales (auto intro: canonical_wf_genesis canonical_wf_step)

lemmas canonical_wf_reachable = canonical.holds

section \<open>The executable checks succeed\<close>

lemma next_generation_get:
  "next_generation b = Inr g \<Longrightarrow> counter_get g = counter_get (body_generation b) + 1"
  by (auto simp: next_generation_def counter_next_Inr)

lemma chain_walk_linked:
  assumes "chain_linked chain" "bt_get chain h = Some b"
  shows "\<exists>cursor. chain_walk chain b steps
      = Inr (cursor, steps + (counter_get (body_generation b) - 1)) \<and>
      body_generation cursor = counter_FIRST"
  using assms(2)
proof (induction "cnt (body_generation b)" arbitrary: b h steps rule: less_induct)
  case less
  show ?case
  proof (cases "body_predecessor b")
    case None
    with assms(1) less.prems have "body_generation b = counter_FIRST"
      unfolding chain_linked_def by blast
    with None show ?thesis
      by (subst chain_walk.simps) (simp add: counter_FIRST_def)
  next
    case (Some p)
    with assms(1) less.prems obtain pb where pb: "bt_get chain p = Some pb"
        "next_generation pb = Inr (body_generation b)"
      unfolding chain_linked_def by blast
    from less.hyps [OF _ pb(1), of "steps + 1"] next_generation_unat [OF pb(2)] obtain cursor where
      "chain_walk chain pb (steps + 1)
         = Inr (cursor, steps + 1 + (counter_get (body_generation pb) - 1))"
      "body_generation cursor = counter_FIRST"
      by auto
    with Some pb next_generation_get [OF pb(2)] show ?thesis
      by (subst chain_walk.simps) (simp add: algebra_simps)
  qed
qed

lemma chain_wf_continuous: "chain_wf s \<Longrightarrow> assert_head_chain_continuous s = Inr ()"
  using chain_walk_linked [of "st_head_chain s" "head_id (st_head s)" "st_body s" 0]
  by (auto simp: chain_wf_def assert_head_chain_continuous_def counter_FIRST_def
      simp del: rbind_Inr_iff)

lemma numbered_Cons:
  "map f (x # xs) = [n..<n + length (x # xs)] \<Longrightarrow>
     f x = n \<and> map f xs = [Suc n..<Suc n + length xs]"
  by (simp add: upt_conv_Cons del: upt_Suc)

lemma counter_next_total:
  assumes "Suc (cnt c) < 2 ^ 64"
  shows "\<exists>c'. counter_next field c = Inr c' \<and> cnt c' = Suc (cnt c)"
proof -
  have "counter_get c \<noteq> max_value"
    using assms by (auto simp: unsigned_minus_1_eq_mask mask_eq_exp_minus_1)
  then show ?thesis
    by (auto simp: counter_next_Inr unat_succ)
qed

lemma check_decisions_numbered:
  assumes "map (cnt \<circ> dec_sequence) ds = [cnt n..<cnt n + length ds]" "cnt n + length ds < 2 ^ 64"
  shows "\<exists>m. try_fold check_decision_sequence n ds = Inr m"
  using assms
proof (induction ds arbitrary: n)
  case (Cons d ds)
  from numbered_Cons [OF Cons.prems(1)] have d: "dec_sequence d = n"
      "map (cnt \<circ> dec_sequence) ds = [Suc (cnt n)..<Suc (cnt n) + length ds]"
    by (auto simp: counter_eq_iff comp_def simp del: upt_Suc)
  from counter_next_total [of n "''DecisionSequence''"] Cons.prems(2) obtain n' where
    "counter_next ''DecisionSequence'' n = Inr n'" "cnt n' = Suc (cnt n)"
    by auto
  with Cons.IH [of n'] Cons.prems(2) d show ?case
    by (simp add: check_decision_sequence_def comp_def del: upt_Suc)
qed simp

lemma check_commits_numbered:
  assumes "map (cnt \<circ> rcr_repository_sequence) rs = [cnt n..<cnt n + length rs]"
    "cnt n + length rs < 2 ^ 64"
  shows "\<exists>m. try_fold check_repository_sequence n rs = Inr m"
  using assms
proof (induction rs arbitrary: n)
  case (Cons r rs)
  from numbered_Cons [OF Cons.prems(1)] have r: "rcr_repository_sequence r = n"
      "map (cnt \<circ> rcr_repository_sequence) rs = [Suc (cnt n)..<Suc (cnt n) + length rs]"
    by (auto simp: counter_eq_iff comp_def simp del: upt_Suc)
  from counter_next_total [of n "''RepositorySequence''"] Cons.prems(2) obtain n' where
    "counter_next ''RepositorySequence'' n = Inr n'" "cnt n' = Suc (cnt n)"
    by auto
  with Cons.IH [of n'] Cons.prems(2) r show ?case
    by (simp add: check_repository_sequence_def comp_def del: upt_Suc)
qed simp

lemma history_wf_gap_free: "history_wf s \<Longrightarrow> assert_sequences_gap_free s = Inr ()"
  using check_decisions_numbered [of "st_decisions s" counter_FIRST]
    check_commits_numbered [of "st_commits s" counter_FIRST]
  by (auto simp: history_wf_def assert_sequences_gap_free_def counter_FIRST_def)

section \<open>The history only grows\<close>

lemma step_history:
  assumes "step s input = Inr r" "canonical_wf s"
  obtains
    (same) "st_decisions (step_next r) = st_decisions s" "st_commits (step_next r) = st_commits s"
      "st_roots (step_next r) = st_roots s"
  | (published) request sb where
      "input = In_CompareAndSwap request"
      "bt_get (st_staged s) (cas_batch request) = Some sb" "fits (st_head s) sb"
      "step_next r = install_batch s (cas_batch request) sb"
      "step_output r = Out_HeadTransition (Won (head_id (stg_candidate_head sb)) (cas_batch request))"
  using assms(1)
proof (cases rule: step_kinds)
  case quiet
  then show ?thesis
    by (intro same) (simp_all add: same_canonical_def)
next
  case (staging request outcome)
  from staging(2) show ?thesis
    by (cases rule: stage_cases) (auto intro: same)
next
  case (swap request outcome)
  from swap(2) show ?thesis
  proof (cases rule: compare_and_swap_cases)
    case (won sb)
    then have "fits (st_head s) sb" "batch_id (stg_batch sb) = cas_batch request"
      using assms(2) unfolding canonical_wf_def staged_wf_def by auto
    with won swap assms(1) show ?thesis
      by (intro published [of request sb]) auto
  qed (auto intro: same)
next
  case (configuration request outcome)
  from configuration(2) show ?thesis
    by (cases rule: publish_configuration_cases) (auto intro: same)
qed

lemma step_append_only:
  assumes "step s input = Inr r" "canonical_wf s"
  shows "prefix (st_decisions s) (st_decisions (step_next r)) \<and>
      prefix (st_commits s) (st_commits (step_next r))"
  using assms by (cases rule: step_history) auto

lemma outcome_of_decisions:
  assumes "history_wf s"
  shows "outcome_of s tx = map_of (map outcome_entry (st_decisions s)) tx"
proof -
  have "distinct (map fst (map outcome_entry (st_decisions s)))"
    using assms by (simp add: history_wf_def outcome_entry_def comp_def)
  then have "map_of (rev (map outcome_entry (st_decisions s))) = map_of (map outcome_entry (st_decisions s))"
    by (subst map_of_inject_set) (simp_all flip: rev_map)
  with assms show ?thesis
    by (simp add: outcome_of_def history_wf_def bt_get_of_list)
qed

end
