(* ===== verification/Fold_Correctness.thy ===== *)
theory Fold_Correctness
  imports Repo_Roots
begin

text \<open>
  The reference folder is correct: its intent map answers every intent at its address, its net
  effects are exactly what running the intents in order changes, and a target survives in the map
  exactly when the effects change it. The contract of \<open>trait NetEffectFolder\<close> is the locale
  \<open>net_effect_folder\<close>.
\<close>

section \<open>The diff, key by key\<close>

lemma diff_refs:
  "bt_get (eff_refs (diff b s)) name =
     (if bt_get (scr_refs s) name = bt_get (basis_refs b) name then None
      else case bt_get (scr_refs s) name of None \<Rightarrow> Some Delete_Ref | Some v \<Rightarrow> Some (Set_Ref v))"
  by (auto simp: diff_def domIff split: option.splits)

lemma diff_retention:
  "bt_get (eff_retention (diff b s)) root =
     (if bt_get (scr_retention s) root = bt_get (basis_retention b) root then None
      else case bt_get (scr_retention s) root of
        None \<Rightarrow> Some Remove_Root | Some _ \<Rightarrow> Some Add_Root)"
  by (auto simp: diff_def domIff split: option.splits)

lemma diff_outbox:
  "bt_get (eff_outbox (diff b s)) key =
     (if bt_get (scr_outbox s) key = bt_get (basis_outbox b) key then None
      else bt_get (scr_outbox s) key)"
  by (auto simp: diff_def split: option.splits)

lemmas diff_simps = diff_refs diff_retention diff_outbox

section \<open>The intent map\<close>

definition intent_addresses :: "transaction_request \<Rightarrow> intent_address list" where
  "intent_addresses request = map fst (addressed_intents request)"

lemma length_addressed_intents: "length (addressed_intents request) = intent_count request"
proof -
  have "length (concat (map addressed_in (enumerate n sts))) = sum_list (map (length \<circ> stmt_intents) sts)" for n sts
    by (induction sts arbitrary: n) (simp_all add: addressed_in_def)
  then show ?thesis
    by (simp add: addressed_intents_def intent_count_def)
qed

lemma fold_intent_mappings:
  assumes "fold_intent request acc (a, i) = Inr acc'"
  shows "\<exists>d. acc_mappings acc' = acc_mappings acc @ [\<lparr>mapping_address = a, mapping_disposition = d\<rparr>]"
  using assms
  by (auto simp: fold_intent_def push_mapping_def Let_def
      split: prod.splits applied.splits mismatch_policy.splits)

lemma try_fold_mappings:
  "try_fold (fold_intent request) acc xs = Inr acc' \<Longrightarrow>
     map mapping_address (acc_mappings acc') = map mapping_address (acc_mappings acc) @ map fst xs"
proof (induction xs arbitrary: acc)
  case (Cons x xs)
  obtain a i where x: "x = (a, i)"
    by (cases x)
  with Cons.prems obtain acc1 where "fold_intent request acc (a, i) = Inr acc1"
    "try_fold (fold_intent request) acc1 xs = Inr acc'"
    by auto
  with Cons.IH [of acc1] fold_intent_mappings [of request acc a i acc1] x show ?case
    by auto
qed simp

lemma retire_one_address [simp]: "mapping_address (retire_one e contributed (n, m)) = mapping_address m"
  by (simp add: retire_one_def split: intent_disposition.splits bool.splits)

lemma retire_absorbed_addresses:
  "map mapping_address (retire_absorbed e contributed ms) = map mapping_address ms"
proof -
  have "map mapping_address (map (retire_one e contributed) (enumerate n ms)) = map mapping_address ms" for n
    by (induction ms arbitrary: n) simp_all
  then show ?thesis
    by (simp add: retire_absorbed_def)
qed

lemma fold_request_cases:
  obtains (aborted) code address where
      "try_fold (fold_intent request) (fold_start b) (addressed_intents request) = Inl (code, address)"
      "report_outcome (fold_request b request) = Aborted code address"
      "report_mappings (fold_request b request) =
         map (\<lambda>a. \<lparr>mapping_address = a, mapping_disposition = TransactionAborted\<rparr>) (intent_addresses request)"
  | (folded) acc where
      "try_fold (fold_intent request) (fold_start b) (addressed_intents request) = Inr acc"
      "report_outcome (fold_request b request) = Folded (diff b (acc_scratch acc))"
      "report_mappings (fold_request b request) =
         retire_absorbed (diff b (acc_scratch acc)) (acc_contributed acc) (acc_mappings acc)"
proof (cases "try_fold (fold_intent request) (fold_start b) (addressed_intents request)")
  case (Inl e)
  then show ?thesis
    by (cases e) (auto intro!: aborted simp: fold_request_def intent_addresses_def)
next
  case (Inr acc)
  then show ?thesis
    by (auto intro!: folded simp: fold_request_def Let_def)
qed

lemma fold_request_addresses:
  "map mapping_address (report_mappings (fold_request b request)) = intent_addresses request"
proof (cases b request rule: fold_request_cases)
  case (folded acc)
  from try_fold_mappings [OF this(1)] show ?thesis
    by (simp add: folded(3) retire_absorbed_addresses fold_start_def intent_addresses_def)
qed (simp add: comp_def)

section \<open>The net effects are the effect of running the intents\<close>

definition run_intents :: "fold_basis \<Rightarrow> (intent_address \<times> intent) list \<Rightarrow> scratch" where
  "run_intents b xs = foldl (\<lambda>s (_, i). fst (apply_intent s i)) (scratch_from_basis b) xs"

lemma try_fold_run:
  "try_fold (fold_intent request) acc xs = Inr acc' \<Longrightarrow>
     acc_scratch acc' = foldl (\<lambda>s (_, i). fst (apply_intent s i)) (acc_scratch acc) xs"
proof (induction xs arbitrary: acc)
  case (Cons x xs)
  then show ?case
    by (cases x) (auto simp: fold_intent_scratch)
qed simp

lemma folded_diff:
  assumes "report_outcome (fold_request b request) = Folded e"
  shows "e = diff b (run_intents b (addressed_intents request))"
    "scratch_wf b (run_intents b (addressed_intents request))"
proof -
  from assms obtain acc where
    acc: "try_fold (fold_intent request) (fold_start b) (addressed_intents request) = Inr acc"
      "e = diff b (acc_scratch acc)"
    by (cases b request rule: fold_request_cases) auto
  from try_fold_run [OF acc(1)] have s: "acc_scratch acc = run_intents b (addressed_intents request)"
    by (simp add: run_intents_def fold_start_def)
  show "e = diff b (run_intents b (addressed_intents request))"
    by (simp add: acc(2) s)
  show "scratch_wf b (run_intents b (addressed_intents request))"
    using fold_scratch_wf [OF acc(1)] by (simp add: s)
qed

lemma folded_applies:
  assumes "report_outcome (fold_request (basis_of roots) request) = Folded e"
  shows "apply_effects roots e
    = Inr (install_scratch roots (run_intents (basis_of roots) (addressed_intents request)))"
  using diff_replays [OF folded_diff(2) [OF assms]] folded_diff(1) [OF assms] by simp

section \<open>Surviving intents\<close>

lemma apply_intent_unchanged:
  "apply_intent s i = (t, outcome) \<Longrightarrow> \<forall>target. outcome \<noteq> Changed target \<Longrightarrow> t = s"
  by (induction s i rule: apply_intent.induct) (auto simp: Let_def split: if_splits option.splits)

lemma fold_intent_cases:
  assumes "fold_intent request acc (a, i) = Inr acc'"
  obtains (changed) target where
      "apply_intent (acc_scratch acc) i = (acc_scratch acc', Changed target)"
      "acc_mappings acc' = acc_mappings acc @ [\<lparr>mapping_address = a, mapping_disposition = Surviving target\<rparr>]"
      "acc_contributed acc' = bt_insert target (length (acc_mappings acc)) (acc_contributed acc)"
  | (unchanged) d where
      "acc_scratch acc' = acc_scratch acc" "\<forall>target. d \<noteq> Surviving target"
      "acc_mappings acc' = acc_mappings acc @ [\<lparr>mapping_address = a, mapping_disposition = d\<rparr>]"
      "acc_contributed acc' = acc_contributed acc"
proof -
  obtain t outcome where app: "apply_intent (acc_scratch acc) i = (t, outcome)"
    by fastforce
  show ?thesis
  proof (cases outcome)
    case (Changed target)
    with app assms show ?thesis
      by (intro changed) (auto simp: fold_intent_def push_mapping_def Let_def)
  next
    case (Applied_Absorbed reason)
    with app assms apply_intent_unchanged [OF app] show ?thesis
      by (intro unchanged [of "Absorbed reason"]) (auto simp: fold_intent_def push_mapping_def Let_def)
  next
    case (Mismatch code)
    with apply_intent_unchanged [OF app] have "t = acc_scratch acc"
      by simp
    with app assms Mismatch show ?thesis
      by (intro unchanged [of "mapping_disposition (last (acc_mappings acc'))"];
          cases "statement_policy request a")
        (auto simp: fold_intent_def push_mapping_def Let_def)
  qed
qed

text \<open>
  The accumulator of the fold: the writer recorded for a target is a position whose mapping survives
  with it, every surviving mapping is recorded or superseded by a later one, and a target with no
  recorded writer has its basis value.
\<close>

definition writers_wf :: "intent_mapping list \<Rightarrow> (effect_target, nat) btree_map \<Rightarrow> bool" where
  "writers_wf mappings contributed \<longleftrightarrow>
     (\<forall>target n. bt_get contributed target = Some n \<longrightarrow>
        n < length mappings \<and> mapping_disposition (mappings ! n) = Surviving target) \<and>
     (\<forall>n < length mappings. \<forall>target. mapping_disposition (mappings ! n) = Surviving target \<longrightarrow>
        target \<in> dom (bt_get contributed))"

definition touched :: "fold_basis \<Rightarrow> scratch \<Rightarrow> (effect_target, nat) btree_map \<Rightarrow> bool" where
  "touched b s contributed \<longleftrightarrow>
     (\<forall>name. Target_Ref name \<notin> dom (bt_get contributed) \<longrightarrow>
        bt_get (scr_refs s) name = bt_get (basis_refs b) name) \<and>
     (\<forall>stream. Target_ForgeStream stream \<in> dom (bt_get contributed) \<longleftrightarrow>
        stream \<in> dom (bt_get (scr_forge_events s))) \<and>
     (\<forall>root. Target_Retention root \<notin> dom (bt_get contributed) \<longrightarrow>
        bt_get (scr_retention s) root = bt_get (basis_retention b) root) \<and>
     (\<forall>key. Target_Outbox key \<notin> dom (bt_get contributed) \<longrightarrow>
        bt_get (scr_outbox s) key = bt_get (basis_outbox b) key)"

lemma touched_step:
  "apply_intent s i = (t, Changed target) \<Longrightarrow> touched b s contributed \<Longrightarrow>
     touched b t (bt_insert target n contributed)"
  by (induction s i rule: apply_intent.induct)
    (auto simp: touched_def Let_def bt_get_bs_insert simp del: domIff split: if_splits option.splits)

lemma fold_writers:
  assumes "try_fold (fold_intent request) (fold_start b) xs = Inr acc"
  shows "writers_wf (acc_mappings acc) (acc_contributed acc) \<and>
    touched b (acc_scratch acc) (acc_contributed acc)"
  using assms
proof (rule try_fold_invariant)
  show "writers_wf (acc_mappings (fold_start b)) (acc_contributed (fold_start b)) \<and>
      touched b (acc_scratch (fold_start b)) (acc_contributed (fold_start b))"
    by (simp add: writers_wf_def touched_def fold_start_def scratch_from_basis_def)
next
  fix acc x acc'
  assume wf: "writers_wf (acc_mappings acc) (acc_contributed acc) \<and>
      touched b (acc_scratch acc) (acc_contributed acc)"
    and "fold_intent request acc x = Inr acc'"
  then obtain a i where step: "fold_intent request acc (a, i) = Inr acc'"
    by (cases x) auto
  then show "writers_wf (acc_mappings acc') (acc_contributed acc') \<and>
      touched b (acc_scratch acc') (acc_contributed acc')"
  proof (cases rule: fold_intent_cases)
    case (changed target)
    with wf touched_step [OF changed(1)] show ?thesis
      by (auto simp: writers_wf_def nth_append less_Suc_eq)
  next
    case (unchanged d)
    with wf show ?thesis
      by (auto simp: writers_wf_def nth_append less_Suc_eq)
  qed
qed

lemma target_changed_touched:
  assumes "touched b s contributed" "target \<notin> dom (bt_get contributed)"
  shows "\<not> target_changed (diff b s) target"
proof (cases target)
  case (Target_Ref name)
  with assms have "bt_get (scr_refs s) name = bt_get (basis_refs b) name"
    unfolding touched_def by blast
  with Target_Ref show ?thesis
    by (simp add: domIff diff_refs)
next
  case (Target_ForgeStream stream)
  with assms have "stream \<notin> dom (bt_get (scr_forge_events s))"
    unfolding touched_def by blast
  with Target_ForgeStream show ?thesis
    by (simp add: domIff diff_def)
next
  case (Target_Retention root)
  with assms have "bt_get (scr_retention s) root = bt_get (basis_retention b) root"
    unfolding touched_def by blast
  with Target_Retention show ?thesis
    by (simp add: domIff diff_retention)
next
  case (Target_Outbox key)
  with assms have "bt_get (scr_outbox s) key = bt_get (basis_outbox b) key"
    unfolding touched_def by blast
  with Target_Outbox show ?thesis
    by (simp add: domIff diff_outbox)
qed

lemma retire_one_Surviving:
  "mapping_disposition (retire_one e contributed (n, m)) = Surviving target \<longleftrightarrow>
     mapping_disposition m = Surviving target \<and> target_changed e target \<and>
     (is_forge_target target \<or> bt_get contributed target = Some n)"
  by (cases "mapping_disposition m") (auto simp: retire_one_def split: bool.splits)

lemma nth_retire_absorbed:
  "n < length ms \<Longrightarrow> retire_absorbed e contributed ms ! n = retire_one e contributed (n, ms ! n)"
  by (simp add: retire_absorbed_def nth_enumerate_eq)

lemma length_retire_absorbed [simp]: "length (retire_absorbed e contributed ms) = length ms"
  by (simp add: retire_absorbed_def)

text \<open>A surviving target is a changed one; apart from forge streams it survives at one place only.\<close>

lemma folded_survivors:
  assumes "report_outcome (fold_request b request) = Folded e"
  shows "target_changed e target \<longleftrightarrow>
      (\<exists>n < length (report_mappings (fold_request b request)).
         mapping_disposition (report_mappings (fold_request b request) ! n) = Surviving target)"
    "\<lbrakk>n < length (report_mappings (fold_request b request));
      mapping_disposition (report_mappings (fold_request b request) ! n) = Surviving target;
      m < length (report_mappings (fold_request b request));
      mapping_disposition (report_mappings (fold_request b request) ! m) = Surviving target;
      \<not> is_forge_target target\<rbrakk> \<Longrightarrow> m = n"
proof -
  from assms obtain acc where
    acc: "try_fold (fold_intent request) (fold_start b) (addressed_intents request) = Inr acc"
      "e = diff b (acc_scratch acc)"
      "report_mappings (fold_request b request) = retire_absorbed e (acc_contributed acc) (acc_mappings acc)"
    by (cases b request rule: fold_request_cases) auto
  from fold_writers [OF acc(1)] have wf: "writers_wf (acc_mappings acc) (acc_contributed acc)"
    and t: "touched b (acc_scratch acc) (acc_contributed acc)"
    by auto
  show "m = n" if "n < length (report_mappings (fold_request b request))"
      "mapping_disposition (report_mappings (fold_request b request) ! n) = Surviving target"
      "m < length (report_mappings (fold_request b request))"
      "mapping_disposition (report_mappings (fold_request b request) ! m) = Surviving target"
      "\<not> is_forge_target target"
    using that by (auto simp: acc(3) nth_retire_absorbed retire_one_Surviving)
  show "target_changed e target \<longleftrightarrow>
      (\<exists>n < length (report_mappings (fold_request b request)).
         mapping_disposition (report_mappings (fold_request b request) ! n) = Surviving target)"
  proof
    assume changed: "target_changed e target"
    with target_changed_touched [OF t, of target] acc(2)
    obtain n where "bt_get (acc_contributed acc) target = Some n"
      by auto
    with wf changed show "\<exists>n < length (report_mappings (fold_request b request)).
        mapping_disposition (report_mappings (fold_request b request) ! n) = Surviving target"
      by (intro exI [of _ n]) (auto simp: acc(3) writers_wf_def nth_retire_absorbed retire_one_Surviving)
  next
    assume "\<exists>n < length (report_mappings (fold_request b request)).
        mapping_disposition (report_mappings (fold_request b request) ! n) = Surviving target"
    then show "target_changed e target"
      by (auto simp: acc(3) nth_retire_absorbed retire_one_Surviving)
  qed
qed

section \<open>The contract of a folder\<close>

locale net_effect_folder =
  fixes fold :: "fold_basis \<Rightarrow> transaction_request \<Rightarrow> fold_report"
  assumes addresses: "map mapping_address (report_mappings (fold b request)) = intent_addresses request"
    and aborts: "report_outcome (fold b request) = Aborted code address \<Longrightarrow>
      m \<in> set (report_mappings (fold b request)) \<Longrightarrow> mapping_disposition m = TransactionAborted"
    and applies: "report_outcome (fold (basis_of roots) request) = Folded e \<Longrightarrow>
      apply_effects roots e
        = Inr (install_scratch roots (run_intents (basis_of roots) (addressed_intents request)))"
    and survivors: "report_outcome (fold b request) = Folded e \<Longrightarrow>
      target_changed e target \<longleftrightarrow>
        Surviving target \<in> mapping_disposition ` set (report_mappings (fold b request))"
begin

lemma total: "is_total_for (fold b request) request"
  using arg_cong [OF addresses [of b request], of length]
  by (simp add: is_total_for_def intent_addresses_def length_addressed_intents)

text \<open>Two folders that fold a request leave the same roots.\<close>

lemma applies_unique:
  assumes "report_outcome (fold (basis_of roots) request) = Folded e"
    and "report_outcome (fold_request (basis_of roots) request) = Folded e'"
  shows "apply_effects roots e = apply_effects roots e'"
  using applies [OF assms(1)] folded_applies [OF assms(2)] by simp

end

interpretation reference: net_effect_folder fold_request
proof
  show "map mapping_address (report_mappings (fold_request b request)) = intent_addresses request" for b request
    by (rule fold_request_addresses)
  show "mapping_disposition m = TransactionAborted"
    if "report_outcome (fold_request b request) = Aborted code address"
      "m \<in> set (report_mappings (fold_request b request))" for b request code address m
    using that by (cases b request rule: fold_request_cases) auto
  show "apply_effects roots e
      = Inr (install_scratch roots (run_intents (basis_of roots) (addressed_intents request)))"
    if "report_outcome (fold_request (basis_of roots) request) = Folded e" for roots request e
    using that by (rule folded_applies)
  show "target_changed e target \<longleftrightarrow>
      Surviving target \<in> mapping_disposition ` set (report_mappings (fold_request b request))"
    if "report_outcome (fold_request b request) = Folded e" for b request e target
    unfolding folded_survivors(1) [OF that] by (auto simp: set_conv_nth image_iff)
qed

end
