(* ===== verification/Ancestry.thy ===== *)
theory Ancestry
  imports Repo_State
begin

text \<open>
  The stack-based ancestry walk computes the closure of the parent relation, on cyclic and
  incomplete object maps too: the fast-forward test is reachability.
\<close>

definition parent_of :: "('v \<Rightarrow> 'k list) \<Rightarrow> ('k::linorder, 'v) btree_map \<Rightarrow> ('k \<times> 'k) set" where
  "parent_of ps view = {(x, y). \<exists>r. bt_get view x = Some r \<and> y \<in> set (ps r)}"

lemma ancestor_walk_sound:
  "ancestor_walk ps view candidate visited frontier \<Longrightarrow>
     \<exists>x \<in> set frontier. (x, candidate) \<in> (parent_of ps view)\<^sup>+"
proof (induction ps view candidate visited frontier rule: ancestor_walk.induct)
  case (2 ps view candidate visited current frontier)
  show ?case
  proof (cases "bt_contains visited current")
    case True
    with 2 show ?thesis
      by auto
  next
    case fresh: False
    show ?thesis
    proof (cases "bt_get view current")
      case None
      with fresh 2 show ?thesis
        by auto
    next
      case (Some r)
      have step: "(current, y) \<in> parent_of ps view" if "y \<in> set (ps r)" for y
        using Some that by (auto simp: parent_of_def)
      show ?thesis
      proof (cases "candidate \<in> set (ps r)")
        case True
        with step show ?thesis
          by auto
      next
        case False
        with fresh Some 2 obtain x where x: "x \<in> set (ps r) \<union> set frontier"
            "(x, candidate) \<in> (parent_of ps view)\<^sup>+"
          by auto
        with step show ?thesis
          by (auto intro: trancl_into_trancl2)
      qed
    qed
  qed
qed simp

lemma ancestor_walk_complete:
  assumes "\<not> ancestor_walk ps view candidate visited frontier"
    and "\<forall>v \<in> bs_set visited. \<forall>y. (v, y) \<in> parent_of ps view \<longrightarrow>
       y \<noteq> candidate \<and> y \<in> bs_set visited \<union> set frontier"
    and "x \<in> bs_set visited \<union> set frontier"
  shows "(x, candidate) \<notin> (parent_of ps view)\<^sup>+"
  using assms
proof (induction ps view candidate visited frontier rule: ancestor_walk.induct)
  case (1 ps view candidate visited)
  have "y \<noteq> candidate \<and> y \<in> bs_set visited" if "(x, y) \<in> (parent_of ps view)\<^sup>+" for y
    using that by (induction rule: trancl_induct) (use 1 in auto)
  then show ?case
    by blast
next
  case (2 ps view candidate visited current frontier)
  show ?case
  proof (cases "current \<in> bs_set visited")
    case True
    then show ?thesis
      using 2 by (intro 2(1)) auto
  next
    case fresh: False
    show ?thesis
    proof (cases "bt_get view current")
      case None
      then have "(current, y) \<notin> parent_of ps view" for y
        by (simp add: parent_of_def)
      with fresh None 2(4-6) show ?thesis
        by (intro 2(2)) (auto simp del: domIff)
    next
      case (Some r)
      then have succ: "(current, y) \<in> parent_of ps view \<longleftrightarrow> y \<in> set (ps r)" for y
        by (simp add: parent_of_def)
      from fresh Some 2(4) have "candidate \<notin> set (ps r)"
        by auto
      with fresh Some succ 2(4-6) show ?thesis
        by (intro 2(3)) (auto simp del: domIff)
    qed
  qed
qed

declare ancestor_walk.simps [simp del]

lemma ancestor_walk_iff:
  "ancestor_walk ps view candidate bt_empty [tip] \<longleftrightarrow> (tip, candidate) \<in> (parent_of ps view)\<^sup>+"
  using ancestor_walk_sound [of ps view candidate bt_empty "[tip]"]
    ancestor_walk_complete [of ps view candidate bt_empty "[tip]" tip]
  by auto

lemma reachable_in_iff: "reachable_in view tip candidate \<longleftrightarrow> (tip, candidate) \<in> (parent_of (\<lambda>ps. ps) view)\<^sup>*"
  by (auto simp: reachable_in_def ancestor_walk_iff rtrancl_eq_or_trancl)

lemma is_reachable_iff: "is_reachable s tip candidate \<longleftrightarrow> (tip, candidate) \<in> (parent_of obj_parents (st_objects s))\<^sup>*"
  by (auto simp: is_reachable_def ancestor_walk_iff rtrancl_eq_or_trancl)

end
