(* ===== verification/Witness_Soundness.thy ===== *)
theory Witness_Soundness
  imports Canonical_History Fold_Correctness Ancestry
begin

text \<open>
  Why a prepared capsule may be committed against roots other than its basis: the fold of a
  request reads and writes only the keys its intents name, the conflict witness records the basis
  value of every one of them, so when the recorded reads still hold, folding the request again
  against the new roots gives the same report.
\<close>

section \<open>The fold depends only on what its intents read\<close>

fun reads_agree :: "scratch \<Rightarrow> scratch \<Rightarrow> intent \<Rightarrow> bool" where
  "reads_agree s t (Intent_Ref r) \<longleftrightarrow>
     bt_get (scr_refs s) (ref_intent_target r) = bt_get (scr_refs t) (ref_intent_target r)"
| "reads_agree s t (Intent_Forge f) \<longleftrightarrow>
     position_of (scr_forge_positions s) (forge_stream f)
       = position_of (scr_forge_positions t) (forge_stream f)"
| "reads_agree s t (Intent_Retention (AddRoot root)) \<longleftrightarrow>
     bt_get (scr_retention s) root = bt_get (scr_retention t) root"
| "reads_agree s t (Intent_Retention (RemoveRoot root)) \<longleftrightarrow>
     bt_get (scr_retention s) root = bt_get (scr_retention t) root"
| "reads_agree s t (Intent_Outbox b) \<longleftrightarrow>
     bt_get (scr_outbox s) (outbox_delivery_key b) = bt_get (scr_outbox t) (outbox_delivery_key b)"

definition agree_on :: "intent set \<Rightarrow> scratch \<Rightarrow> scratch \<Rightarrow> bool" where
  "agree_on I s t \<longleftrightarrow> (\<forall>i \<in> I. reads_agree s t i) \<and> scr_forge_events s = scr_forge_events t"

text \<open>The keys no intent of a set writes still have their basis values.\<close>

definition untouched :: "intent set \<Rightarrow> fold_basis \<Rightarrow> scratch \<Rightarrow> bool" where
  "untouched I b s \<longleftrightarrow>
     (\<forall>name. (\<forall>r. Intent_Ref r \<in> I \<longrightarrow> ref_intent_target r \<noteq> name) \<longrightarrow>
        bt_get (scr_refs s) name = bt_get (basis_refs b) name) \<and>
     (\<forall>root. Intent_Retention (AddRoot root) \<notin> I \<and> Intent_Retention (RemoveRoot root) \<notin> I \<longrightarrow>
        bt_get (scr_retention s) root = bt_get (basis_retention b) root) \<and>
     (\<forall>key. (\<forall>o'. Intent_Outbox o' \<in> I \<longrightarrow> outbox_delivery_key o' \<noteq> key) \<longrightarrow>
        bt_get (scr_outbox s) key = bt_get (basis_outbox b) key)"

lemma reads_agree_pair:
  "reads_agree s t i \<Longrightarrow> scr_forge_events s = scr_forge_events t \<Longrightarrow>
     snd (apply_intent s i) = snd (apply_intent t i) \<and>
     scr_forge_events (fst (apply_intent s i)) = scr_forge_events (fst (apply_intent t i))"
  by (induction s i rule: apply_intent.induct) (auto simp: Let_def dom_def split: option.splits)

lemma reads_agree_step:
  assumes "reads_agree s t i" "reads_agree s t j"
  shows "reads_agree (fst (apply_intent s i)) (fst (apply_intent t i)) j"
  using assms
  by (induction s i rule: apply_intent.induct; induction s t j rule: reads_agree.induct)
    (auto simp: Let_def dom_def position_of_def bt_get_bs_insert split: option.splits)

lemma agree_on_step:
  "agree_on I s t \<Longrightarrow> i \<in> I \<Longrightarrow> agree_on I (fst (apply_intent s i)) (fst (apply_intent t i))"
  by (simp add: agree_on_def reads_agree_step reads_agree_pair)

lemma untouched_step: "untouched I b s \<Longrightarrow> i \<in> I \<Longrightarrow> untouched I b (fst (apply_intent s i))"
  by (induction s i rule: apply_intent.induct)
    (auto simp: untouched_def Let_def bt_get_bs_insert split: option.splits)

lemma untouched_start: "untouched I b (scratch_from_basis b)"
  by (simp add: untouched_def scratch_from_basis_def)

lemma diff_agree:
  assumes start: "agree_on I (scratch_from_basis b) (scratch_from_basis c)" and fin: "agree_on I s t"
    and "untouched I b s" "untouched I c t"
  shows "diff b s = diff c t"
proof -
  have agree: "reads_agree (scratch_from_basis b) (scratch_from_basis c) i \<and> reads_agree s t i"
    if "i \<in> I" for i
    using start fin that by (simp add: agree_on_def)
  have "eff_refs (diff b s) = eff_refs (diff c t)"
  proof (rule bt_eqI)
    fix name
    show "bt_get (eff_refs (diff b s)) name = bt_get (eff_refs (diff c t)) name"
      using assms(3,4) agree [of "Intent_Ref r" for r]
      by (cases "\<exists>r. Intent_Ref r \<in> I \<and> ref_intent_target r = name")
        (force simp: diff_refs scratch_from_basis_def, simp add: diff_refs untouched_def)
  qed
  moreover have "eff_retention (diff b s) = eff_retention (diff c t)"
  proof (rule bt_eqI)
    fix root
    show "bt_get (eff_retention (diff b s)) root = bt_get (eff_retention (diff c t)) root"
      using assms(3,4) agree [of "Intent_Retention (AddRoot root)"]
        agree [of "Intent_Retention (RemoveRoot root)"]
      by (cases "Intent_Retention (AddRoot root) \<in> I \<or> Intent_Retention (RemoveRoot root) \<in> I")
        (force simp: diff_retention scratch_from_basis_def, simp add: diff_retention untouched_def)
  qed
  moreover have "eff_outbox (diff b s) = eff_outbox (diff c t)"
  proof (rule bt_eqI)
    fix key
    show "bt_get (eff_outbox (diff b s)) key = bt_get (eff_outbox (diff c t)) key"
      using assms(3,4) agree [of "Intent_Outbox d" for d]
      by (cases "\<exists>d. Intent_Outbox d \<in> I \<and> outbox_delivery_key d = key")
        (force simp: diff_outbox scratch_from_basis_def, simp add: diff_outbox untouched_def)
  qed
  moreover have "eff_forge (diff b s) = eff_forge (diff c t)"
    using fin by (simp add: diff_def agree_on_def)
  ultimately show ?thesis
    by simp
qed

section \<open>Folding against two bases\<close>

definition acc_agree :: "intent set \<Rightarrow> fold_basis \<Rightarrow> fold_basis \<Rightarrow> fold_acc \<Rightarrow> fold_acc \<Rightarrow> bool" where
  "acc_agree I b c x y \<longleftrightarrow>
     agree_on I (acc_scratch x) (acc_scratch y) \<and> untouched I b (acc_scratch x) \<and>
     untouched I c (acc_scratch y) \<and> acc_mappings x = acc_mappings y \<and>
     acc_contributed x = acc_contributed y"

lemma fold_intent_agree:
  assumes "acc_agree I b c x y" "i \<in> I"
  shows "(\<exists>e. fold_intent request x (a, i) = Inl e \<and> fold_intent request y (a, i) = Inl e) \<or>
    (\<exists>x' y'. fold_intent request x (a, i) = Inr x' \<and> fold_intent request y (a, i) = Inr y' \<and>
       acc_agree I b c x' y')"
proof -
  from assms have agree: "agree_on I (acc_scratch x) (acc_scratch y)"
    and rest: "acc_mappings x = acc_mappings y" "acc_contributed x = acc_contributed y"
    by (simp_all add: acc_agree_def)
  let ?s = "fst (apply_intent (acc_scratch x) i)" and ?t = "fst (apply_intent (acc_scratch y) i)"
  from agree assms(2) have out: "snd (apply_intent (acc_scratch x) i) = snd (apply_intent (acc_scratch y) i)"
    by (simp add: agree_on_def reads_agree_pair)
  have next_: "agree_on I ?s ?t" "untouched I b ?s" "untouched I c ?t"
    using assms agree by (simp_all add: acc_agree_def agree_on_step untouched_step)
  show ?thesis
    using out next_ rest
    by (cases "snd (apply_intent (acc_scratch y) i)"; cases "statement_policy request a")
      (auto simp: fold_intent_def acc_agree_def push_mapping_def Let_def split_beta)
qed

lemma try_fold_agree:
  assumes "acc_agree I b c x y" "snd ` set xs \<subseteq> I"
  shows "(\<exists>e. try_fold (fold_intent request) x xs = Inl e \<and>
            try_fold (fold_intent request) y xs = Inl e) \<or>
    (\<exists>x' y'. try_fold (fold_intent request) x xs = Inr x' \<and>
       try_fold (fold_intent request) y xs = Inr y' \<and> acc_agree I b c x' y')"
  using assms
proof (induction xs arbitrary: x y)
  case (Cons p xs)
  obtain a i where p: "p = (a, i)"
    by (cases p)
  from Cons.prems p have "i \<in> I"
    by simp
  from fold_intent_agree [OF Cons.prems(1) this, of request a] show ?case
  proof (elim disjE exE conjE)
    fix x' y'
    assume "fold_intent request x (a, i) = Inr x'" "fold_intent request y (a, i) = Inr y'"
      "acc_agree I b c x' y'"
    with Cons.IH [of x' y'] Cons.prems(2) p show ?thesis
      by simp
  qed (simp add: p)
qed simp

definition intents_of :: "transaction_request \<Rightarrow> intent set" where
  "intents_of request = snd ` set (addressed_intents request)"

lemma fold_request_agree:
  assumes "agree_on (intents_of request) (scratch_from_basis b) (scratch_from_basis c)"
  shows "fold_request b request = fold_request c request"
proof -
  let ?I = "intents_of request"
  have start: "acc_agree ?I b c (fold_start b) (fold_start c)"
    using assms by (simp add: acc_agree_def fold_start_def untouched_start)
  from try_fold_agree [OF start, of "addressed_intents request" request]
  consider e where "try_fold (fold_intent request) (fold_start b) (addressed_intents request) = Inl e"
      "try_fold (fold_intent request) (fold_start c) (addressed_intents request) = Inl e"
    | x y where "try_fold (fold_intent request) (fold_start b) (addressed_intents request) = Inr x"
      "try_fold (fold_intent request) (fold_start c) (addressed_intents request) = Inr y"
      "acc_agree ?I b c x y"
    by (auto simp: intents_of_def)
  then show ?thesis
  proof cases
    case 2
    then have "diff b (acc_scratch x) = diff c (acc_scratch y)"
      using assms by (auto simp: acc_agree_def intro: diff_agree)
    with 2 show ?thesis
      by (simp add: fold_request_def acc_agree_def)
  qed (simp add: fold_request_def split_beta)
qed

section \<open>What a conflict witness records\<close>

fun recorded :: "repository_roots \<Rightarrow> conflict_witness \<Rightarrow> intent \<Rightarrow> bool" where
  "recorded roots w (Intent_Ref r) \<longleftrightarrow>
     bt_get (wit_refs w) (ref_intent_target r) = Some (bt_get (root_refs roots) (ref_intent_target r))"
| "recorded roots w (Intent_Forge f) \<longleftrightarrow>
     bt_get (wit_forge_positions w) (forge_stream f)
       = Some (position_of (root_forge_positions roots) (forge_stream f))"
| "recorded roots w (Intent_Retention (AddRoot root)) \<longleftrightarrow>
     (if root \<in> bs_set (root_retention roots) then root \<in> bs_set (wit_retention_present w)
      else root \<in> bs_set (wit_retention_absent w))"
| "recorded roots w (Intent_Retention (RemoveRoot root)) \<longleftrightarrow>
     (if root \<in> bs_set (root_retention roots) then root \<in> bs_set (wit_retention_present w)
      else root \<in> bs_set (wit_retention_absent w))"
| "recorded roots w (Intent_Outbox b) \<longleftrightarrow>
     bt_get (wit_outbox w) (outbox_delivery_key b)
       = Some (bt_get (root_outbox roots) (outbox_delivery_key b))"

lemmas observe_simps = observe_ref_def observe_root_def

lemma recorded_self: "recorded roots (observe_intent roots w i) i"
  by (induction roots w i rule: observe_intent.induct)
    (auto simp: observe_simps Let_def split: option.splits)

lemma recorded_mono: "recorded roots w j \<Longrightarrow> recorded roots (observe_intent roots w i) j"
  by (induction roots w i rule: observe_intent.induct; induction roots w j rule: recorded.induct)
    (auto simp: observe_simps Let_def split: option.splits)

lemma recorded_foldl:
  "i \<in> snd ` set xs \<or> recorded roots w i \<Longrightarrow>
     recorded roots (foldl (\<lambda>w (_, i). observe_intent roots w i) w xs) i"
  by (induction xs arbitrary: w) (auto simp: recorded_self recorded_mono)

lemma build_witness_recorded:
  "i \<in> intents_of request \<Longrightarrow> recorded (st_roots s) (build_witness s request g) i"
  by (simp add: build_witness_def intents_of_def recorded_foldl)

lemma refined_reads_hold_iff:
  "refined_reads_hold w roots \<longleftrightarrow>
     (\<forall>name v. bt_get (wit_refs w) name = Some v \<longrightarrow> bt_get (root_refs roots) name = v) \<and>
     (\<forall>stream p. bt_get (wit_forge_positions w) stream = Some p \<longrightarrow>
        position_of (root_forge_positions roots) stream = p) \<and>
     bs_set (wit_retention_present w) \<subseteq> bs_set (root_retention roots) \<and>
     bs_set (wit_retention_absent w) \<inter> bs_set (root_retention roots) = {} \<and>
     (\<forall>key v. bt_get (wit_outbox w) key = Some v \<longrightarrow> bt_get (root_outbox roots) key = v)"
proof -
  have entries: "list_all (\<lambda>(k, v). P k v) (bt_entries m) \<longleftrightarrow> (\<forall>k v. bt_get m k = Some v \<longrightarrow> P k v)"
    for P and m :: "('k::linorder, 'v) btree_map"
    by (auto simp: list_all_iff)
  show ?thesis
    unfolding refined_reads_hold_def entries by (auto simp: list_all_iff subset_iff disjoint_iff)
qed

lemma bs_get_eqI: "(x \<in> bs_set s \<longleftrightarrow> x \<in> bs_set t) \<Longrightarrow> bt_get s x = bt_get t x"
  by (cases "bt_get s x"; cases "bt_get t x") auto

lemma recorded_reads_agree:
  assumes "recorded roots w i" "refined_reads_hold w roots'"
  shows "reads_agree (scratch_from_basis (basis_of roots')) (scratch_from_basis (basis_of roots)) i"
proof (cases i)
  case (Intent_Retention r)
  then show ?thesis
    using assms unfolding refined_reads_hold_iff
    by (cases r) (auto simp: scratch_from_basis_def simp del: not_None_eq split: if_splits
        intro!: bs_get_eqI)
qed (use assms in \<open>auto simp: refined_reads_hold_iff scratch_from_basis_def\<close>)

lemma witness_sound:
  assumes "\<forall>i \<in> intents_of request. recorded roots w i" "refined_reads_hold w roots'"
  shows "fold_request (basis_of roots') request = fold_request (basis_of roots) request"
proof (rule fold_request_agree)
  show "agree_on (intents_of request) (scratch_from_basis (basis_of roots'))
      (scratch_from_basis (basis_of roots))"
    using assms recorded_reads_agree by (auto simp: agree_on_def) (simp add: scratch_from_basis_def)
qed

end
