(* ===== verification/Evaluations.thy ===== *)
theory Evaluations
  imports Witness_Soundness
begin

text \<open>
  What a preparation establishes: the policy check as a declarative condition on the effects, the
  facts behind a verdict to commit, and the frame of every step on seals and capsules, from which
  the invariants on prepared capsules follow.
\<close>

section \<open>What the policy check admits\<close>

definition may_update ::
  "repository_state \<Rightarrow> transaction_request \<Rightarrow> (git_oid, git_oid list) btree_map \<Rightarrow> ref_name \<Rightarrow>
     ref_effect \<Rightarrow> bool" where
  "may_update s request available name effect \<longleftrightarrow>
     (\<exists>scope. scope_of name = Some scope \<and>
        may_write_scope (capabilities_of (st_policy s) (req_principal request)) scope \<and>
        (case effect of
           Delete_Ref \<Rightarrow> \<not> is_protected (st_policy s) scope
         | Set_Ref new \<Rightarrow>
             (\<forall>old. bt_get (root_refs (st_roots s)) name = Some old \<longrightarrow>
                reachable_in available new old \<or>
                name \<in> bs_set (forced_refs request) \<and>
                cap_may_force (capabilities_of (st_policy s) (req_principal request)) \<and>
                \<not> is_protected (st_policy s) scope)))"

lemma check_ref_effect_None_iff:
  "check_ref_effect s request available (name, effect) = None \<longleftrightarrow>
     may_update s request available name effect"
  by (auto simp: check_ref_effect_def may_update_def Let_def split: option.splits ref_effect.splits)

definition event_backed :: "net_effects \<Rightarrow> forge_event_kind \<Rightarrow> bool" where
  "event_backed e event \<longleftrightarrow>
     (\<forall>target. required_ref_effect event = Some target \<longrightarrow>
        (\<exists>new. bt_get (eff_refs e) target = Some (Set_Ref new)))"

lemma check_event_None_iff: "check_event e event = None \<longleftrightarrow> event_backed e event"
  by (auto simp: check_event_def event_backed_def split: option.splits ref_effect.splits)

definition may_retain :: "principal_capabilities \<Rightarrow> retention_root \<Rightarrow> retention_effect \<Rightarrow> bool" where
  "may_retain capabilities root effect \<longleftrightarrow>
     (case effect of
        Add_Root \<Rightarrow> root_class root = LegalHold \<longrightarrow> cap_may_add_legal_hold capabilities
      | Remove_Root \<Rightarrow> is_ordinarily_removable (root_class root))"

lemma check_retention_effect_None_iff:
  "check_retention_effect capabilities (root, effect) = None \<longleftrightarrow> may_retain capabilities root effect"
  by (auto simp: check_retention_effect_def may_retain_def split: retention_effect.splits)

definition policy_admits ::
  "repository_state \<Rightarrow> transaction_request \<Rightarrow> net_effects \<Rightarrow> (git_oid, git_oid list) btree_map \<Rightarrow> bool" where
  "policy_admits s request e available \<longleftrightarrow>
     (\<forall>name effect. bt_get (eff_refs e) name = Some effect \<longrightarrow>
        may_update s request available name effect) \<and>
     (eff_forge e \<noteq> bt_empty \<longrightarrow>
        cap_may_publish_forge (capabilities_of (st_policy s) (req_principal request))) \<and>
     (\<forall>stream events event. bt_get (eff_forge e) stream = Some events \<longrightarrow> event \<in> set events \<longrightarrow>
        event_backed e event) \<and>
     (\<forall>root effect. bt_get (eff_retention e) root = Some effect \<longrightarrow>
        may_retain (capabilities_of (st_policy s) (req_principal request)) root effect)"

lemma first_some_entries:
  "first_some f (bt_entries m) = None \<longleftrightarrow> (\<forall>k v. bt_get m k = Some v \<longrightarrow> f (k, v) = None)"
  by (auto simp: first_some_None_iff)

lemma evaluate_policy_None_iff:
  "evaluate_policy s request e available = None \<longleftrightarrow> policy_admits s request e available"
proof -
  let ?c = "capabilities_of (st_policy s) (req_principal request)"
  have refs: "first_some (check_ref_effect s request available) (bt_entries (eff_refs e)) = None \<longleftrightarrow>
      (\<forall>name effect. bt_get (eff_refs e) name = Some effect \<longrightarrow>
         may_update s request available name effect)"
    by (simp add: first_some_entries check_ref_effect_None_iff)
  have events: "first_some (first_some (check_event e)) (bt_values (eff_forge e)) = None \<longleftrightarrow>
      (\<forall>stream events event. bt_get (eff_forge e) stream = Some events \<longrightarrow> event \<in> set events \<longrightarrow>
         event_backed e event)"
    by (simp add: first_some_None_iff check_event_None_iff Ball_def bt_values_iff) blast
  have roots: "first_some (check_retention_effect ?c) (bt_entries (eff_retention e)) = None \<longleftrightarrow>
      (\<forall>root effect. bt_get (eff_retention e) root = Some effect \<longrightarrow> may_retain ?c root effect)"
    by (simp add: first_some_entries check_retention_effect_None_iff)
  show ?thesis
    unfolding policy_admits_def refs [symmetric] events [symmetric] roots [symmetric]
    by (auto simp: evaluate_policy_def Let_def split: option.splits)
qed

text \<open>
  The part of it that speaks of the policy snapshot, the principal and the effects only, and so
  can be carried along to the moment of publication.
\<close>

definition authorised :: "policy_snapshot \<Rightarrow> principal_id \<Rightarrow> net_effects \<Rightarrow> bool" where
  "authorised policy who e \<longleftrightarrow>
     (\<forall>name effect. bt_get (eff_refs e) name = Some effect \<longrightarrow>
        (\<exists>scope. scope_of name = Some scope \<and> may_write_scope (capabilities_of policy who) scope \<and>
           (effect = Delete_Ref \<longrightarrow> \<not> is_protected policy scope))) \<and>
     (eff_forge e \<noteq> bt_empty \<longrightarrow> cap_may_publish_forge (capabilities_of policy who)) \<and>
     (\<forall>stream events event. bt_get (eff_forge e) stream = Some events \<longrightarrow> event \<in> set events \<longrightarrow>
        event_backed e event) \<and>
     (\<forall>root effect. bt_get (eff_retention e) root = Some effect \<longrightarrow>
        may_retain (capabilities_of policy who) root effect)"

lemma policy_admits_authorised:
  "policy_admits s request e available \<Longrightarrow> authorised (st_policy s) (req_principal request) e"
proof -
  have "\<exists>scope. scope_of name = Some scope \<and>
      may_write_scope (capabilities_of (st_policy s) (req_principal request)) scope \<and>
      (effect = Delete_Ref \<longrightarrow> \<not> is_protected (st_policy s) scope)"
    if "may_update s request available name effect" for name effect
    using that by (cases effect) (auto simp: may_update_def)
  then show "policy_admits s request e available \<Longrightarrow> ?thesis"
    unfolding policy_admits_def authorised_def by blast
qed

section \<open>What an evaluation that commits has established\<close>

lemma evaluate_Commit:
  assumes "ev_verdict (evaluate s request) = Verdict_Commit e"
  shows "req_schema request \<in> bs_set (pol_supported_schemas (st_policy s))"
    "intent_count request \<le> pol_max_intents_per_transaction (st_policy s)"
    "offers_durability (st_policy s) (req_durability request)"
    "\<forall>i \<in> intents_of request. \<forall>name. named_ref i = Some name \<longrightarrow> is_canonical name"
    "\<forall>oid \<in> set (named_objects request). oid_algorithm oid = st_object_format s"
    "\<forall>staged. bt_get (st_quarantine s) (req_tx_id request) = Some staged \<longrightarrow>
       (\<forall>q \<in> set (bt_values staged). is_identity_verified q)"
    "\<forall>oid \<in> set (named_objects request).
       oid \<in> dom (bt_get (available_objects s (req_tx_id request)))"
    "report_outcome (fold_request (basis_of (st_roots s)) request) = Folded e"
    "policy_admits s request e (available_objects s (req_tx_id request))"
    "ev_intent_map (evaluate s request)
       = report_mappings (fold_request (basis_of (st_roots s)) request)"
    "ev_object_closure (evaluate s request)
       = bs_extend (req_promised_closure request) (intent_objects request)"
  using assms
  by (auto simp: evaluate_def Let_def refused_before_fold_def list_ex_iff intents_of_def
      simp flip: evaluate_policy_None_iff
      split: if_splits option.splits fold_outcome.splits)

section \<open>Folded effects name only objects of the request\<close>

definition scratch_objects :: "fold_basis \<Rightarrow> git_oid set \<Rightarrow> scratch \<Rightarrow> bool" where
  "scratch_objects b objects s \<longleftrightarrow>
     (\<forall>name v. bt_get (scr_refs s) name = Some v \<longrightarrow>
        bt_get (basis_refs b) name = Some v \<or> v \<in> objects) \<and>
     (\<forall>root \<in> bs_set (scr_retention s). root \<in> bs_set (basis_retention b) \<or> root_object root \<in> objects)"

lemma scratch_objects_step:
  "scratch_objects b objects s \<Longrightarrow> (\<forall>oid. intent_object i = Some oid \<longrightarrow> oid \<in> objects) \<Longrightarrow>
     scratch_objects b objects (fst (apply_intent s i))"
  by (induction s i rule: apply_intent.induct)
    (auto simp: scratch_objects_def intent_object_def Let_def split: option.splits if_splits)

lemma set_intent_objects: "oid \<in> set (intent_objects request) \<longleftrightarrow>
    (\<exists>i \<in> intents_of request. intent_object i = Some oid)"
  by (force simp: intent_objects_def intents_of_def List.map_filter_def)

lemma folded_objects:
  assumes "report_outcome (fold_request b request) = Folded e"
  shows "bt_get (eff_refs e) name = Some (Set_Ref new) \<Longrightarrow> new \<in> set (intent_objects request)"
    "bt_get (eff_retention e) root = Some Add_Root \<Longrightarrow> root_object root \<in> set (intent_objects request)"
proof -
  from assms obtain acc where
    acc: "try_fold (fold_intent request) (fold_start b) (addressed_intents request) = Inr acc" and
    e: "e = diff b (acc_scratch acc)"
    by (auto simp: fold_request_def Let_def split: sum.splits prod.splits)
  have "scratch_objects b (set (intent_objects request)) (acc_scratch acc)"
    using acc
  proof (rule try_fold_invariant)
    show "scratch_objects b (set (intent_objects request)) (acc_scratch (fold_start b))"
      by (simp add: scratch_objects_def fold_start_def scratch_from_basis_def)
  next
    fix x ai y
    assume "scratch_objects b (set (intent_objects request)) (acc_scratch x)"
      "ai \<in> set (addressed_intents request)" "fold_intent request x ai = Inr y"
    moreover from this(2) have "snd ai \<in> intents_of request"
      by (simp add: intents_of_def)
    ultimately show "scratch_objects b (set (intent_objects request)) (acc_scratch y)"
      by (cases ai) (auto simp: fold_intent_scratch set_intent_objects intro!: scratch_objects_step)
  qed
  then have refs: "\<forall>name v. bt_get (scr_refs (acc_scratch acc)) name = Some v \<longrightarrow>
        bt_get (basis_refs b) name = Some v \<or> v \<in> set (intent_objects request)"
    and roots: "\<forall>root. bt_get (scr_retention (acc_scratch acc)) root = Some () \<longrightarrow>
        bt_get (basis_retention b) root = Some () \<or> root_object root \<in> set (intent_objects request)"
    by (auto simp: scratch_objects_def Ball_def)
  show "bt_get (eff_refs e) name = Some (Set_Ref new) \<Longrightarrow> new \<in> set (intent_objects request)"
    using refs by (auto simp: e diff_refs split: if_splits option.splits) metis
  show "bt_get (eff_retention e) root = Some Add_Root \<Longrightarrow> root_object root \<in> set (intent_objects request)"
    using roots by (auto simp: e diff_retention split: if_splits option.splits)
qed

section \<open>How a step changes seals and capsules\<close>

definition sealed_as :: "repository_state \<Rightarrow> transaction_request \<Rightarrow> bool" where
  "sealed_as s request \<longleftrightarrow>
     map_option sealrec_fields (seal_of s (req_tx_id request)) = Some (seal_fields_of request)"

lemma prepare_cases:
  assumes "prepare s input = Inr (t, i)"
  obtains c l where
    "sealed_as s (pr_request input)" "i = pr_capsule_id input"
    "pr_capsule_id input \<notin> bs_set (led_capsules (st_identities s))"
    "l = (st_identities s)\<lparr>led_capsules := bs_insert (pr_capsule_id input) (led_capsules (st_identities s))\<rparr>"
    "t = s\<lparr>st_identities := l, st_capsules := bt_insert i c (st_capsules s),
           st_seals := charge_preparation (req_tx_id (pr_request input)) (st_seals s)\<rparr>"
    "caps_tx_id c = req_tx_id (pr_request input)"
    "caps_canonical_request_digest c = req_canonical_request_digest (pr_request input)"
    "caps_durability c = req_durability (pr_request input)"
    "caps_verdict c = ev_verdict (evaluate s (pr_request input))"
    "caps_intent_map c = ev_intent_map (evaluate s (pr_request input))"
    "caps_object_closure c = ev_object_closure (evaluate s (pr_request input))"
    "caps_witness c = build_witness s (pr_request input) (pr_granularity input)"
    "caps_basis_head c = head_id (st_head s)"
proof -
  from assms obtain rec where rec: "bt_get (st_seals s) (req_tx_id (pr_request input)) = Some rec"
    by (auto simp: prepare_def Let_def split: option.splits)
  with assms show ?thesis
    by (intro that) (auto simp: prepare_def Let_def sealed_as_def seal_of_def introduce_capsule_def
        introduce_Inr_iff simp del: domIff split: if_splits)
qed

lemma sealed_as_charge [simp]:
  "map_option sealrec_fields (bt_get (charge_preparation tx seals) tx')
     = map_option sealrec_fields (bt_get seals tx')"
  by (simp add: charge_preparation_def split: option.splits)

lemma seal_seals:
  assumes "seal s input = Inr (t, outcome)"
  shows "sealed_as s request \<Longrightarrow> sealed_as t request" "st_capsules t = st_capsules s"
    "st_quarantine t = st_quarantine s"
  using assms
  by (auto simp: seal_def Let_def sealed_as_def seal_of_def split: if_splits option.splits)

lemma stage_objects_frame:
  assumes "stage_objects s input = Inr t"
  shows "st_seals t = st_seals s" "st_capsules t = st_capsules s"
  using assms by (auto simp: stage_objects_def Let_def split: if_splits)

lemma cancel_frame:
  "st_seals (step_next (cancel s request)) = st_seals s"
  "st_quarantine (step_next (cancel s request)) = st_quarantine s"
  "bt_get (st_capsules (step_next (cancel s request))) i = Some c \<Longrightarrow> bt_get (st_capsules s) i = Some c"
  by (auto simp: cancel_def Let_def split: cancellation_phase.splits option.splits if_splits)

lemma stage_frame:
  assumes "stage s input = Inr (t, outcome)"
  shows "st_seals t = st_seals s" "st_capsules t = st_capsules s" "st_quarantine t = st_quarantine s"
    "st_objects t = st_objects s"
  using assms by (auto elim: stage_cases)

lemma configuration_frame:
  assumes "publish_configuration s input = Inr (t, outcome)"
  shows "st_seals t = st_seals s" "st_capsules t = st_capsules s" "st_quarantine t = st_quarantine s"
    "st_objects t = st_objects s"
  using assms by (auto elim: publish_configuration_cases)

lemma cas_frame:
  assumes "compare_and_swap s input = Inr (t, outcome)"
  shows "st_seals t = st_seals s"
    "bt_get (st_capsules t) i = Some c \<Longrightarrow> bt_get (st_capsules s) i = Some c"
  using assms
  by (auto elim!: compare_and_swap_cases simp: install_batch_capsules split: option.splits if_splits)

lemma sealed_as_cong: "st_seals t = st_seals s \<Longrightarrow> sealed_as t request = sealed_as s request"
  by (simp add: sealed_as_def seal_of_def)

lemma step_sealed:
  assumes "step s input = Inr r" "sealed_as s request"
  shows "sealed_as (step_next r) request"
proof (cases input)
  case (In_Seal q)
  with assms show ?thesis
    by (auto dest: seal_seals(1))
next
  case (In_StageObjects q)
  with assms show ?thesis
    by (auto dest!: stage_objects_frame(1) sealed_as_cong)
next
  case (In_Prepare q)
  with assms(1) obtain i where "prepare s q = Inr (step_next r, i)"
    by auto
  then have "st_seals (step_next r) = charge_preparation (req_tx_id (pr_request q)) (st_seals s)"
    by (rule prepare_cases) simp
  with assms(2) show ?thesis
    by (simp add: sealed_as_def seal_of_def del: map_option_eq_Some)
next
  case (In_Decide q)
  with assms show ?thesis
    by (auto split: option.splits)
next
  case (In_Stage q)
  with assms show ?thesis
    by (auto dest!: stage_frame(1) sealed_as_cong)
next
  case (In_CompareAndSwap q)
  with assms show ?thesis
    by (auto dest!: cas_frame(1) sealed_as_cong)
next
  case (In_PublishConfiguration q)
  with assms show ?thesis
    by (auto dest!: configuration_frame(1) sealed_as_cong)
next
  case (In_Cancel q)
  with assms show ?thesis
    by (auto simp: sealed_as_cong [OF cancel_frame(1)])
qed

lemma step_capsules:
  assumes "step s input = Inr r" "bt_get (st_capsules (step_next r)) i = Some c"
  obtains (old) "bt_get (st_capsules s) i = Some c"
  | (prepared) request where "input = In_Prepare request" "sealed_as s (pr_request request)"
      "caps_tx_id c = req_tx_id (pr_request request)"
      "caps_canonical_request_digest c = req_canonical_request_digest (pr_request request)"
      "caps_verdict c = ev_verdict (evaluate s (pr_request request))"
      "caps_object_closure c = ev_object_closure (evaluate s (pr_request request))"
      "caps_witness c = build_witness s (pr_request request) (pr_granularity request)"
      "same_canonical s (step_next r)" "st_quarantine (step_next r) = st_quarantine s"
proof (cases input)
  case (In_Prepare request)
  with assms(1) obtain j where p: "prepare s request = Inr (step_next r, j)"
    by auto
  from p obtain c' l where p': "sealed_as s (pr_request request)" "j = pr_capsule_id request"
    "step_next r = s\<lparr>st_identities := l, st_capsules := bt_insert j c' (st_capsules s),
       st_seals := charge_preparation (req_tx_id (pr_request request)) (st_seals s)\<rparr>"
    "caps_tx_id c' = req_tx_id (pr_request request)"
    "caps_canonical_request_digest c' = req_canonical_request_digest (pr_request request)"
    "caps_verdict c' = ev_verdict (evaluate s (pr_request request))"
    "caps_object_closure c' = ev_object_closure (evaluate s (pr_request request))"
    "caps_witness c' = build_witness s (pr_request request) (pr_granularity request)"
    by (rule prepare_cases) blast
  show ?thesis
  proof (cases "i = j")
    case True
    with p' assms(2) have "c = c'"
      by simp
    with p' In_Prepare prepare_same_canonical [OF p] show ?thesis
      by (intro prepared [of request]) auto
  next
    case False
    with p' assms(2) show ?thesis
      by (intro old) simp
  qed
next
  case (In_Seal q)
  with assms show ?thesis
    by (intro old) (auto dest: seal_seals(2))
next
  case (In_StageObjects q)
  with assms show ?thesis
    by (intro old) (auto dest: stage_objects_frame(2))
next
  case (In_Decide q)
  with assms show ?thesis
    by (intro old) (auto split: option.splits)
next
  case (In_Stage q)
  with assms show ?thesis
    by (intro old) (auto dest: stage_frame(2))
next
  case (In_CompareAndSwap q)
  with assms show ?thesis
    by (intro old) (auto dest: cas_frame(2))
next
  case (In_PublishConfiguration q)
  with assms show ?thesis
    by (intro old) (auto dest: configuration_frame(2))
next
  case (In_Cancel q)
  with assms show ?thesis
    by (intro old) (auto dest: cancel_frame(3))
qed

end
