(* ===== verification/Serial_History.thy ===== *)
theory Serial_History
  imports Evaluations
begin

text \<open>
  The published history is a serial execution of sealed requests: every commit record carries the
  effects its request folds to against exactly the roots its predecessors left, although it was
  prepared against an older basis and decided inside a batch. The invariant runs over capsules,
  staged batches and the history.
\<close>

section \<open>Serial histories\<close>

definition published_policy :: "repository_state \<Rightarrow> policy_snapshot \<Rightarrow> bool" where
  "published_policy s policy \<longleftrightarrow> (\<exists>h b. bt_get (st_head_chain s) h = Some b \<and> body_configuration b = policy)"

text \<open>
  A record is explained at the roots before it by a request sealed under its transaction: folding
  that request against those roots gives exactly the record's effects, and a policy the repository
  published, of the epoch the record states, authorises the sealed principal to make them.
\<close>

definition explained_by ::
  "repository_state \<Rightarrow> repository_roots \<Rightarrow> transaction_request \<Rightarrow> repository_commit_record \<Rightarrow> bool" where
  "explained_by s roots request r \<longleftrightarrow>
     sealed_as s request \<and> req_tx_id request = rcr_tx_id r \<and>
     req_canonical_request_digest request = rcr_canonical_request_digest r \<and>
     report_outcome (fold_request (basis_of roots) request) = Folded (rcr_effects r) \<and>
     (\<exists>policy. published_policy s policy \<and> pol_epoch policy = rcr_policy_epoch r \<and>
        authorised policy (req_principal request) (rcr_effects r))"

fun serial :: "repository_state \<Rightarrow> repository_roots \<Rightarrow> repository_commit_record list \<Rightarrow> bool" where
  "serial s roots [] \<longleftrightarrow> True"
| "serial s roots (r # rs) \<longleftrightarrow>
     (\<exists>request roots'.
        explained_by s roots request r \<and> apply_effects roots (rcr_effects r) = Inr roots' \<and>
        rcr_resulting_refs r = root_refs roots' \<and>
        rcr_resulting_forge_positions r = root_forge_positions roots' \<and>
        serial s roots' rs)"

lemma serial_append:
  "serial s roots rs \<Longrightarrow> replay roots rs = Inr roots1 \<Longrightarrow> serial s roots1 qs \<Longrightarrow> serial s roots (rs @ qs)"
  by (induction rs arbitrary: roots) (auto simp: replay_def)

text \<open>Seals and published heads are never forgotten, so an explanation stays one.\<close>

definition remembers :: "repository_state \<Rightarrow> repository_state \<Rightarrow> bool" where
  "remembers s t \<longleftrightarrow>
     (\<forall>request. sealed_as s request \<longrightarrow> sealed_as t request) \<and>
     bt_get (st_head_chain s) \<subseteq>\<^sub>m bt_get (st_head_chain t)"

lemma explained_by_mono:
  "remembers s t \<Longrightarrow> explained_by s roots request r \<Longrightarrow> explained_by t roots request r"
  by (auto simp: remembers_def explained_by_def published_policy_def map_le_def dom_def) metis

lemma serial_mono: "remembers s t \<Longrightarrow> serial s roots rs \<Longrightarrow> serial t roots rs"
  by (induction rs arbitrary: roots) (auto dest: explained_by_mono)

lemma step_remembers:
  assumes "step s input = Inr r" "canonical_wf s"
  shows "remembers s (step_next r)"
proof -
  from assms(2) have chain: "dom (bt_get (st_head_chain s)) \<subseteq> bs_set (led_heads (st_identities s))"
    by (simp add: canonical_wf_def chain_wf_def)
  from assms(1) have "bt_get (st_head_chain s) \<subseteq>\<^sub>m bt_get (st_head_chain (step_next r))"
  proof (cases rule: step_kinds)
    case quiet
    then show ?thesis
      by (simp add: same_canonical_def)
  next
    case (staging request outcome)
    from staging(2) show ?thesis
      by (cases rule: stage_cases) auto
  next
    case (swap request outcome)
    from swap(2) show ?thesis
    proof (cases rule: compare_and_swap_cases)
      case (won sb)
      with assms(2) have "head_id (stg_candidate_head sb) \<notin> dom (bt_get (st_head_chain s))"
        unfolding canonical_wf_def staged_wf_def by blast
      with won show ?thesis
        by (auto simp: map_le_def)
    qed auto
  next
    case (configuration request outcome)
    from configuration(2) show ?thesis
    proof (cases rule: publish_configuration_cases)
      case (won g e)
      with chain have "cr_candidate_head_id request \<notin> dom (bt_get (st_head_chain s))"
        by blast
      then show ?thesis
        unfolding won(7) by (auto simp: map_le_def)
    qed auto
  qed
  with assms(1) show ?thesis
    by (simp add: remembers_def step_sealed)
qed

section \<open>Sound capsules\<close>

text \<open>
  A capsule that would commit was prepared from a request sealed under its transaction, its witness
  records that request's reads at the roots of its basis, and while the policy it was evaluated
  under is still the published one, that policy authorises its effects.
\<close>

definition prepared_from ::
  "repository_state \<Rightarrow> prepared_txn_capsule \<Rightarrow> net_effects \<Rightarrow> transaction_request \<Rightarrow>
     repository_roots \<Rightarrow> bool" where
  "prepared_from s c e request roots \<longleftrightarrow>
     sealed_as s request \<and> req_tx_id request = caps_tx_id c \<and>
     req_canonical_request_digest request = caps_canonical_request_digest c \<and>
     report_outcome (fold_request (basis_of roots) request) = Folded e \<and>
     (\<forall>i \<in> intents_of request. recorded roots (caps_witness c) i) \<and>
     (wit_policy_epoch (caps_witness c) = pol_epoch (st_policy s) \<longrightarrow>
        authorised (st_policy s) (req_principal request) e)"

definition capsule_sound :: "repository_state \<Rightarrow> prepared_txn_capsule \<Rightarrow> bool" where
  "capsule_sound s c \<longleftrightarrow>
     wit_policy_epoch (caps_witness c) \<le> pol_epoch (st_policy s) \<and>
     (\<forall>e. caps_verdict c = Verdict_Commit e \<longrightarrow> (\<exists>request roots. prepared_from s c e request roots))"

lemma capsule_sound_mono:
  assumes sound: "capsule_sound s c" and "remembers s t"
    and policy: "st_policy t = st_policy s \<or> pol_epoch (st_policy s) < pol_epoch (st_policy t)"
  shows "capsule_sound t c"
proof -
  from sound policy have "wit_policy_epoch (caps_witness c) \<le> pol_epoch (st_policy t)"
    by (auto simp: capsule_sound_def)
  moreover have "prepared_from t c e request roots" if "prepared_from s c e request roots" for e request roots
    using that assms by (auto simp: prepared_from_def remembers_def capsule_sound_def)
  ultimately show ?thesis
    using sound unfolding capsule_sound_def by blast
qed

lemma wit_policy_epoch_build [simp]:
  "wit_policy_epoch (build_witness s request g) = pol_epoch (st_policy s)"
proof -
  have "wit_policy_epoch (observe_intent roots w i) = wit_policy_epoch w" for roots w i
    by (induction roots w i rule: observe_intent.induct)
      (auto simp: observe_simps Let_def split: option.splits)
  then have "wit_policy_epoch (foldl (\<lambda>w (_, i). observe_intent roots w i) w xs) = wit_policy_epoch w"
    for roots w and xs :: "(intent_address \<times> intent) list"
    by (induction xs arbitrary: w) auto
  then show ?thesis
    by (simp add: build_witness_def)
qed

lemma capsule_sound_prepared:
  assumes "sealed_as s request" "caps_tx_id c = req_tx_id request"
    and "caps_canonical_request_digest c = req_canonical_request_digest request"
    and "caps_verdict c = ev_verdict (evaluate s request)"
    and "caps_witness c = build_witness s request g"
  shows "capsule_sound s c"
proof -
  have "prepared_from s c e request (st_roots s)" if "caps_verdict c = Verdict_Commit e" for e
  proof -
    from that assms(4) have "ev_verdict (evaluate s request) = Verdict_Commit e"
      by simp
    note ev = evaluate_Commit [OF this]
    show ?thesis
      using assms ev(8) policy_admits_authorised [OF ev(9)]
      by (simp add: prepared_from_def build_witness_recorded)
  qed
  then show ?thesis
    unfolding capsule_sound_def using assms(5) by auto
qed

lemma decided_from_serial:
  assumes "decided_from s caps roots rs" "\<forall>c \<in> caps. capsule_sound s c" "published_policy s (st_policy s)"
  shows "serial s roots rs"
  using assms(1)
proof (induction rs arbitrary: roots)
  case (Cons r rs)
  then obtain c roots' where c: "c \<in> caps" "record_from s c r" "refined_reads_hold (caps_witness c) roots"
      "apply_effects roots (rcr_effects r) = Inr roots'" "rcr_resulting_refs r = root_refs roots'"
      "rcr_resulting_forge_positions r = root_forge_positions roots'" "serial s roots' rs"
    by auto
  with assms(2) obtain request roots0 where q: "sealed_as s request" "req_tx_id request = caps_tx_id c"
      "req_canonical_request_digest request = caps_canonical_request_digest c"
      "report_outcome (fold_request (basis_of roots0) request) = Folded (rcr_effects r)"
      "\<forall>i \<in> intents_of request. recorded roots0 (caps_witness c) i"
      "authorised (st_policy s) (req_principal request) (rcr_effects r)"
    unfolding capsule_sound_def record_from_def prepared_from_def by blast
  with c assms(3) have "explained_by s roots request r"
    by (auto simp: explained_by_def record_from_def witness_sound [OF q(5) c(3)])
  with c show ?case
    by auto
qed simp

section \<open>The invariant\<close>

definition serial_wf :: "repository_state \<Rightarrow> bool" where
  "serial_wf s \<longleftrightarrow>
     (\<forall>i c. bt_get (st_capsules s) i = Some c \<longrightarrow> capsule_sound s c) \<and>
     (\<forall>i sb pb. bt_get (st_staged s) i = Some sb \<longrightarrow>
        bt_get (st_head_chain s) (batch_predecessor_head (stg_batch sb)) = Some pb \<longrightarrow>
        serial s (content (body_roots pb)) (batch_committed (stg_batch sb))) \<and>
     serial s roots_default (st_commits s)"

lemma serial_wf_genesis: "serial_wf (genesis c)"
  by (simp add: serial_wf_def genesis_def)

lemma counter_next_less: "counter_next field c = Inr c' \<Longrightarrow> c < c'"
  by (auto simp: counter_next_def less_counter_def dest: checked_succ_less)

lemma step_policy:
  assumes "step s input = Inr r" "canonical_wf s"
  shows "st_policy (step_next r) = st_policy s \<or>
    pol_epoch (st_policy s) < pol_epoch (st_policy (step_next r))"
  using assms(1)
proof (cases rule: step_kinds)
  case quiet
  then show ?thesis
    by (simp add: same_canonical_def)
next
  case (staging request outcome)
  from staging(2) show ?thesis
    by (cases rule: stage_cases) auto
next
  case (swap request outcome)
  from swap(2) show ?thesis
  proof (cases rule: compare_and_swap_cases)
    case (won sb)
    with assms(2) have "fits (st_head s) sb"
      unfolding canonical_wf_def staged_wf_def by auto
    then have "build_candidate_head (st_head s) (stg_batch sb) (head_id (stg_candidate_head sb))
        = Inr (stg_candidate_head sb)"
      by (simp add: fits_def Let_def)
    from build_candidate_head_Inr(7) [OF this] won show ?thesis
      by simp
  qed auto
next
  case (configuration request outcome)
  from configuration(2) show ?thesis
  proof (cases rule: publish_configuration_cases)
    case (won g e)
    then show ?thesis
      by (auto dest: counter_next_less)
  qed auto
qed

lemma step_staged:
  assumes "step s input = Inr r" "bt_get (st_staged (step_next r)) i = Some sb"
  obtains (old) "bt_get (st_staged s) i = Some sb"
  | (staged) caps where "\<forall>c \<in> caps. \<exists>j. bt_get (st_capsules s) j = Some c"
      "batch_predecessor_head (stg_batch sb) = head_id (st_head s)"
      "decided_from s caps (content (st_roots s)) (batch_committed (stg_batch sb))"
      "st_head_chain (step_next r) = st_head_chain s"
  using assms(1)
proof (cases rule: step_kinds)
  case quiet
  with assms(2) old show ?thesis
    by (simp add: same_canonical_def)
next
  case (staging request outcome)
  from staging(2) show ?thesis
  proof (cases rule: stage_cases)
    case deferred
    with assms(2) old show ?thesis
      by simp
  next
    case (staged sc l)
    show ?thesis
    proof (cases "i = sg_batch_id request")
      case True
      with staged(1) assms(2) have "sb = sc"
        by simp
      with staged(1,3,18) show ?thesis
        by (intro that(2)) (auto simp: fits_def Let_def)
    next
      case False
      with staged(1) assms(2) show ?thesis
        by (intro old) simp
    qed
  qed
next
  case (swap request outcome)
  from swap(2) assms(2) old show ?thesis
    by (cases rule: compare_and_swap_cases) (auto split: if_splits)
next
  case (configuration request outcome)
  from configuration(2) assms(2) old show ?thesis
    by (cases rule: publish_configuration_cases) auto
qed

lemma serial_wf_step:
  assumes wf: "canonical_wf s" and serial: "serial_wf s" and step: "step s input = Inr r"
  shows "serial_wf (step_next r)"
proof -
  let ?t = "step_next r"
  note keep = step_remembers [OF step wf]
  have head: "bt_get (st_head_chain s) (head_id (st_head s)) = Some (st_body s)"
    using wf by (simp add: canonical_wf_def chain_wf_def)
  have sound: "\<forall>i c. bt_get (st_capsules s) i = Some c \<longrightarrow> capsule_sound s c"
    using serial by (simp add: serial_wf_def)
  have "capsule_sound ?t c" if "bt_get (st_capsules ?t) i = Some c" for i c
  proof (rule capsule_sound_mono [OF _ keep step_policy [OF step wf]])
    show "capsule_sound s c"
      using step that by (cases rule: step_capsules) (use sound in \<open>auto intro: capsule_sound_prepared\<close>)
  qed
  moreover have "serial ?t (content (body_roots pb)) (batch_committed (stg_batch sb))"
    if sb: "bt_get (st_staged ?t) i = Some sb"
      and pb: "bt_get (st_head_chain ?t) (batch_predecessor_head (stg_batch sb)) = Some pb" for i sb pb
    using step sb
  proof (cases rule: step_staged)
    case old
    with wf have "batch_predecessor_head (stg_batch sb) \<in> dom (bt_get (st_head_chain s))"
      unfolding canonical_wf_def staged_wf_def by blast
    with keep pb have "bt_get (st_head_chain s) (batch_predecessor_head (stg_batch sb)) = Some pb"
      by (auto simp: remembers_def map_le_def dom_def)
    with old serial show ?thesis
      using keep serial_mono unfolding serial_wf_def by blast
  next
    case (staged caps)
    with pb head have "pb = st_body s"
      by simp
    moreover have "serial s (content (st_roots s)) (batch_committed (stg_batch sb))"
      by (rule decided_from_serial [OF staged(3)])
        (use staged(1) sound head in \<open>auto simp: published_policy_def\<close>)
    ultimately show ?thesis
      using keep serial_mono by blast
  qed
  moreover have "serial ?t roots_default (st_commits ?t)"
    using step wf
  proof (cases rule: step_history)
    case same
    with keep serial show ?thesis
      by (auto simp: serial_wf_def intro: serial_mono)
  next
    case (published request sb)
    then have "batch_predecessor_head (stg_batch sb) = head_id (st_head s)"
      by (simp add: fits_def Let_def)
    with published(2) head serial have "serial s (content (st_roots s)) (batch_committed (stg_batch sb))"
      unfolding serial_wf_def by metis
    moreover have "replay roots_default (st_commits s) = Inr (content (st_roots s))"
      using wf by (simp add: canonical_wf_def history_wf_def)
    ultimately have "serial s roots_default (st_commits s @ batch_committed (stg_batch sb))"
      using serial by (auto simp: serial_wf_def intro: serial_append)
    with published keep show ?thesis
      by (auto intro: serial_mono)
  qed
  ultimately show ?thesis
    unfolding serial_wf_def by blast
qed

interpretation serial: machine_invariant any_input canonical_wf serial_wf
  by unfold_locales (auto intro: serial_wf_genesis serial_wf_step canonical_wf_reachable)

lemmas serial_wf_reachable = serial.holds

end
