(* ===== verification/Permanence.thy ===== *)
theory Permanence
  imports Serial_History
begin

text \<open>
  What a repository never loses along any run: published decisions and commits, outcomes, seals,
  heads, the policy epoch, legal holds, outbox bindings and forge stream positions. The order
  \<open>permanent\<close> collects them, and every step climbs it.
\<close>

section \<open>What roots never lose\<close>

definition roots_le :: "repository_roots \<Rightarrow> repository_roots \<Rightarrow> bool" where
  "roots_le roots roots' \<longleftrightarrow>
     (\<forall>root \<in> bs_set (root_retention roots). root_class root = LegalHold \<longrightarrow>
        root \<in> bs_set (root_retention roots')) \<and>
     bt_get (root_outbox roots) \<subseteq>\<^sub>m bt_get (root_outbox roots') \<and>
     (\<forall>stream. position_get (position_of (root_forge_positions roots) stream)
        \<le> position_get (position_of (root_forge_positions roots') stream))"

lemma roots_le_refl: "roots_le roots roots"
  by (simp add: roots_le_def)

lemma roots_le_trans: "roots_le a b \<Longrightarrow> roots_le b c \<Longrightarrow> roots_le a c"
  unfolding roots_le_def by (blast intro: map_le_trans order_trans)

lemma roots_le_content [simp]:
  "roots_le (content a) b \<longleftrightarrow> roots_le a b" "roots_le a (content b) \<longleftrightarrow> roots_le a b"
  by (simp_all add: roots_le_def content_def)

lemma advance_le: "advance p es = Inr q \<Longrightarrow> position_get p \<le> position_get q"
proof (induction es arbitrary: p)
  case (Cons e es)
  then have "position_get (successor p) \<le> position_get q" "\<not> is_exhausted p"
    by (auto simp: advance_once_def split: if_splits)
  moreover have "position_get p \<le> position_get (successor p)"
    by (simp add: successor_def saturating_succ_ge)
  ultimately show ?case
    by (rule_tac order_trans)
qed simp

lemma folded_outbox:
  assumes "report_outcome (fold_request b request) = Folded e" "bt_get (basis_outbox b) key = Some v"
  shows "bt_get (eff_outbox e) key = None"
proof -
  from assms(1) obtain acc where
    acc: "try_fold (fold_intent request) (fold_start b) (addressed_intents request) = Inr acc" and
    e: "e = diff b (acc_scratch acc)"
    by (auto simp: fold_request_def Let_def split: sum.splits prod.splits)
  from fold_scratch_wf [OF acc] assms(2) show ?thesis
    by (simp add: e diff_outbox scratch_wf_def)
qed

lemma explained_roots_le:
  assumes "explained_by s roots request r" and app: "apply_effects roots (rcr_effects r) = Inr roots'"
  shows "roots_le roots roots'"
proof -
  let ?e = "rcr_effects r"
  from assms(1) obtain policy where folded: "report_outcome (fold_request (basis_of roots) request) = Folded ?e"
    and auth: "authorised policy (req_principal request) ?e"
    unfolding explained_by_def by blast
  have "root \<in> bs_set (root_retention roots')"
    if "root \<in> bs_set (root_retention roots)" "root_class root = LegalHold" for root
  proof -
    have "is_ordinarily_removable (root_class root)" if "bt_get (eff_retention ?e) root = Some Remove_Root"
    proof -
      from auth that have "may_retain (capabilities_of policy (req_principal request)) root Remove_Root"
        unfolding authorised_def by blast
      then show ?thesis
        by (simp add: may_retain_def)
    qed
    with that(2) have "bt_get (eff_retention ?e) root \<noteq> Some Remove_Root"
      by auto
    with that(1) show ?thesis
      by (auto simp: apply_effects_retention [OF app] split: option.splits retention_effect.splits)
  qed
  moreover have "bt_get (root_outbox roots) \<subseteq>\<^sub>m bt_get (root_outbox roots')"
    using folded_outbox [OF folded]
    by (auto simp: map_le_def apply_effects_outbox [OF app] map_add_def)
  moreover have "position_get (position_of (root_forge_positions roots) stream)
      \<le> position_get (position_of (root_forge_positions roots') stream)" for stream
  proof (cases "bt_get (eff_forge ?e) stream")
    case None
    then show ?thesis
      by (simp add: position_of_def apply_effects_forge_None [OF app])
  next
    case (Some es)
    from apply_effects_forge_Some [OF app Some] obtain q where
      "bt_get (root_forge_positions roots') stream = Some q"
      "advance (position_of (root_forge_positions roots) stream) es = Inr q"
      by blast
    from this(1) advance_le [OF this(2)] show ?thesis
      by (simp add: position_of_def)
  qed
  ultimately show ?thesis
    by (simp add: roots_le_def)
qed

lemma serial_roots_le: "serial s roots rs \<Longrightarrow> replay roots rs = Inr roots' \<Longrightarrow> roots_le roots roots'"
proof (induction rs arbitrary: roots)
  case (Cons r rs)
  then obtain request roots1 where "explained_by s roots request r"
    "apply_effects roots (rcr_effects r) = Inr roots1" "serial s roots1 rs" "replay roots1 rs = Inr roots'"
    by (auto simp: replay_def)
  with Cons.IH show ?case
    by (blast intro: roots_le_trans explained_roots_le)
qed (simp add: replay_def roots_le_refl)

lemma step_roots_le:
  assumes "step s input = Inr r" "canonical_wf s" "serial_wf s"
  shows "roots_le (st_roots s) (st_roots (step_next r))"
  using assms(1,2)
proof (cases rule: step_history)
  case same
  then show ?thesis
    by (simp add: roots_le_refl)
next
  case (published request sb)
  have head: "bt_get (st_head_chain s) (head_id (st_head s)) = Some (st_body s)"
    using assms(2) by (simp add: canonical_wf_def chain_wf_def)
  from published(3) have fit: "batch_predecessor_head (stg_batch sb) = head_id (st_head s)"
      "replay (content (st_roots s)) (batch_committed (stg_batch sb))
         = Inr (content (batch_resulting (stg_batch sb)))"
      "build_candidate_head (st_head s) (stg_batch sb) (head_id (stg_candidate_head sb))
         = Inr (stg_candidate_head sb)"
    by (simp_all add: fits_def Let_def)
  with published(2) head assms(3) have "serial s (content (st_roots s)) (batch_committed (stg_batch sb))"
    unfolding serial_wf_def by metis
  from serial_roots_le [OF this fit(2)] build_candidate_head_Inr(6) [OF fit(3)] published(4) show ?thesis
    by simp
qed

section \<open>What a repository never loses\<close>

definition permanent :: "repository_state \<Rightarrow> repository_state \<Rightarrow> bool" where
  "permanent s t \<longleftrightarrow>
     prefix (st_decisions s) (st_decisions t) \<and> prefix (st_commits s) (st_commits t) \<and>
     (\<forall>tx outcome. outcome_of s tx = Some outcome \<longrightarrow> outcome_of t tx = Some outcome) \<and>
     (\<forall>request. sealed_as s request \<longrightarrow> sealed_as t request) \<and>
     bt_get (st_head_chain s) \<subseteq>\<^sub>m bt_get (st_head_chain t) \<and>
     pol_epoch (st_policy s) \<le> pol_epoch (st_policy t) \<and>
     roots_le (st_roots s) (st_roots t)"

lemma permanent_refl: "permanent s s"
  by (simp add: permanent_def roots_le_refl)

lemma permanent_trans: "permanent s t \<Longrightarrow> permanent t u \<Longrightarrow> permanent s u"
  unfolding permanent_def by (blast intro: prefix_order.trans map_le_trans order_trans roots_le_trans)

lemma prefix_map_of:
  assumes "prefix xs ys" "distinct (map fst ys)" "map_of xs k = Some v"
  shows "map_of ys k = Some v"
  using assms by (auto simp: prefix_def map_add_def dest!: map_of_SomeD split: option.splits)

lemma step_permanent:
  assumes "step s input = Inr r" "canonical_wf s \<and> serial_wf s"
  shows "permanent s (step_next r)"
proof -
  let ?t = "step_next r"
  from assms have wf: "history_wf s" "history_wf ?t" and pre: "prefix (st_decisions s) (st_decisions ?t)"
    using canonical_wf_step step_append_only by (auto simp: canonical_wf_def)
  have "outcome_of ?t tx = Some outcome" if "outcome_of s tx = Some outcome" for tx outcome
  proof -
    have "prefix (map outcome_entry (st_decisions s)) (map outcome_entry (st_decisions ?t))"
      using pre by (auto simp: prefix_def)
    moreover have "distinct (map fst (map outcome_entry (st_decisions ?t)))"
      using wf(2) by (simp add: history_wf_def outcome_entry_def comp_def)
    ultimately show ?thesis
      using that unfolding outcome_of_decisions [OF wf(1)] outcome_of_decisions [OF wf(2)]
      by (rule prefix_map_of)
  qed
  moreover have "pol_epoch (st_policy s) \<le> pol_epoch (st_policy ?t)"
    using step_policy [of s input r] assms by auto
  ultimately show ?thesis
    using assms step_append_only [of s input r] step_remembers [of s input r] step_roots_le [of s input r]
    by (auto simp: permanent_def remembers_def)
qed

interpretation permanence: machine_monotone any_input "\<lambda>s. canonical_wf s \<and> serial_wf s" permanent
  by unfold_locales
    (auto intro: permanent_refl permanent_trans step_permanent canonical_wf_reachable serial_wf_reachable)

end
