(* ===== verification/Sealing.thy ===== *)
theory Sealing
  imports Permanence
begin

text \<open>
  Sealing is idempotent for good: seals and idempotency bindings survive every later step, a seal
  identity names one transaction, and the ledger pairs transaction identities with the inputs they
  are derived from.
\<close>

section \<open>What sealing does\<close>

definition seal_entry :: "repository_state \<Rightarrow> tx_id \<Rightarrow> (transaction_seal_id \<times> seal_fields) option" where
  "seal_entry s tx = map_option (\<lambda>r. (sealrec_id r, sealrec_fields r)) (seal_of s tx)"

definition idempotency_binding :: "repository_state \<Rightarrow> transaction_request \<Rightarrow> digest option" where
  "idempotency_binding s request = bt_get (st_idempotency_index s) (idempotency_scope_of request)"

lemma seal_cases:
  assumes "seal s input = Inr (t, outcome)"
  obtains (unchanged) "t = s" "\<forall>i. outcome \<noteq> Created i"
  | (created) l where
      "outcome = Created (sr_seal_id input)" "req_repository (sr_request input) = st_repository s"
      "seal_entry s (req_tx_id (sr_request input)) = None"
      "idempotency_binding s (sr_request input)
         \<in> {None, Some (req_canonical_request_digest (sr_request input))}"
      "bind_transaction (st_identities s) (req_tx_id (sr_request input))
         (derivation_inputs (seal_fields_of (sr_request input))) = Inr l"
      "sr_seal_id input \<notin> bs_set (led_seals (st_identities s))"
      "t = s\<lparr>st_identities := l\<lparr>led_seals := bs_insert (sr_seal_id input) (led_seals (st_identities s))\<rparr>,
             st_seals := bt_insert (req_tx_id (sr_request input))
               \<lparr>sealrec_id = sr_seal_id input, sealrec_fields = seal_fields_of (sr_request input),
                sealrec_preparations = 0\<rparr> (st_seals s),
             st_idempotency_index := bt_insert (idempotency_scope_of (sr_request input))
               (req_canonical_request_digest (sr_request input)) (st_idempotency_index s)\<rparr>"
proof (cases outcome)
  case (Created i)
  with assms obtain l l' where
    l: "bind_transaction (st_identities s) (req_tx_id (sr_request input))
         (derivation_inputs (seal_fields_of (sr_request input))) = Inr l"
      "introduce_seal l (sr_seal_id input) = Inr l'" and
    rest: "req_repository (sr_request input) = st_repository s" "bt_get (st_seals s) (req_tx_id (sr_request input)) = None"
      "i = sr_seal_id input"
      "\<not> (case bt_get (st_idempotency_index s) (idempotency_scope_of (sr_request input)) of
                 Some bound \<Rightarrow> bound \<noteq> req_canonical_request_digest (sr_request input)
               | None \<Rightarrow> False)"
      "t = s\<lparr>st_identities := l', st_seals := bt_insert (req_tx_id (sr_request input))
               \<lparr>sealrec_id = sr_seal_id input, sealrec_fields = seal_fields_of (sr_request input),
                sealrec_preparations = 0\<rparr> (st_seals s),
             st_idempotency_index := bt_insert (idempotency_scope_of (sr_request input))
               (req_canonical_request_digest (sr_request input)) (st_idempotency_index s)\<rparr>"
    by (auto simp: seal_def Let_def split: if_splits option.splits)
  have "led_seals l = led_seals (st_identities s)"
    by (simp add: bind_transaction_Inr(1) [OF l(1)])
  with l(2) have l': "sr_seal_id input \<notin> bs_set (led_seals (st_identities s))"
      "l' = l\<lparr>led_seals := bs_insert (sr_seal_id input) (led_seals (st_identities s))\<rparr>"
    by (auto simp: introduce_seal_def introduce_Inr_iff)
  show ?thesis
    using Created l(1) l' rest
    by (intro created [of l]) (simp_all add: seal_entry_def seal_of_def idempotency_binding_def split: option.splits)
qed (use assms in \<open>auto simp: seal_def Let_def intro!: unchanged split: if_splits option.splits\<close>)

section \<open>Seals are permanent\<close>

definition same_seals :: "repository_state \<Rightarrow> repository_state \<Rightarrow> bool" where
  "same_seals s t \<longleftrightarrow>
     seal_entry t = seal_entry s \<and> st_idempotency_index t = st_idempotency_index s \<and>
     led_tx_by_inputs (st_identities t) = led_tx_by_inputs (st_identities s) \<and>
     led_inputs_by_tx (st_identities t) = led_inputs_by_tx (st_identities s) \<and>
     led_seals (st_identities t) = led_seals (st_identities s) \<and>
     st_repository t = st_repository s"

lemma seal_entry_cong: "st_seals t = st_seals s \<Longrightarrow> seal_entry t = seal_entry s"
  by (simp add: seal_entry_def seal_of_def fun_eq_iff)

lemma prepare_same_seals: "prepare s q = Inr (t, i) \<Longrightarrow> same_seals s t"
proof (erule prepare_cases)
  fix c l
  assume "t = s\<lparr>st_identities := l, st_capsules := bt_insert i c (st_capsules s),
       st_seals := charge_preparation (req_tx_id (pr_request q)) (st_seals s)\<rparr>"
    "l = (st_identities s)\<lparr>led_capsules := bs_insert (pr_capsule_id q) (led_capsules (st_identities s))\<rparr>"
  moreover have "map_option (\<lambda>r. (sealrec_id r, sealrec_fields r)) (bt_get (charge_preparation tx seals) tx')
      = map_option (\<lambda>r. (sealrec_id r, sealrec_fields r)) (bt_get seals tx')" for tx tx' seals
    by (simp add: charge_preparation_def split: option.splits)
  ultimately show ?thesis
    by (simp add: same_seals_def seal_entry_def seal_of_def fun_eq_iff)
qed

lemma stage_same_seals:
  assumes "stage s q = Inr (t, outcome)"
  shows "same_seals s t"
  using assms
proof (cases rule: stage_cases)
  case (staged sb l)
  from staged(10) have "led_tx_by_inputs l = led_tx_by_inputs (st_identities s)"
    "led_inputs_by_tx l = led_inputs_by_tx (st_identities s)" "led_seals l = led_seals (st_identities s)"
    by (metis identity_ledger.select_convs identity_ledger.surjective identity_ledger.update_convs)+
  then show ?thesis
    by (simp add: same_seals_def seal_entry_def seal_of_def fun_eq_iff staged(1))
qed (simp add: same_seals_def)

lemma step_seals:
  assumes "step s input = Inr r"
  obtains (same) "same_seals s (step_next r)"
  | (sealed) q where "input = In_Seal q" "seal s q = Inr (step_next r, Created (sr_seal_id q))"
proof (cases input)
  case (In_Seal q)
  with assms obtain outcome where "seal s q = Inr (step_next r, outcome)"
    by auto
  then show ?thesis
  proof (cases rule: seal_cases)
    case unchanged
    then show ?thesis
      by (intro same) (simp add: same_seals_def)
  next
    case (created l)
    with \<open>seal s q = _\<close> In_Seal show ?thesis
      by (intro sealed) auto
  qed
next
  case (In_StageObjects q)
  with assms show ?thesis
    by (intro same) (auto simp: stage_objects_def Let_def same_seals_def seal_entry_def seal_of_def
        fun_eq_iff split: if_splits)
next
  case (In_Prepare q)
  with assms show ?thesis
    by (intro same) (auto intro: prepare_same_seals)
next
  case (In_Decide q)
  with assms show ?thesis
    by (intro same) (auto simp: same_seals_def split: option.splits)
next
  case (In_Stage q)
  with assms show ?thesis
    by (intro same) (auto intro: stage_same_seals)
next
  case (In_CompareAndSwap q)
  with assms show ?thesis
    by (intro same) (auto elim!: compare_and_swap_cases simp: same_seals_def seal_entry_def seal_of_def fun_eq_iff)
next
  case (In_PublishConfiguration q)
  with assms show ?thesis
    by (intro same) (auto elim!: publish_configuration_cases simp: same_seals_def seal_entry_def seal_of_def fun_eq_iff)
next
  case (In_Cancel q)
  with assms show ?thesis
    by (intro same) (auto simp: cancel_def Let_def same_seals_def seal_entry_def seal_of_def fun_eq_iff
        split: cancellation_phase.splits)
qed

definition seals_le :: "repository_state \<Rightarrow> repository_state \<Rightarrow> bool" where
  "seals_le s t \<longleftrightarrow>
     seal_entry s \<subseteq>\<^sub>m seal_entry t \<and> bt_get (st_idempotency_index s) \<subseteq>\<^sub>m bt_get (st_idempotency_index t) \<and>
     st_repository t = st_repository s"

lemma step_seals_le: "step s input = Inr r \<Longrightarrow> seals_le s (step_next r)"
proof (erule step_seals)
  assume "same_seals s (step_next r)"
  then show ?thesis
    by (simp add: seals_le_def same_seals_def)
next
  fix q
  assume "seal s q = Inr (step_next r, Created (sr_seal_id q))"
  then show ?thesis
  proof (cases rule: seal_cases)
    case (created l)
    have "seal_entry s tx = seal_entry (step_next r) tx" if "tx \<in> dom (seal_entry s)" for tx
      using created(3) that by (auto simp: created(7) seal_entry_def seal_of_def)
    moreover have "bt_get (st_idempotency_index s) \<subseteq>\<^sub>m bt_get (st_idempotency_index (step_next r))"
      using created(4) by (auto simp: created(7) map_le_def idempotency_binding_def)
    ultimately show ?thesis
      by (simp add: seals_le_def map_le_def created(7))
  qed simp
qed

interpretation seals: machine_monotone any_input "\<lambda>_. True" seals_le
proof unfold_locales
  show "seals_le s s" for s
    by (simp add: seals_le_def)
next
  show "seals_le s t \<Longrightarrow> seals_le t u \<Longrightarrow> seals_le s u" for s t u
    unfolding seals_le_def by (metis map_le_trans)
next
  show "seals_le s (step_next r)" if "step s input = Inr r" for s input r
    using that by (rule step_seals_le)
qed simp_all

section \<open>The ledger of transaction identities\<close>

definition paired :: "('a::linorder, 'b::linorder) btree_map \<Rightarrow> ('b, 'a) btree_map \<Rightarrow> bool" where
  "paired f g \<longleftrightarrow> (\<forall>a b. bt_get f a = Some b \<longleftrightarrow> bt_get g b = Some a)"

lemma paired_insert:
  assumes "paired f g" "bt_get f x \<in> {None, Some y}" "bt_get g y \<in> {None, Some x}"
  shows "paired (bt_insert x y f) (bt_insert y x g)"
  using assms unfolding paired_def by (simp; metis option.sel option.distinct(1))

definition ledger_wf :: "repository_state \<Rightarrow> bool" where
  "ledger_wf s \<longleftrightarrow>
     paired (led_tx_by_inputs (st_identities s)) (led_inputs_by_tx (st_identities s)) \<and>
     (\<forall>tx i fields. seal_entry s tx = Some (i, fields) \<longrightarrow>
        seal_tx_id fields = tx \<and> i \<in> bs_set (led_seals (st_identities s)) \<and>
        bt_get (led_inputs_by_tx (st_identities s)) tx = Some (derivation_inputs fields)) \<and>
     (\<forall>tx tx' i fields fields'. seal_entry s tx = Some (i, fields) \<longrightarrow>
        seal_entry s tx' = Some (i, fields') \<longrightarrow> tx = tx')"

lemma ledger_wf_genesis: "ledger_wf (genesis c)"
  by (simp add: ledger_wf_def genesis_def paired_def seal_entry_def seal_of_def introduce_head_def introduce_def
      ledger_default_def)

lemma ledger_wf_step:
  assumes "ledger_wf s" "step s input = Inr r"
  shows "ledger_wf (step_next r)"
  using assms(2)
proof (cases rule: step_seals)
  case same
  then have "ledger_wf (step_next r) \<longleftrightarrow> ledger_wf s"
    by (simp only: ledger_wf_def same_seals_def)
  with assms(1) show ?thesis
    by simp
next
  case (sealed q)
  from sealed(2) show ?thesis
  proof (cases rule: seal_cases)
    case (created l)
    let ?tx = "req_tx_id (sr_request q)" and ?fields = "seal_fields_of (sr_request q)"
    note bind = bind_transaction_Inr [OF created(5)]
    have entry: "seal_entry (step_next r) tx = (if tx = ?tx then Some (sr_seal_id q, ?fields) else seal_entry s tx)" for tx
      by (simp add: created(7) seal_entry_def seal_of_def)
    have led: "led_tx_by_inputs (st_identities (step_next r))
          = bt_insert (derivation_inputs ?fields) ?tx (led_tx_by_inputs (st_identities s))"
        "led_inputs_by_tx (st_identities (step_next r))
          = bt_insert ?tx (derivation_inputs ?fields) (led_inputs_by_tx (st_identities s))"
        "led_seals (st_identities (step_next r)) = bs_insert (sr_seal_id q) (led_seals (st_identities s))"
      by (simp_all add: created(7) bind(1))
    have tx: "seal_tx_id ?fields = ?tx"
      by (simp add: seal_fields_of_def)
    from assms(1) have old: "seal_tx_id fields = tx" "i \<in> bs_set (led_seals (st_identities s))"
        "bt_get (led_inputs_by_tx (st_identities s)) tx = Some (derivation_inputs fields)"
      if "seal_entry s tx = Some (i, fields)" for tx i fields
      using that by (auto simp only: ledger_wf_def)
    have fresh: "i \<noteq> sr_seal_id q" if "seal_entry s tx = Some (i, fields)" for tx i fields
      using old(2) [OF that] created(6) by (metis (no_types))
    have "paired (led_tx_by_inputs (st_identities (step_next r))) (led_inputs_by_tx (st_identities (step_next r)))"
      unfolding led by (rule paired_insert [OF _ bind(2,3)]) (use assms(1) in \<open>simp add: ledger_wf_def\<close>)
    moreover have "seal_tx_id fields = tx \<and> i \<in> bs_set (led_seals (st_identities (step_next r))) \<and>
        bt_get (led_inputs_by_tx (st_identities (step_next r))) tx = Some (derivation_inputs fields)"
      if "seal_entry (step_next r) tx = Some (i, fields)" for tx i fields
      using that old [of tx i fields] tx by (simp add: entry led split: if_splits)
    moreover have "tx = tx'" if "seal_entry (step_next r) tx = Some (i, fields)"
        "seal_entry (step_next r) tx' = Some (i, fields')" for tx tx' i fields fields'
    proof (cases "tx = ?tx \<or> tx' = ?tx")
      case True
      with that fresh [of tx i fields] fresh [of tx' i fields'] show ?thesis
        by (simp add: entry split: if_splits)
    next
      case False
      with that have "seal_entry s tx = Some (i, fields)" "seal_entry s tx' = Some (i, fields')"
        by (simp_all add: entry)
      with assms(1) show ?thesis
        unfolding ledger_wf_def by blast
    qed
    ultimately show ?thesis
      unfolding ledger_wf_def by blast
  qed simp
qed

interpretation ledger: machine_invariant any_input "\<lambda>_. True" ledger_wf
  by unfold_locales (auto intro: ledger_wf_genesis ledger_wf_step)

lemmas ledger_wf_reachable = ledger.holds

section \<open>Retries and key reuse\<close>

lemma created_entry:
  assumes "seal s q = Inr (t, Created i)"
  shows "seal_entry t (req_tx_id (sr_request q)) = Some (i, seal_fields_of (sr_request q))"
    "bt_get (st_idempotency_index t) (idempotency_scope_of (sr_request q))
       = Some (req_canonical_request_digest (sr_request q))"
    "st_repository t = req_repository (sr_request q)"
  using assms by (cases rule: seal_cases; simp add: seal_entry_def seal_of_def)+

lemma seal_retry:
  assumes "seal_entry u (req_tx_id (sr_request q)) = Some (i, seal_fields_of (sr_request q))"
    "bt_get (st_idempotency_index u) (idempotency_scope_of (sr_request q))
       = Some (req_canonical_request_digest (sr_request q))"
    "st_repository u = req_repository (sr_request q)"
  shows "seal u q = Inr (u,
    if req_schema (sr_request q) \<in> bs_set (pol_supported_schemas (st_policy u)) then ExistingRetry i
    else Rejected Rej_SchemaUnsupported)"
  using assms by (auto simp: seal_def Let_def seal_entry_def seal_of_def)

text \<open>The stable fields determine where a request is looked up.\<close>

lemma seal_fields_lookup:
  assumes "seal_fields_of r = seal_fields_of r'"
  shows "req_tx_id r = req_tx_id r'" "idempotency_scope_of r = idempotency_scope_of r'"
    "req_repository r = req_repository r'" "req_schema r = req_schema r'"
    "req_canonical_request_digest r = req_canonical_request_digest r'"
  using assms by (simp_all add: seal_fields_of_def idempotency_scope_of_def)

lemma seal_reuse:
  assumes "bt_get (st_idempotency_index u) (idempotency_scope_of (sr_request q)) = Some d"
    "d \<noteq> req_canonical_request_digest (sr_request q)" "st_repository u = req_repository (sr_request q)"
  shows "seal u q = Inr (u, Rejected Rej_IdempotencyKeyReuse)"
  using assms by (simp add: seal_def)

lemma created_forever:
  assumes "reachable c s" "seal s q = Inr (t, Created i)" "run any_input t u"
  shows "seal_entry u (req_tx_id (sr_request q)) = Some (i, seal_fields_of (sr_request q))"
    "bt_get (st_idempotency_index u) (idempotency_scope_of (sr_request q))
       = Some (req_canonical_request_digest (sr_request q))"
    "st_repository u = req_repository (sr_request q)"
proof -
  have "step s (In_Seal q) = Inr \<lparr>step_next = t, step_output = Out_Sealed (Created i)\<rparr>"
    using assms(2) by simp
  from run_step [OF run_refl _ this] have "run any_input s t"
    by simp
  with assms(1) have "run any_input (genesis c) t"
    by (metis run_trans)
  with assms(3) have le: "seals_le t u"
    by (rule seals.climbs)
  note made = created_entry [OF assms(2)]
  from le made(1) show "seal_entry u (req_tx_id (sr_request q)) = Some (i, seal_fields_of (sr_request q))"
    unfolding seals_le_def by (metis domI map_le_def)
  from le made(2) show "bt_get (st_idempotency_index u) (idempotency_scope_of (sr_request q))
      = Some (req_canonical_request_digest (sr_request q))"
    unfolding seals_le_def by (metis domI map_le_def)
  from le made(3) show "st_repository u = req_repository (sr_request q)"
    by (simp add: seals_le_def)
qed

end
