(* ===== verification/Progress.thy ===== *)
theory Progress
  imports Sealing
begin

text \<open>
  Progress of the machine. A sealed transaction that is not decided can be prepared, staged alone and
  published against the current head, in three steps, whatever the other transactions did before;
  and after the preparations the budget allows, every later decision is terminal.
\<close>

section \<open>The budget of preparations\<close>

definition prepares :: "tx_id \<Rightarrow> model_input \<Rightarrow> bool" where
  "prepares tx input = (case input of In_Prepare q \<Rightarrow> req_tx_id (pr_request q) = tx | _ \<Rightarrow> False)"

lemma saturating_succ_at_least: "min 4 (Suc (unat w)) \<le> unat (saturating_succ (w :: u32))"
  by (simp add: saturating_succ_unat)

lemma seal_preparations:
  assumes "seal s q = Inr (t, outcome)"
  shows "preparations_of s tx \<le> preparations_of t tx"
  using assms
proof (cases rule: seal_cases)
  case (created l)
  then show ?thesis
    by (auto simp: preparations_of_def seal_entry_def seal_of_def created(7))
qed simp

lemma head_steps_keep_seals:
  "stage s q = Inr (t, outcome) \<Longrightarrow> st_seals t = st_seals s"
  "compare_and_swap s k = Inr (t, swapped) \<Longrightarrow> st_seals t = st_seals s"
  "publish_configuration s c = Inr (t, published) \<Longrightarrow> st_seals t = st_seals s"
  by (auto elim: stage_cases compare_and_swap_cases publish_configuration_cases)

lemma quiet_preparations:
  assumes "step s input = Inr r" "\<And>q. input \<noteq> In_Prepare q"
  shows "preparations_of s tx \<le> preparations_of (step_next r) tx"
proof (cases "\<exists>q. input = In_Seal q")
  case True
  with assms(1) obtain q outcome where "seal s q = Inr (step_next r, outcome)"
    by auto
  then show ?thesis
    by (rule seal_preparations)
next
  case False
  with assms have "st_seals (step_next r) = st_seals s"
    by (cases input) (auto simp: stage_objects_def cancel_def Let_def
        dest: head_steps_keep_seals split: if_splits option.splits cancellation_phase.splits)
  then show ?thesis
    by (simp add: preparations_of_def)
qed

lemma charge_preparation_get:
  "bt_get (charge_preparation tx seals) tx' =
     (if tx' = tx then map_option (\<lambda>r. r\<lparr>sealrec_preparations := saturating_succ (sealrec_preparations r)\<rparr>) (bt_get seals tx)
      else bt_get seals tx')"
  by (simp add: charge_preparation_def split: option.splits)

lemma step_preparations:
  assumes "step s input = Inr r"
  shows "min 4 (unat (preparations_of s tx) + (if prepares tx input then 1 else 0)) \<le> unat (preparations_of (step_next r) tx)"
proof (cases "\<exists>q. input = In_Prepare q")
  case True
  then obtain q where q: "input = In_Prepare q"
    by blast
  with assms obtain i where prep: "prepare s q = Inr (step_next r, i)"
    by auto
  show ?thesis
  proof (rule prepare_cases [OF prep])
    fix c l
    assume sealed: "sealed_as s (pr_request q)" and
      t: "step_next r = s\<lparr>st_identities := l, st_capsules := bt_insert i c (st_capsules s),
             st_seals := charge_preparation (req_tx_id (pr_request q)) (st_seals s)\<rparr>"
    show ?thesis
      using sealed saturating_succ_at_least
      by (auto simp: q prepares_def preparations_of_def t charge_preparation_get sealed_as_def seal_of_def split: option.splits)
  qed
next
  case False
  then have "\<not> prepares tx input"
    by (auto simp: prepares_def split: model_input.splits)
  moreover have "preparations_of s tx \<le> preparations_of (step_next r) tx"
    using False by (intro quiet_preparations [OF assms]) auto
  ultimately show ?thesis
    by (simp add: word_le_nat_alt)
qed

lemma run_preparations:
  "run_inputs s inputs = Inr t \<Longrightarrow>
     min 4 (unat (preparations_of s tx) + length (filter (prepares tx) inputs)) \<le> unat (preparations_of t tx)"
proof (induction inputs arbitrary: s)
  case (Cons input inputs)
  then obtain r where r: "step s input = Inr r" "run_inputs (step_next r) inputs = Inr t"
    by (auto simp: run_inputs_def next_state_def)
  from step_preparations [OF r(1), of tx] Cons.IH [OF r(2)] show ?case
    by auto
qed (simp add: run_inputs_def)

section \<open>A fresh capsule is decided\<close>

lemma observe_keeps:
  assumes "refined_reads_hold w roots"
  shows "refined_reads_hold (observe_intent roots w i) roots"
  using assms unfolding refined_reads_hold_iff
  by (induction roots w i rule: observe_intent.induct)
    (auto simp: observe_simps Let_def split: option.splits if_splits)

lemma observe_all_keeps:
  "refined_reads_hold w roots \<Longrightarrow> refined_reads_hold (foldl (\<lambda>w (_, i). observe_intent roots w i) w xs) roots"
  by (induction xs arbitrary: w) (auto intro: observe_keeps)

lemma build_witness_holds: "refined_reads_hold (build_witness s request g) (st_roots s)"
  unfolding build_witness_def by (rule observe_all_keeps) (simp add: refined_reads_hold_iff)

lemma observe_witness_fields:
  "wit_granularity (observe_intent roots w i) = wit_granularity w"
  "wit_basis_generation (observe_intent roots w i) = wit_basis_generation w"
  "wit_policy_epoch (observe_intent roots w i) = wit_policy_epoch w"
  by (induction roots w i rule: observe_intent.induct) (auto simp: observe_simps Let_def split: option.splits)

lemma observe_all_fields:
  "wit_policy_epoch (foldl (\<lambda>w (_, i). observe_intent roots w i) w xs) = wit_policy_epoch w"
  "wit_basis_generation (foldl (\<lambda>w (_, i). observe_intent roots w i) w xs) = wit_basis_generation w"
  by (induction xs arbitrary: w) (auto simp: observe_witness_fields)

lemma build_witness_fields:
  "wit_policy_epoch (build_witness s request g) = pol_epoch (st_policy s)"
  "wit_basis_generation (build_witness s request g) = body_generation (st_body s)"
  by (simp_all add: build_witness_def observe_all_fields)

lemma evaluate_commit:
  assumes "ev_verdict (evaluate s request) = Verdict_Commit e"
  shows "report_outcome (fold_request (basis_of (st_roots s)) request) = Folded e"
  using assms
  by (auto simp: evaluate_def refused_before_fold_def Let_def split: if_splits fold_outcome.splits option.splits)

text \<open>Room for one more decision: none of the counters is at its end.\<close>

definition has_room :: "authority_head_body \<Rightarrow> bool" where
  "has_room body =
     (case (next_generation body, next_decision_sequence body, next_repository_sequence body) of
        (Inr _, Inr decision, Inr repository) \<Rightarrow>
          (case (counter_next ''DecisionSequence'' decision, counter_next ''RepositorySequence'' repository) of
             (Inr _, Inr _) \<Rightarrow> True
           | _ \<Rightarrow> False)
      | _ \<Rightarrow> False)"

text \<open>What a capsule needs to be decided against the head: a refusal, or effects that still apply.\<close>

definition settles :: "repository_state \<Rightarrow> prepared_txn_capsule \<Rightarrow> bool" where
  "settles s c \<longleftrightarrow>
     (\<exists>code. decide s c = Decide_Refuse code) \<or>
     (\<exists>e roots. decide s c = Decide_Commit e \<and> apply_effects (st_roots s) e = Inr roots)"

lemma fresh_capsule_settles:
  assumes "prepare s q = Inr (t, i)" "outcome_of s (req_tx_id (pr_request q)) = None"
  obtains c where "bt_get (st_capsules t) i = Some c" "caps_tx_id c = req_tx_id (pr_request q)" "settles t c"
    "st_head t = st_head s" "outcome_of t (caps_tx_id c) = None"
    "led_batches (st_identities t) = led_batches (st_identities s)" "led_heads (st_identities t) = led_heads (st_identities s)"
    "led_commits (st_identities t) = led_commits (st_identities s)"
proof (rule prepare_cases [OF assms(1)])
  fix c l
  assume t: "t = s\<lparr>st_identities := l, st_capsules := bt_insert i c (st_capsules s),
         st_seals := charge_preparation (req_tx_id (pr_request q)) (st_seals s)\<rparr>"
    and l: "l = (st_identities s)\<lparr>led_capsules := bs_insert (pr_capsule_id q) (led_capsules (st_identities s))\<rparr>"
    and c: "caps_tx_id c = req_tx_id (pr_request q)" "caps_verdict c = ev_verdict (evaluate s (pr_request q))"
      "caps_witness c = build_witness s (pr_request q) (pr_granularity q)"
  have none: "outcome_of t (caps_tx_id c) = None"
    using assms(2) by (simp add: t c(1) outcome_of_def)
  have "witness_reusable (caps_witness c) (st_roots s) (body_generation (st_body s)) (pol_epoch (st_policy s))"
    by (simp add: witness_reusable_def c(3) build_witness_fields build_witness_holds split: witness_granularity.split)
  then have "settles t c"
    using none reference.applies [OF evaluate_commit [of s "pr_request q"]]
    by (cases "caps_verdict c") (auto simp: settles_def decide_def decide_against_def t c(2,3) build_witness_fields Let_def)
  with none c(1) show thesis
    by (intro that [of c]) (simp_all add: t l)
qed

section \<open>Staged alone and published\<close>

lemma has_room_cases:
  assumes "has_room body"
  obtains g d d' n n' where "next_generation body = Inr g" "next_decision_sequence body = Inr d"
    "next_repository_sequence body = Inr n" "counter_next ''DecisionSequence'' d = Inr d'"
    "counter_next ''RepositorySequence'' n = Inr n'"
  using assms by (auto simp: has_room_def split: sum.splits)

lemma introduce_fresh: "x \<notin> bs_set ids \<Longrightarrow> introduce ids x kind = Inr (bs_insert x ids)"
  by (simp add: introduce_def)

text \<open>The batch of one capsule, as staging drafts it.\<close>

lemma stage_capsule_single:
  fixes s :: repository_state
  assumes "has_room (st_body s)" "outcome_of s (caps_tx_id c) = None" "bt_get bodies (caps_tx_id c) = Some b" "settles s c"
    and acc: "sa_draft acc = draft_open i (st_repository s) h gen d n parent durability" "sa_scratch acc = st_roots s"
      "sa_committed acc = []"
    and counters: "next_decision_sequence (st_body s) = Inr d" "next_repository_sequence (st_body s) = Inr n"
  shows "\<exists>acc'. stage_capsule s bodies acc c = Inr acc' \<and> draft_id (sa_draft acc') = i \<and>
    length (draft_decisions (sa_draft acc')) = 1 \<and> draft_first_decision_sequence (sa_draft acc') = d \<and>
    list_all (\<lambda>r. rcr_repository_sequence r = n) (draft_committed (sa_draft acc')) \<and>
    set (sa_committed acc') \<subseteq> {caps_tx_id c} \<and> length (sa_committed acc') \<le> 1 \<and>
    bt_get (root_outcome_index (sa_scratch acc')) (caps_tx_id c) \<noteq> None"
proof -
  from assms(1) counters obtain d' n' where succ: "counter_next ''DecisionSequence'' d = Inr d'"
      "counter_next ''RepositorySequence'' n = Inr n'"
    by (auto elim!: has_room_cases)
  from assms(4) consider code where "decide s c = Decide_Refuse code"
    | e roots where "decide s c = Decide_Commit e" "apply_effects (st_roots s) e = Inr roots"
    by (auto simp: settles_def)
  then show ?thesis
  proof cases
    case 1
    with assms(2,3) acc succ show ?thesis
      by (auto simp: stage_capsule_def decide_def Let_def push_refusal_def reserve_decision_sequence_def
          draft_open_def index_outcome_def map_err_def)
  next
    case 2
    with assms(2,3) acc succ show ?thesis
      by (auto simp: stage_capsule_def decide_def Let_def push_commit_def reserve_decision_sequence_def
          draft_open_def index_outcome_def map_err_def record_of_def candidate_of_def)
  qed
qed

lemma candidate_head_built:
  "next_generation (head_body h) = Inr g \<Longrightarrow>
     \<exists>candidate. build_candidate_head h batch i = Inr candidate \<and>
       body_predecessor (head_body candidate) = Some (head_id h) \<and> body_generation (head_body candidate) = g \<and>
       body_roots (head_body candidate) = batch_resulting batch"
  by (cases "last_commit batch") (auto simp: build_candidate_head_def Let_def)

lemma stage_single:
  assumes "bt_get (st_capsules s) i = Some c" "sg_capsules q = [i]" "sg_durability_satisfied q"
    "has_room (st_body s)" "outcome_of s (caps_tx_id c) = None" "bt_get (sg_bodies q) (caps_tx_id c) = Some b" "settles s c"
    and fresh: "sg_batch_id q \<notin> bs_set (led_batches (st_identities s))"
      "sg_candidate_head_id q \<notin> bs_set (led_heads (st_identities s))" "dbi_commit b \<notin> bs_set (led_commits (st_identities s))"
  obtains t outcome sb where "stage s q = Inr (t, outcome)" "st_head t = st_head s"
    "bt_get (st_staged t) (sg_batch_id q) = Some sb" "cas_checks t sb = Inr ()" "may_become_visible sb"
    "bt_get (root_outcome_index (body_roots (head_body (stg_candidate_head sb)))) (caps_tx_id c) \<noteq> None"
proof -
  from assms(4) obtain g d d' n n' where room: "next_generation (st_body s) = Inr g" "next_decision_sequence (st_body s) = Inr d"
      "next_repository_sequence (st_body s) = Inr n"
    by (rule has_room_cases)
  let ?acc = "\<lparr>sa_draft = draft_open (sg_batch_id q) (st_repository s) (head_id (st_head s)) (body_generation (st_body s)) d n
      (body_latest_committed_rcr (st_body s)) (strictest_durability [c]), sa_scratch = st_roots s, sa_committed = [], sa_deferred = []\<rparr>"
  have "\<exists>acc'. stage_capsule s (sg_bodies q) ?acc c = Inr acc' \<and> draft_id (sa_draft acc') = sg_batch_id q \<and>
      length (draft_decisions (sa_draft acc')) = 1 \<and> draft_first_decision_sequence (sa_draft acc') = d \<and>
      list_all (\<lambda>r. rcr_repository_sequence r = n) (draft_committed (sa_draft acc')) \<and>
      set (sa_committed acc') \<subseteq> {caps_tx_id c} \<and> length (sa_committed acc') \<le> 1 \<and>
      bt_get (root_outcome_index (sa_scratch acc')) (caps_tx_id c) \<noteq> None"
    by (rule stage_capsule_single [OF assms(4-7) _ _ _ room(2,3)]) simp_all
  then obtain acc where acc: "stage_capsule s (sg_bodies q) ?acc c = Inr acc" "draft_id (sa_draft acc) = sg_batch_id q"
      "length (draft_decisions (sa_draft acc)) = 1" "draft_first_decision_sequence (sa_draft acc) = d"
      "list_all (\<lambda>r. rcr_repository_sequence r = n) (draft_committed (sa_draft acc))"
      "set (sa_committed acc) \<subseteq> {caps_tx_id c}" "length (sa_committed acc) \<le> 1"
      "bt_get (root_outcome_index (sa_scratch acc)) (caps_tx_id c) \<noteq> None"
    by blast
  from acc(3) have decisions: "draft_decisions (sa_draft acc) \<noteq> []"
    by auto
  from decisions obtain batch where batch: "draft_finish (sa_draft acc) (sa_scratch acc) (pol_epoch (st_policy s)) = Inr batch"
      "batch_first_decision_sequence batch = d" "batch_resulting batch = sa_scratch acc"
      "batch_committed batch = draft_committed (sa_draft acc)"
    using acc(4) by (simp add: draft_finish_def)
  from room(1) obtain candidate where head: "build_candidate_head (st_head s) batch (sg_candidate_head_id q) = Inr candidate"
      "body_predecessor (head_body candidate) = Some (head_id (st_head s))" "body_generation (head_body candidate) = g"
      "body_roots (head_body candidate) = sa_scratch acc"
    using candidate_head_built [of "st_head s" g batch "sg_candidate_head_id q"] batch(3) by auto
  have commits: "\<exists>l. try_fold (introduce_commit_of (sg_bodies q)) ((st_identities s)\<lparr>led_batches := x, led_heads := y\<rparr>) (sa_committed acc) = Inr l" for x y
    using acc(6,7) assms(6) fresh(3)
    by (cases "sa_committed acc") (auto simp: introduce_commit_of_def introduce_commit_def introduce_fresh)
  then obtain l where l: "try_fold (introduce_commit_of (sg_bodies q)) ((st_identities s)\<lparr>led_batches :=
      bs_insert (sg_batch_id q) (led_batches (st_identities s)), led_heads := bs_insert (sg_candidate_head_id q) (led_heads (st_identities s))\<rparr>)
      (sa_committed acc) = Inr l"
    by blast
  let ?sb = "\<lparr>stg_batch = batch, stg_candidate_head = candidate, stg_durability_satisfied = True\<rparr>"
  let ?t = "s\<lparr>st_identities := l, st_staged := bt_insert (sg_batch_id q) ?sb (st_staged s)\<rparr>"
  have "stage s q = Inr (?t, \<lparr>so_batch = Some (sg_batch_id q), so_deferred = sa_deferred acc\<rparr>)"
    using assms(1-3) fresh(1,2)
    by (simp add: stage_def select_capsule_def room acc(1) draft_is_empty_def decisions batch(1) head(1)
        introduce_batch_def introduce_head_def introduce_fresh l Let_def)
  moreover have "cas_checks ?t ?sb = Inr ()"
    using acc(5) by (simp add: cas_checks_def Let_def room batch head list_all_iff split: list.split)
  ultimately show thesis
    by (intro that [of ?t _ ?sb]) (simp_all add: may_become_visible_def head(4) acc(8) del: not_None_eq)
qed

text \<open>Three inputs that decide a sealed transaction.\<close>

definition deciding_inputs ::
  "repository_state \<Rightarrow> prepare_request \<Rightarrow> stage_request \<Rightarrow> model_input list" where
  "deciding_inputs s p q =
     [In_Prepare p, In_Stage q,
      In_CompareAndSwap \<lparr>cas_expected_head = head_id (st_head s),
        cas_expected_generation = body_generation (st_body s), cas_batch = sg_batch_id q\<rparr>]"

lemma sealed_can_be_decided:
  assumes "sealed_as s (pr_request p)" "outcome_of s (req_tx_id (pr_request p)) = None" "has_room (st_body s)"
    and q: "sg_capsules q = [pr_capsule_id p]" "sg_durability_satisfied q"
      "bt_get (sg_bodies q) (req_tx_id (pr_request p)) = Some b"
    and fresh: "pr_capsule_id p \<notin> bs_set (led_capsules (st_identities s))"
      "sg_batch_id q \<notin> bs_set (led_batches (st_identities s))"
      "sg_candidate_head_id q \<notin> bs_set (led_heads (st_identities s))" "dbi_commit b \<notin> bs_set (led_commits (st_identities s))"
  obtains t where "run_inputs s (deciding_inputs s p q) = Inr t" "is_terminal t (req_tx_id (pr_request p))"
proof -
  from introduce_fresh [OF fresh(1), of "''capsule''"] obtain l where "introduce_capsule (st_identities s) (pr_capsule_id p) = Inr l"
    by (simp add: introduce_capsule_def)
  with assms(1) obtain t1 where prep: "prepare s p = Inr (t1, pr_capsule_id p)"
    by (auto simp: prepare_def sealed_as_def seal_of_def Let_def)
  from fresh_capsule_settles [OF prep assms(2)] obtain c where c: "bt_get (st_capsules t1) (pr_capsule_id p) = Some c"
      "caps_tx_id c = req_tx_id (pr_request p)" "settles t1 c" "st_head t1 = st_head s" "outcome_of t1 (caps_tx_id c) = None"
      "led_batches (st_identities t1) = led_batches (st_identities s)" "led_heads (st_identities t1) = led_heads (st_identities s)"
      "led_commits (st_identities t1) = led_commits (st_identities s)"
    by metis
  have "has_room (st_body t1)" "bt_get (sg_bodies q) (caps_tx_id c) = Some b"
    using assms(3) q(3) c(2,4) by simp_all
  from stage_single [OF c(1) q(1,2) this(1) c(5) this(2) c(3)] fresh(2-4) c(6-8) obtain t2 outcome sb where
      t2: "stage t1 q = Inr (t2, outcome)" "st_head t2 = st_head t1" "bt_get (st_staged t2) (sg_batch_id q) = Some sb"
        "cas_checks t2 sb = Inr ()" "may_become_visible sb"
        "bt_get (root_outcome_index (body_roots (head_body (stg_candidate_head sb)))) (caps_tx_id c) \<noteq> None"
    by metis
  let ?t = "install_batch t2 (sg_batch_id q) sb"
  have "run_inputs s (deciding_inputs s p q) = Inr ?t"
    using prep t2 c(4) by (simp add: run_inputs_def deciding_inputs_def next_state_def compare_and_swap_def)
  moreover have "is_terminal ?t (req_tx_id (pr_request p))"
    using t2(6) by (simp add: is_terminal_def outcome_of_def c(2) del: not_None_eq)
  ultimately show thesis
    by (rule that)
qed

end
