(* ===== verification/Object_Admission.thy ===== *)
theory Object_Admission
  imports Serial_History
begin

text \<open>
  Which objects the canonical roots may name: if every object handed to quarantine has the
  identity it declares, the closure of a committable capsule stays available until publication,
  publication promotes it, and no canonical root ever names an object that was not admitted.
\<close>

section \<open>Objects that effects and roots name\<close>

definition effect_objects :: "net_effects \<Rightarrow> git_oid set" where
  "effect_objects e =
     {v. \<exists>name. bt_get (eff_refs e) name = Some (Set_Ref v)} \<union>
     {root_object root |root. bt_get (eff_retention e) root = Some Add_Root}"

lemma set_protected_objects:
  "set (protected_objects roots) =
     {v. \<exists>name. bt_get (root_refs roots) name = Some v} \<union> root_object ` bs_set (root_retention roots)"
  by (auto simp: protected_objects_def bt_values_iff)

lemma apply_effects_protected:
  assumes "apply_effects roots e = Inr roots'"
  shows "set (protected_objects roots') \<subseteq> set (protected_objects roots) \<union> effect_objects e"
proof
  fix v
  assume "v \<in> set (protected_objects roots')"
  then consider name where "bt_get (root_refs roots') name = Some v"
    | root where "bt_get (root_retention roots') root = Some ()" "v = root_object root"
    by (auto simp: set_protected_objects)
  then show "v \<in> set (protected_objects roots) \<union> effect_objects e"
  proof cases
    case 1
    then show ?thesis
      by (auto simp: apply_effects_refs [OF assms] set_protected_objects effect_objects_def
          split: option.splits ref_effect.splits)
  next
    case 2
    then show ?thesis
      by (auto simp: apply_effects_retention [OF assms] set_protected_objects effect_objects_def
          split: option.splits retention_effect.splits)
  qed
qed

lemma replay_protected:
  "replay roots rs = Inr roots' \<Longrightarrow>
     set (protected_objects roots') \<subseteq>
       set (protected_objects roots) \<union> (\<Union>r \<in> set rs. effect_objects (rcr_effects r))"
proof (induction rs arbitrary: roots)
  case (Cons r rs)
  then obtain roots1 where "apply_effects roots (rcr_effects r) = Inr roots1" "replay roots1 rs = Inr roots'"
    by (auto simp: replay_def)
  from apply_effects_protected [OF this(1)] Cons.IH [OF this(2)] show ?case
    by auto
qed (simp add: replay_def)

lemma protected_objects_content [simp]: "protected_objects (content roots) = protected_objects roots"
  by (simp add: protected_objects_def content_def)

section \<open>Available objects\<close>

definition available :: "repository_state \<Rightarrow> tx_id \<Rightarrow> git_oid set" where
  "available s tx =
     dom (bt_get (st_objects s)) \<union>
     (case bt_get (st_quarantine s) tx of Some m \<Rightarrow> dom (bt_get m) | None \<Rightarrow> {})"

definition quarantine_verified :: "repository_state \<Rightarrow> bool" where
  "quarantine_verified s \<longleftrightarrow>
     (\<forall>tx m v q. bt_get (st_quarantine s) tx = Some m \<longrightarrow> bt_get m v = Some q \<longrightarrow>
        is_identity_verified q \<and> q_declared q = v)"

lemma dom_insert_verified:
  "dom (bt_get (foldl (\<lambda>v object. if is_identity_verified object
      then bt_insert (q_declared object) (q_parents object) v else v) view qs))
   \<subseteq> dom (bt_get view) \<union> q_declared ` set qs"
proof (induction qs arbitrary: view)
  case (Cons q qs)
  show ?case
    using Cons [of view] Cons [of "bt_insert (q_declared q) (q_parents q) view"] by auto
qed simp

lemma dom_available_objects:
  assumes "quarantine_verified s"
  shows "dom (bt_get (available_objects s tx)) \<subseteq> available s tx"
proof -
  have view: "dom (bt_get (bt_collect (\<lambda>_ _. True) (\<lambda>_ r. obj_parents r) (st_objects s) bt_empty))
      = dom (bt_get (st_objects s))"
    by (auto split: option.splits)
  show ?thesis
  proof (cases "bt_get (st_quarantine s) tx")
    case None
    with view show ?thesis
      by (simp add: available_objects_def available_def Let_def)
  next
    case (Some m)
    with assms have "q_declared ` set (bt_values m) \<subseteq> dom (bt_get m)"
      by (auto simp: quarantine_verified_def bt_values_iff)
    with Some dom_insert_verified [of _ "bt_values m"] view show ?thesis
      by (simp add: available_objects_def available_def Let_def) blast
  qed
qed

section \<open>Promotion\<close>

lemma dom_promote_objects:
  "dom (bt_get (foldl (promote_object staged) objects xs)) =
     dom (bt_get objects) \<union>
     {v \<in> set xs. \<exists>q. bt_get staged v = Some q \<and> is_identity_verified q}"
  by (induction xs arbitrary: objects) (auto simp: promote_object_def split: option.splits if_splits)

lemma promote_closure_objects:
  "dom (bt_get (st_objects (promote_closure t tx closure))) =
     dom (bt_get (st_objects t)) \<union>
     {v \<in> bs_set closure. \<exists>m q. bt_get (st_quarantine t) tx = Some m \<and> bt_get m v = Some q \<and>
        is_identity_verified q}"
  "st_quarantine (promote_closure t tx closure) = st_quarantine t"
  by (auto simp: promote_closure_def dom_promote_objects split: option.splits)

definition promoted :: "repository_state \<Rightarrow> repository_commit_record \<Rightarrow> git_oid set" where
  "promoted s r = {v \<in> bs_set (rcr_object_closure r). \<exists>m q.
     bt_get (st_quarantine s) (rcr_tx_id r) = Some m \<and> bt_get m v = Some q \<and> is_identity_verified q}"

lemma promote_closures_objects:
  "dom (bt_get (st_objects (foldl (\<lambda>t r. promote_closure t (rcr_tx_id r) (rcr_object_closure r)) s rs)))
     = dom (bt_get (st_objects s)) \<union> (\<Union>r \<in> set rs. promoted s r)"
proof (induction rs arbitrary: s)
  case (Cons r rs)
  then show ?case
    by (simp add: promote_closure_objects promoted_def) blast
qed simp

lemma install_batch_objects:
  "dom (bt_get (st_objects (install_batch s i sb))) =
     dom (bt_get (st_objects s)) \<union> (\<Union>r \<in> set (batch_committed (stg_batch sb)). promoted s r)"
proof -
  have retire: "st_objects (foldl retire_transaction t txs) = st_objects t" for t txs
    by (induction txs arbitrary: t) (simp_all add: retire_transaction_def)
  show ?thesis
    by (simp add: install_batch_def Let_def retire promote_closures_objects promoted_def)
qed

lemma promoted_available:
  assumes "quarantine_verified s" "bs_set (rcr_object_closure r) \<subseteq> available s (rcr_tx_id r)"
  shows "bs_set (rcr_object_closure r) \<subseteq> dom (bt_get (st_objects s)) \<union> promoted s r"
proof
  fix v
  assume v: "v \<in> bs_set (rcr_object_closure r)"
  with assms(2) have "v \<in> available s (rcr_tx_id r)"
    by blast
  with assms(1) v show "v \<in> dom (bt_get (st_objects s)) \<union> promoted s r"
    by (auto simp: available_def promoted_def quarantine_verified_def split: option.splits)
qed

section \<open>The invariant\<close>

definition verified_input :: "model_input \<Rightarrow> bool" where
  "verified_input input \<longleftrightarrow>
     (case input of
        In_StageObjects request \<Rightarrow> list_all is_identity_verified (qr_objects request)
      | _ \<Rightarrow> True)"

definition covered :: "repository_state \<Rightarrow> tx_id \<Rightarrow> git_oid btree_set \<Rightarrow> net_effects \<Rightarrow> bool" where
  "covered s tx closure e \<longleftrightarrow>
     effect_objects e \<subseteq> bs_set closure \<and> bs_set closure \<subseteq> available s tx"

definition capsules_covered :: "repository_state \<Rightarrow> bool" where
  "capsules_covered s \<longleftrightarrow>
     (\<forall>i c e. bt_get (st_capsules s) i = Some c \<longrightarrow> caps_verdict c = Verdict_Commit e \<longrightarrow>
        covered s (caps_tx_id c) (caps_object_closure c) e)"

definition staged_covered :: "repository_state \<Rightarrow> bool" where
  "staged_covered s \<longleftrightarrow>
     (\<forall>i sb. bt_get (st_staged s) i = Some sb \<longrightarrow>
        batch_predecessor_head (stg_batch sb) = head_id (st_head s) \<longrightarrow>
        (\<forall>r \<in> set (batch_committed (stg_batch sb)).
           covered s (rcr_tx_id r) (rcr_object_closure r) (rcr_effects r)))"

definition objects_wf :: "repository_state \<Rightarrow> bool" where
  "objects_wf s \<longleftrightarrow>
     quarantine_verified s \<and> capsules_covered s \<and> staged_covered s \<and>
     set (protected_objects (st_roots s)) \<subseteq> dom (bt_get (st_objects s))"

lemma objects_wf_genesis: "objects_wf (genesis c)"
  by (simp add: objects_wf_def genesis_def genesis_body_def roots_default_def quarantine_verified_def
      capsules_covered_def staged_covered_def set_protected_objects)

lemma covered_mono: "covered s tx closure e \<Longrightarrow> available s tx \<subseteq> available t tx \<Longrightarrow> covered t tx closure e"
  by (auto simp: covered_def)

lemma staged_covered_mono:
  assumes "staged_covered s" "st_staged t = st_staged s" "head_id (st_head t) = head_id (st_head s)"
    and "\<And>tx. available s tx \<subseteq> available t tx"
  shows "staged_covered t"
  using assms covered_mono unfolding staged_covered_def by metis

lemma capsules_covered_mono:
  assumes "capsules_covered s"
    and "\<And>i c. bt_get (st_capsules t) i = Some c \<Longrightarrow>
       bt_get (st_capsules s) i = Some c \<and> available s (caps_tx_id c) \<subseteq> available t (caps_tx_id c)"
  shows "capsules_covered t"
  using assms covered_mono unfolding capsules_covered_def by metis

lemma objects_wf_frame:
  assumes wf: "objects_wf s" and "st_staged t = st_staged s" "st_head t = st_head s"
    and "st_objects t = st_objects s" "quarantine_verified t"
    and grow: "\<And>tx. available s tx \<subseteq> available t tx"
    and "\<And>i c. bt_get (st_capsules t) i = Some c \<Longrightarrow> bt_get (st_capsules s) i = Some c"
  shows "objects_wf t"
proof -
  from wf have "capsules_covered s" "staged_covered s"
    by (simp_all add: objects_wf_def)
  then have "capsules_covered t" "staged_covered t"
    using capsules_covered_mono [of s t] staged_covered_mono [of s t] assms by auto
  with assms show ?thesis
    by (simp add: objects_wf_def)
qed

lemma available_cong:
  "st_objects t = st_objects s \<Longrightarrow> st_quarantine t = st_quarantine s \<Longrightarrow> available t tx = available s tx"
  "st_quarantine t = st_quarantine s \<Longrightarrow> quarantine_verified t = quarantine_verified s"
  by (simp_all add: available_def quarantine_verified_def)

lemma objects_wf_stage_objects:
  assumes wf: "objects_wf s" and step: "stage_objects s input = Inr t"
    and verified: "list_all is_identity_verified (qr_objects input)"
  shows "objects_wf t"
proof (rule objects_wf_frame [OF wf])
  let ?slot = "case bt_get (st_quarantine s) (qr_tx_id input) of Some m \<Rightarrow> m | None \<Rightarrow> bt_empty"
  let ?new = "bt_extend ?slot (map (\<lambda>q. (q_declared q, q)) (qr_objects input))"
  from step have t: "t = s\<lparr>st_quarantine := bt_insert (qr_tx_id input) ?new (st_quarantine s)\<rparr>"
    by (auto simp: stage_objects_def Let_def split: if_splits)
  then show "st_staged t = st_staged s" "st_head t = st_head s" "st_objects t = st_objects s"
      "\<And>i c. bt_get (st_capsules t) i = Some c \<Longrightarrow> bt_get (st_capsules s) i = Some c"
    by simp_all
  have "is_identity_verified q \<and> q_declared q = v" if "bt_get ?slot v = Some q" for v q
    using wf that by (auto simp: objects_wf_def quarantine_verified_def split: option.splits)
  then have "is_identity_verified q \<and> q_declared q = v" if "bt_get ?new v = Some q" for v q
    using that verified
    by (auto simp: bt_get_extend map_add_def list_all_iff dest!: map_of_SomeD split: option.splits)
  with wf show "quarantine_verified t"
    unfolding quarantine_verified_def objects_wf_def t by simp
  show "available s tx \<subseteq> available t tx" for tx
    by (auto simp: available_def t bt_get_extend split: option.splits)
qed

lemma objects_wf_prepare:
  assumes wf: "objects_wf s" and step: "prepare s input = Inr (t, i)"
  shows "objects_wf t"
proof -
  from step obtain c l where
    t: "t = s\<lparr>st_identities := l, st_capsules := bt_insert i c (st_capsules s),
           st_seals := charge_preparation (req_tx_id (pr_request input)) (st_seals s)\<rparr>" and
    c: "caps_tx_id c = req_tx_id (pr_request input)"
      "caps_verdict c = ev_verdict (evaluate s (pr_request input))"
      "caps_object_closure c = ev_object_closure (evaluate s (pr_request input))"
    by (rule prepare_cases) blast
  have same: "available t tx = available s tx" for tx
    by (simp add: t available_def)
  have "covered s (caps_tx_id c) (caps_object_closure c) e" if "caps_verdict c = Verdict_Commit e" for e
  proof -
    from that c have "ev_verdict (evaluate s (pr_request input)) = Verdict_Commit e"
      by simp
    note ev = evaluate_Commit [OF this]
    have "effect_objects e \<subseteq> set (intent_objects (pr_request input))"
      using folded_objects [OF ev(8)] by (auto simp: effect_objects_def)
    moreover have "set (named_objects (pr_request input)) \<subseteq> available s (req_tx_id (pr_request input))"
      using ev(7) dom_available_objects [of s] wf by (auto simp: objects_wf_def)
    ultimately show ?thesis
      by (auto simp: covered_def c ev(11) named_objects_def)
  qed
  moreover have "covered t tx closure e = covered s tx closure e" for tx closure e
    by (simp add: covered_def same)
  ultimately have "capsules_covered t"
    using wf unfolding objects_wf_def capsules_covered_def t by simp
  with wf same show ?thesis
    by (simp add: objects_wf_def staged_covered_def covered_def quarantine_verified_def) (simp add: t)
qed

lemma objects_wf_stage:
  assumes wf: "objects_wf s" and step: "stage s input = Inr (t, outcome)"
  shows "objects_wf t"
  using step
proof (cases rule: stage_cases)
  case (staged sb l)
  have covered: "covered t tx closure e = covered s tx closure e" for tx closure e
    by (simp add: covered_def available_def staged(1))
  have "covered s (rcr_tx_id r) (rcr_object_closure r) (rcr_effects r)"
    if "r \<in> set (batch_committed (stg_batch sb))" for r
  proof -
    from that staged(16) obtain i c where "bt_get (st_capsules s) i = Some c" "record_from s c r"
      by blast
    with wf show ?thesis
      by (auto simp: objects_wf_def capsules_covered_def record_from_def)
  qed
  with wf have "staged_covered t"
    by (simp add: staged_covered_def covered objects_wf_def) (auto simp: staged(1))
  with wf show ?thesis
    by (simp add: objects_wf_def capsules_covered_def covered quarantine_verified_def) (simp add: staged(1))
qed (use wf in simp)

text \<open>Once the head is replaced, no batch staged before names it.\<close>

lemma staged_covered_new_head:
  assumes "canonical_wf s" "head_id (st_head t) \<notin> dom (bt_get (st_head_chain s))"
    and "\<And>i sb. bt_get (st_staged t) i = Some sb \<Longrightarrow> bt_get (st_staged s) i = Some sb"
  shows "staged_covered t"
  using assms unfolding staged_covered_def canonical_wf_def staged_wf_def by metis

lemma objects_wf_configuration:
  assumes wf: "objects_wf s" "canonical_wf s" and step: "publish_configuration s input = Inr (t, outcome)"
  shows "objects_wf t"
  using step
proof (cases rule: publish_configuration_cases)
  case (won g e)
  have "staged_covered t"
    using wf(2)
  proof (rule staged_covered_new_head)
    show "head_id (st_head t) \<notin> dom (bt_get (st_head_chain s))"
      using wf(2) won(6) by (auto simp: won(7) canonical_wf_def chain_wf_def)
  qed (simp add: won(7))
  moreover have "covered t tx closure e = covered s tx closure e" for tx closure e
    by (simp add: covered_def available_def won(7))
  ultimately show ?thesis
    using wf(1) by (simp add: objects_wf_def capsules_covered_def quarantine_verified_def) (simp add: won(7))
qed (use wf in simp)

lemma objects_wf_cas:
  assumes wf: "objects_wf s" "canonical_wf s" and step: "compare_and_swap s input = Inr (t, outcome)"
  shows "objects_wf t"
  using step
proof (cases rule: compare_and_swap_cases)
  case (won sb)
  let ?rs = "batch_committed (stg_batch sb)"
  have fit: "fits (st_head s) sb" and fresh: "head_id (stg_candidate_head sb) \<notin> dom (bt_get (st_head_chain s))"
    using wf(2) won(1,4) unfolding canonical_wf_def staged_wf_def by auto
  from fit have f: "batch_predecessor_head (stg_batch sb) = head_id (st_head s)"
      "replay (content (st_roots s)) ?rs = Inr (content (batch_resulting (stg_batch sb)))"
      "build_candidate_head (st_head s) (stg_batch sb) (head_id (stg_candidate_head sb))
         = Inr (stg_candidate_head sb)"
    by (simp_all add: fits_def Let_def)
  have covered: "\<forall>r \<in> set ?rs. covered s (rcr_tx_id r) (rcr_object_closure r) (rcr_effects r)"
    using wf(1) won(1) f(1) unfolding objects_wf_def staged_covered_def by blast
  have verified: "quarantine_verified s"
    using wf(1) by (simp add: objects_wf_def)
  have objects: "dom (bt_get (st_objects t)) = dom (bt_get (st_objects s)) \<union> (\<Union>r \<in> set ?rs. promoted s r)"
    by (simp add: won(6) install_batch_objects)
  have "staged_covered t"
    using wf(2) fresh by (rule_tac staged_covered_new_head) (auto simp: won(6) split: if_splits)
  moreover have "capsules_covered t"
  proof (rule capsules_covered_mono)
    show "capsules_covered s"
      using wf(1) by (simp add: objects_wf_def)
    show "bt_get (st_capsules s) i = Some c \<and> available s (caps_tx_id c) \<subseteq> available t (caps_tx_id c)"
      if "bt_get (st_capsules t) i = Some c" for i c
      using that objects
      by (auto simp: won(6) install_batch_capsules install_batch_quarantine available_def
          split: option.splits if_splits)
  qed
  moreover have "quarantine_verified t"
    using verified by (auto simp: quarantine_verified_def won(6) install_batch_quarantine split: if_splits)
  moreover have "set (protected_objects (st_roots t)) \<subseteq> dom (bt_get (st_objects t))"
  proof -
    have "set (protected_objects (st_roots t)) \<subseteq>
        set (protected_objects (st_roots s)) \<union> (\<Union>r \<in> set ?rs. effect_objects (rcr_effects r))"
      using replay_protected [OF f(2)] build_candidate_head_Inr(6) [OF f(3)] by (simp add: won(6))
    moreover have "effect_objects (rcr_effects r) \<subseteq> dom (bt_get (st_objects t))" if "r \<in> set ?rs" for r
      using that covered promoted_available [OF verified, of r] unfolding covered_def objects by blast
    moreover have "set (protected_objects (st_roots s)) \<subseteq> dom (bt_get (st_objects t))"
      using wf(1) unfolding objects objects_wf_def by blast
    ultimately show ?thesis
      by (meson UN_least Un_least subset_trans)
  qed
  ultimately show ?thesis
    by (simp add: objects_wf_def)
qed (use wf in simp_all)

lemma objects_wf_step:
  assumes "canonical_wf s" "objects_wf s" "verified_input input" "step s input = Inr r"
  shows "objects_wf (step_next r)"
proof (cases input)
  case (In_Seal q)
  with assms obtain outcome where step: "seal s q = Inr (step_next r, outcome)"
    by auto
  note frame = seal_seals(2,3) [OF step] seal_same_canonical [OF step, unfolded same_canonical_def]
  show ?thesis
    by (rule objects_wf_frame [OF assms(2)])
      (use frame assms(2) available_cong [of "step_next r" s] in \<open>auto simp: objects_wf_def\<close>)
next
  case (In_StageObjects q)
  with assms show ?thesis
    by (auto simp: verified_input_def intro: objects_wf_stage_objects)
next
  case (In_Prepare q)
  with assms show ?thesis
    by (auto intro: objects_wf_prepare)
next
  case (In_Decide q)
  with assms show ?thesis
    by (auto split: option.splits)
next
  case (In_Stage q)
  with assms show ?thesis
    by (auto intro: objects_wf_stage)
next
  case (In_CompareAndSwap q)
  with assms show ?thesis
    by (auto intro: objects_wf_cas)
next
  case (In_PublishConfiguration q)
  with assms show ?thesis
    by (auto intro: objects_wf_configuration)
next
  case (In_Cancel q)
  then have r: "step_next r = step_next (cancel s q)"
    using assms(4) by auto
  note frame = cancel_frame(2) [of s q] cancel_same_canonical [of s q, unfolded same_canonical_def]
  show ?thesis
    unfolding r by (rule objects_wf_frame [OF assms(2)])
      (use frame assms(2) available_cong [of "step_next (cancel s q)" s] in
        \<open>auto simp: objects_wf_def dest: cancel_frame(3)\<close>)
qed

interpretation objects: machine_invariant verified_input canonical_wf objects_wf
  by unfold_locales
    (auto intro: objects_wf_genesis objects_wf_step canonical_wf_reachable dest: run_weaken [of _ _ _ any_input])

lemmas objects_wf_run = objects.holds

lemma objects_wf_no_escape: "objects_wf s \<Longrightarrow> assert_no_quarantine_escape s = Inr ()"
  by (auto simp: objects_wf_def assert_no_quarantine_escape_def find_Some_iff subset_iff
      split: option.splits dest: nth_mem)

end
