(* ===== verification/Scenarios.thy ===== *)
theory Scenarios
  imports Machine
begin

text \<open>
  Concrete runs of the machine, evaluated by the simplifier: a genesis configuration with one
  principal and one protected scope, a transaction that creates a branch, one that is refused, and
  the batch that publishes both. The states they reach instantiate the theorems about reachable
  states.
\<close>

section \<open>Identities and requests\<close>

definition ident :: "nat \<Rightarrow> 'd derived_id" where
  "ident n = DerivedId (InternalObjectId (DigestAlgorithmId 1) (AsciiSlug (bytes_of ''fgit''))
     (CodecVersion 1 0) (DigestBytes (replicate 16 (word_of_nat n))))"

definition opaque :: "nat \<Rightarrow> 'd opaque_id" where
  "opaque n = OpaqueId (replicate 16 (word_of_nat n))"

definition oid :: "nat \<Rightarrow> git_oid" where
  "oid n = Sha1 (replicate 20 (word_of_nat n))"

definition request_digest :: "nat \<Rightarrow> digest" where
  "request_digest n = Digest (DigestAlgorithmId 1) (DigestBytes (replicate 32 (word_of_nat n)))"

definition main_ref :: ref_name where
  "main_ref = RefName (bytes_of ''refs/heads/main'')"

definition dev_ref :: ref_name where
  "dev_ref = RefName (bytes_of ''refs/heads/dev'')"

definition test_schema :: schema_id where
  "test_schema = SchemaId (AsciiSlug (bytes_of ''fgit.txn'')) 1 0"

definition test_policy :: policy_snapshot where
  "test_policy =
     \<lparr>pol_epoch = counter_FIRST, pol_protected_scopes = bs_of_list [bytes_of ''heads''],
      pol_principals = bt_of_list
        [(opaque 3, \<lparr>cap_writable_scopes = bs_of_list [bytes_of ''heads''],
            cap_may_force = False, cap_may_publish_forge = True, cap_may_add_legal_hold = True\<rparr>)],
      pol_max_intents_per_transaction = 8, pol_supported_schemas = bs_of_list [test_schema],
      pol_supported_durability = bs_of_list [CanonicalSource, DerivedGeneration]\<rparr>"

definition test_genesis :: genesis_configuration where
  "test_genesis =
     \<lparr>gen_tenant = opaque 1, gen_repository = opaque 2, gen_object_format = Alg_Sha1,
      gen_head_id = ident 0, gen_policy = test_policy, gen_format_registry_epoch = counter_FIRST\<rparr>"

definition test_request :: "nat \<Rightarrow> intent list \<Rightarrow> transaction_request" where
  "test_request n intents =
     \<lparr>req_tx_id = ident n, req_tenant = opaque 1, req_repository = opaque 2,
      req_principal = opaque 3, req_schema = test_schema,
      req_idempotency_key = IdempotencyKey (AsciiSlug [word_of_nat n]),
      req_canonical_request_digest = request_digest n,
      req_statements = [\<lparr>stmt_intents = intents, stmt_mismatch_policy = TxnAbort\<rparr>],
      req_promised_closure = bt_empty, req_atomic = True, req_durability = DerivedGeneration\<rparr>"

definition test_object :: "nat \<Rightarrow> nat list \<Rightarrow> quarantined_object" where
  "test_object n ps = \<lparr>q_declared = oid n, q_recomputed = oid n, q_parents = map oid ps\<rparr>"

section \<open>Inputs\<close>

definition seal_input :: "nat \<Rightarrow> transaction_request \<Rightarrow> model_input" where
  "seal_input n r = In_Seal \<lparr>sr_seal_id = ident n, sr_request = r\<rparr>"

definition quarantine_input :: "nat \<Rightarrow> quarantined_object list \<Rightarrow> model_input" where
  "quarantine_input n objects = In_StageObjects \<lparr>qr_tx_id = ident n, qr_objects = objects\<rparr>"

definition prepare_input :: "nat \<Rightarrow> transaction_request \<Rightarrow> model_input" where
  "prepare_input n r =
     In_Prepare \<lparr>pr_capsule_id = ident n, pr_request = r, pr_principal_snapshot = ident 0,
       pr_profile = PreparationProfileId (AsciiSlug (bytes_of ''default'')),
       pr_granularity = Refined\<rparr>"

definition stage_input :: "nat \<Rightarrow> nat list \<Rightarrow> model_input" where
  "stage_input b ns =
     In_Stage \<lparr>sg_batch_id = ident b, sg_candidate_head_id = ident b, sg_capsules = map ident ns,
       sg_bodies = bt_of_list
         (map (\<lambda>n. (ident n, \<lparr>dbi_commit = ident n, dbi_refusal_record = ident n\<rparr>)) ns),
       sg_durability_satisfied = True\<rparr>"

definition cas_input :: "nat \<Rightarrow> nat \<Rightarrow> nat \<Rightarrow> model_input" where
  "cas_input h g b =
     In_CompareAndSwap \<lparr>cas_expected_head = ident h,
       cas_expected_generation = Counter (word_of_nat g), cas_batch = ident b\<rparr>"

definition configure_input :: "nat \<Rightarrow> nat \<Rightarrow> nat \<Rightarrow> policy_snapshot \<Rightarrow> model_input" where
  "configure_input n h g policy =
     In_PublishConfiguration \<lparr>cr_candidate_head_id = ident n, cr_expected_head = ident h,
       cr_expected_generation = Counter (word_of_nat g), cr_policy = policy\<rparr>"

section \<open>A batch with a commit and a refusal\<close>

definition create_main :: transaction_request where
  "create_main = test_request 1 [Intent_Ref (Ref_Update main_ref Absent (oid 1) False)]"

definition delete_dev :: transaction_request where
  "delete_dev = test_request 2 [Intent_Ref (Ref_Delete dev_ref (Exact (oid 1)))]"

definition staging_trace :: "model_input list" where
  "staging_trace =
     [seal_input 1 create_main, quarantine_input 1 [test_object 1 []], prepare_input 1 create_main,
      seal_input 2 delete_dev, prepare_input 2 delete_dev, stage_input 1 [1, 2]]"

text \<open>A legal hold and the attempt to drop it; an overwritten quarantine slot.\<close>

definition hold_main :: transaction_request where
  "hold_main = test_request 3
     [Intent_Retention (AddRoot (RetentionRoot (oid 1) LegalHold))]"

definition drop_hold :: transaction_request where
  "drop_hold = test_request 4
     [Intent_Retention (RemoveRoot (RetentionRoot (oid 1) LegalHold))]"

definition holding_trace :: "model_input list" where
  "holding_trace = staging_trace @
     [cas_input 0 1 1, seal_input 3 hold_main, prepare_input 3 hold_main, stage_input 3 [3], cas_input 1 2 3]"

definition escape_trace :: "model_input list" where
  "escape_trace =
     [seal_input 1 create_main, quarantine_input 1 [test_object 1 []], prepare_input 1 create_main,
      quarantine_input 1 [\<lparr>q_declared = oid 1, q_recomputed = oid 9, q_parents = []\<rparr>],
      stage_input 1 [1], cas_input 0 1 1]"

definition after :: "repository_state \<Rightarrow> model_input list \<Rightarrow> repository_state" where
  "after s inputs = (case run_inputs s inputs of Inr t \<Rightarrow> t | Inl _ \<Rightarrow> s)"

abbreviation reached :: "model_input list \<Rightarrow> repository_state" where
  "reached inputs \<equiv> after (genesis test_genesis) inputs"

lemma after_run: "list_all allowed inputs \<Longrightarrow> run allowed s (after s inputs)"
  by (auto simp: after_def split: sum.splits intro: run_refl run_inputs_run)

lemmas reached_run = after_run [of _ _ "genesis test_genesis"]

lemma after_any: "run any_input s (after s inputs)"
  by (rule after_run) (simp add: list_all_iff)

lemma reached_reachable: "reachable test_genesis (reached inputs)"
  by (rule after_any)

abbreviation staged_state :: repository_state where
  "staged_state \<equiv> reached staging_trace"

abbreviation published_state :: repository_state where
  "published_state \<equiv> reached (staging_trace @ [cas_input 0 1 1])"

text \<open>A sealed request and a configuration that supports no schema.\<close>

definition retiring_input :: model_input where
  "retiring_input =
     configure_input 5 0 1 (test_policy\<lparr>pol_epoch := Counter 2, pol_supported_schemas := bs_of_list []\<rparr>)"

abbreviation retired_state :: repository_state where
  "retired_state \<equiv> reached [seal_input 1 create_main, retiring_input]"

lemma published_state_history:
  "map outcome_entry (st_decisions published_state)
     = [(ident 1, Committed (ident 1)), (ident 2, Refused ExpectedOldRefMismatch (ident 2))] \<and>
   map rcr_tx_id (st_commits published_state) = [ident 1] \<and>
   bt_entries (root_refs (st_roots published_state)) = [(main_ref, oid 1)] \<and>
   head_id (st_head published_state) = ident 1"
  by code_simp

end
