(* ===== verification/Big_Endian.thy ===== *)
theory Big_Endian
  imports Identities
begin

text \<open>
  The byte strings of fixed-width integers: \<open>to_be_bytes\<close> and \<open>from_be_bytes\<close> of the standard
  library on 64-bit words, the unsigned and zigzag scalars of \<open>numeric.rs\<close> in \<open>fgit-types\<close>, and
  their round trips. The lemmas go through base-256 digits of natural numbers.
\<close>

section \<open>Base-256 digits\<close>

definition digits :: "nat \<Rightarrow> nat \<Rightarrow> nat list" where
  "digits k n = map (\<lambda>i. n div 256 ^ (k - 1 - i) mod 256) [0..<k]"

definition horner :: "nat list \<Rightarrow> nat" where
  "horner ds = foldl (\<lambda>a d. 256 * a + d) 0 ds"

lemma length_digits [simp]: "length (digits k n) = k"
  by (simp add: digits_def)

lemma horner_snoc [simp]: "horner [] = 0" "horner (ds @ [d]) = 256 * horner ds + d"
  by (simp_all add: horner_def)

lemma digits_0 [simp]: "digits 0 n = []"
  by (simp add: digits_def)

lemma digits_Suc: "digits (Suc k) n = digits k (n div 256) @ [n mod 256]"
proof -
  have "n div 256 ^ (k - i) = n div 256 div 256 ^ (k - 1 - i)" if "i < k" for i
  proof -
    from that have "k - i = Suc (k - 1 - i)"
      by simp
    then show ?thesis
      by (simp add: div_mult2_eq)
  qed
  then show ?thesis
    by (auto simp: digits_def)
qed

lemma drop_digits: "k \<le> m \<Longrightarrow> drop (m - k) (digits m n) = digits k n"
proof (induction k arbitrary: m n)
  case (Suc k)
  then obtain m' where "m = Suc m'" "k \<le> m'"
    by (cases m) auto
  with Suc.IH [of m' "n div 256"] show ?case
    by (simp add: digits_Suc)
qed simp

lemma horner_digits: "horner (digits k n) = n mod 256 ^ k"
proof (induction k arbitrary: n)
  case (Suc k)
  then show ?case
    by (simp add: digits_Suc mod_mult2_eq)
qed simp

lemma horner_less: "\<forall>d \<in> set ds. d < 256 \<Longrightarrow> horner ds < 256 ^ length ds"
proof (induction ds rule: rev_induct)
  case (snoc d ds)
  then have "horner ds + 1 \<le> 256 ^ length ds" "d < 256"
    by auto
  then have "256 * (horner ds + 1) \<le> 256 * 256 ^ length ds"
    by (rule_tac mult_le_mono2)
  with \<open>d < 256\<close> show ?case
    by simp
qed simp

lemma digits_horner: "\<forall>d \<in> set ds. d < 256 \<Longrightarrow> digits (length ds) (horner ds) = ds"
  by (induction ds rule: rev_induct) (simp_all add: digits_Suc)

lemma horner_replicate_0: "horner (replicate n 0 @ ds) = horner ds"
proof -
  have "foldl (\<lambda>a d. 256 * a + d) 0 (replicate n 0) = (0 :: nat)"
    by (induction n) simp_all
  then show ?thesis
    by (simp add: horner_def)
qed

section \<open>Words as big-endian bytes\<close>

definition to_be_bytes :: "u64 \<Rightarrow> bytes" where
  "to_be_bytes w = map (\<lambda>i. ucast (drop_bit (8 * (7 - i)) w)) [0..<8]"

definition from_be_bytes :: "bytes \<Rightarrow> u64" where
  "from_be_bytes bs = foldl (\<lambda>a b. a * 256 + ucast b) 0 bs"

lemma unat_to_be_bytes: "map unat (to_be_bytes w) = digits 8 (unat w)"
proof -
  have "unat (ucast (drop_bit (8 * j) w) :: u8) = unat w div 256 ^ j mod 256" for j
  proof -
    have "unat w < 2 ^ 64"
      using unsigned_less [of w] by simp
    then have "unat (drop_bit (8 * j) w) = drop_bit (8 * j) (unat w)"
      by (simp add: unsigned_drop_bit_eq take_bit_nat_eq_self)
    also have "\<dots> = unat w div 256 ^ j"
      by (simp add: drop_bit_eq_div power_mult)
    finally show ?thesis
      by (simp add: unsigned_ucast_eq take_bit_eq_mod)
  qed
  then show ?thesis
    by (simp add: to_be_bytes_def digits_def)
qed

lemma length_to_be_bytes [simp]: "length (to_be_bytes w) = 8"
  by (simp add: to_be_bytes_def)

lemma unat_byte_less: "unat (b :: u8) < 256"
  using unsigned_less [of b] by simp

lemma unat_from_be_bytes: "length bs \<le> 8 \<Longrightarrow> unat (from_be_bytes bs) = horner (map unat bs)"
proof (induction bs rule: rev_induct)
  case (snoc b bs)
  then have IH: "unat (from_be_bytes bs) = horner (map unat bs)"
    by simp
  have "horner (map unat bs) < 256 ^ length bs"
    using horner_less [of "map unat bs"] unat_byte_less by simp
  also have "\<dots> \<le> 256 ^ 7"
    using snoc.prems by (intro power_increasing) simp_all
  finally have "256 * horner (map unat bs) + unat b < 2 ^ 64"
    using unat_byte_less [of b] by simp
  moreover have "unat (ucast b :: u64) = unat b"
    by (simp add: unsigned_ucast_eq take_bit_nat_eq_self_iff
        less_trans [OF unat_byte_less])
  ultimately show ?case
    by (simp add: from_be_bytes_def IH [unfolded from_be_bytes_def] unat_word_ariths mult.commute)
qed (simp add: from_be_bytes_def)

text \<open>The last bytes of the expansion, as many as the width of the scalar.\<close>

lemma be_bytes_round_trip:
  assumes "k \<le> 8" "unat w < 256 ^ k"
  shows "from_be_bytes (replicate (8 - k) 0 @ drop (8 - k) (to_be_bytes w)) = w"
proof -
  have "unat (from_be_bytes (replicate (8 - k) 0 @ drop (8 - k) (to_be_bytes w)))
      = horner (drop (8 - k) (digits 8 (unat w)))"
    using assms(1) by (simp add: unat_from_be_bytes horner_replicate_0 flip: drop_map unat_to_be_bytes)
  also have "\<dots> = unat w"
    using assms by (simp add: drop_digits horner_digits)
  finally show ?thesis
    by (simp add: word_unat_eq_iff)
qed

lemma be_bytes_canonical:
  assumes "length bs = k" "k \<le> 8"
  shows "drop (8 - k) (to_be_bytes (from_be_bytes (replicate (8 - k) 0 @ bs))) = bs"
    "unat (from_be_bytes (replicate (8 - k) 0 @ bs)) < 256 ^ k"
proof -
  have val: "unat (from_be_bytes (replicate (8 - k) 0 @ bs)) = horner (map unat bs)"
    using assms by (simp add: unat_from_be_bytes horner_replicate_0)
  then show "unat (from_be_bytes (replicate (8 - k) 0 @ bs)) < 256 ^ k"
    using horner_less [of "map unat bs"] unat_byte_less assms(1) by simp
  have "map unat (drop (8 - k) (to_be_bytes (from_be_bytes (replicate (8 - k) 0 @ bs))))
      = digits k (horner (map unat bs))"
    using assms(2) by (simp add: unat_to_be_bytes val drop_digits flip: drop_map)
  also have "\<dots> = map unat bs"
    using digits_horner [of "map unat bs"] unat_byte_less assms(1) by simp
  finally show "drop (8 - k) (to_be_bytes (from_be_bytes (replicate (8 - k) 0 @ bs))) = bs"
    by (rule map_injective) (simp add: inj_def word_unat_eq_iff)
qed

section \<open>Canonical scalars (numeric.rs)\<close>

unbundle bit_operations_syntax

definition zigzag_encode :: "u64 \<Rightarrow> u64" where
  "zigzag_encode v = push_bit 1 v XOR signed_drop_bit 63 v"

definition zigzag_decode :: "u64 \<Rightarrow> u64" where
  "zigzag_decode bits = drop_bit 1 bits XOR - (bits AND 1)"

lemma bit_zigzag_encode:
  "bit (zigzag_encode v) n \<longleftrightarrow> n < 64 \<and> ((1 \<le> n \<and> bit v (n - 1)) \<noteq> bit v 63)"
proof -
  have "bit (signed_drop_bit 63 v) n \<longleftrightarrow> n < 64 \<and> bit v 63"
    using bit_imp_le_length [of v "63 + n"]
    by (cases "n = 0") (auto simp: bit_signed_drop_bit_iff)
  moreover have "bit (push_bit 1 v) n \<longleftrightarrow> n < 64 \<and> 1 \<le> n \<and> bit v (n - 1)"
    unfolding bit_push_bit_iff possible_bit_word by auto
  ultimately show ?thesis
    unfolding zigzag_encode_def bit_xor_iff by blast
qed

lemma bit_zigzag_decode:
  "bit (zigzag_decode bits) n \<longleftrightarrow> n < 64 \<and> (bit bits (Suc n) \<noteq> bit bits 0)"
proof -
  have "- (bits AND 1) = (if bit bits 0 then - 1 else 0)"
    by (auto simp: and_one_eq bit_0 odd_iff_mod_2_eq_one even_iff_mod_2_eq_zero)
  then have "bit (- (bits AND 1)) n \<longleftrightarrow> n < 64 \<and> bit bits 0"
    by simp
  moreover have "bit (drop_bit 1 bits) n \<longleftrightarrow> n < 64 \<and> bit bits (Suc n)"
    by (auto simp: bit_drop_bit_eq dest: bit_imp_possible_bit)
  ultimately show ?thesis
    unfolding zigzag_decode_def bit_xor_iff by blast
qed

lemma zigzag_decode_encode: "zigzag_decode (zigzag_encode v) = v"
proof (rule bit_word_eqI)
  fix n
  assume "n < LENGTH(64)"
  then show "bit (zigzag_decode (zigzag_encode v)) n \<longleftrightarrow> bit v n"
    by (cases "n = 63") (auto simp: bit_zigzag_decode bit_zigzag_encode)
qed

lemma zigzag_encode_decode: "zigzag_encode (zigzag_decode bits) = bits"
proof (rule bit_word_eqI)
  fix n
  assume "n < LENGTH(64)"
  moreover have "\<not> bit bits 64"
    using bit_imp_le_length [of bits 64] by auto
  ultimately show "bit (zigzag_encode (zigzag_decode bits)) n \<longleftrightarrow> bit bits n"
    by (cases n) (auto simp: bit_zigzag_decode bit_zigzag_encode)
qed

text \<open>
  The unsigned scalars are written as the low bytes of the 64-bit value and recovered with a range
  check, one instance of the macro per width; the signed ones go through the zigzag map.
\<close>

definition unsigned_from_bits :: "string \<Rightarrow> u64 \<Rightarrow> type_refusal + 'w::len word" where
  "unsigned_from_bits field bits =
     (if bits \<le> ucast (max_value :: 'w word) then Inr (ucast bits)
      else Inl (ValueOutOfRange field bits 0 (ucast (max_value :: 'w word))))"

definition signed_from_bits :: "string \<Rightarrow> u64 \<Rightarrow> type_refusal + 'w::len word" where
  "signed_from_bits field bits =
     (let v = zigzag_decode bits in
      if scast (ucast v :: 'w word) = v then Inr (ucast v)
      else Inl (ValueOutOfRange field bits 0 (zigzag_encode (ucast (drop_bit 1 (max_value :: 'w word))))))"

definition signed_to_bits :: "'w::len word \<Rightarrow> u64" where
  "signed_to_bits v = zigzag_encode (scast v)"

lemma unat_max_value: "unat (max_value :: 'w::len word) = 2 ^ LENGTH('w) - 1"
  by (simp add: unsigned_minus_1_eq_mask mask_eq_exp_minus_1)

lemma unsigned_from_bits_Inr:
  assumes "LENGTH('w::len) \<le> 64"
  shows "unsigned_from_bits field bits = Inr (v :: 'w word) \<longleftrightarrow> bits = ucast v"
proof -
  have less: "unat w < 2 ^ 64" for w :: "'w word"
  proof -
    have "unat w < 2 ^ LENGTH('w)"
      using unsigned_less [of w] by simp
    also have "\<dots> \<le> 2 ^ 64"
      using assms by (intro power_increasing) simp_all
    finally show ?thesis .
  qed
  have small: "unat (ucast w :: u64) = unat w" for w :: "'w word"
    using less [of w] by (simp add: unsigned_ucast_eq take_bit_nat_eq_self)
  have "ucast (ucast bits :: 'w word) = bits" if "unat bits < 2 ^ LENGTH('w)"
    using that
    by (simp add: word_unat_eq_iff small unsigned_ucast_eq unsigned_take_bit_eq take_bit_nat_eq_self)
  moreover have "ucast (ucast v :: u64) = v"
  proof -
    have "unat (ucast (ucast v :: u64) :: 'w word) = take_bit LENGTH('w) (unat v)"
      by (simp only: unsigned_ucast_eq [where 'b = 64] small)
    also have "\<dots> = unat v"
      using unsigned_less [of v] by (simp add: take_bit_nat_eq_self)
    finally show ?thesis
      by (simp add: word_unat_eq_iff)
  qed
  moreover have "bits \<le> ucast (max_value :: 'w word) \<longleftrightarrow> unat bits < 2 ^ LENGTH('w)"
    by (simp add: word_le_nat_alt small unat_max_value)
      (metis Suc_pred less_Suc_eq_le zero_less_numeral zero_less_power)
  moreover have "unat v < 2 ^ LENGTH('w)"
    using unsigned_less [of v] by simp
  ultimately show ?thesis
    using small [of v] by (auto simp: unsigned_from_bits_def)
qed

lemma signed_round_trip:
  assumes "LENGTH('w::len) \<le> 64"
  shows "signed_from_bits field bits = Inr (v :: 'w word) \<longleftrightarrow> bits = signed_to_bits v"
proof -
  have "ucast (scast v :: u64) = v"
    by (rule bit_word_eqI) (use assms in \<open>auto simp: bit_simps\<close>)
  then show ?thesis
    using zigzag_encode_decode [of bits] zigzag_decode_encode [of "scast v"]
    by (auto simp: signed_from_bits_def signed_to_bits_def Let_def)
qed

text \<open>The zigzag form of a value has no more bits than its type, so its low bytes are all of it.\<close>

lemma signed_to_bits_fits:
  assumes "LENGTH('w::len) \<le> 64"
  shows "unat (signed_to_bits (v :: 'w word)) < 2 ^ LENGTH('w)"
proof -
  have sign: "bit (scast v :: u64) n \<longleftrightarrow> bit v (LENGTH('w) - 1)" if "n < 64" "LENGTH('w) - 1 \<le> n" for n
    using that by (auto simp: bit_signed_iff min_def)
  have "take_bit LENGTH('w) (signed_to_bits v) = signed_to_bits v"
  proof (rule bit_word_eqI)
    fix n
    assume n: "n < LENGTH(64)"
    show "bit (take_bit LENGTH('w) (signed_to_bits v)) n \<longleftrightarrow> bit (signed_to_bits v) n"
    proof (cases "n < LENGTH('w)")
      case False
      moreover have "1 \<le> n"
        using False len_gt_0 [where ?'a = 'w] by linarith
      moreover have "LENGTH('w) - 1 \<le> n - 1" "n - 1 < 64" "LENGTH('w) - 1 \<le> 63"
        using False n assms by auto
      ultimately have "\<not> bit (signed_to_bits v) n"
        using sign [of "n - 1"] sign [of 63] by (simp add: signed_to_bits_def bit_zigzag_encode)
      with False show ?thesis
        by (simp add: bit_take_bit_iff)
    qed (simp add: bit_take_bit_iff)
  qed
  then have "unat (signed_to_bits v) = take_bit LENGTH('w) (unat (signed_to_bits v))"
    by (metis unsigned_take_bit_eq)
  then show ?thesis
    by (metis take_bit_nat_less_exp)
qed

end
