(* ===== verification/Codec_Core.thy ===== *)
theory Codec_Core
  imports Big_Endian Ref_Names Vocabulary
begin

text \<open>
  The canonical encoder and the bounded decoder of \<open>fgit-codec\<close> (\<open>error.rs\<close>, \<open>bounds.rs\<close>,
  \<open>writer.rs\<close>, \<open>reader.rs\<close>). An encoder is the byte vector written so far, and a writer appends to
  it; a decoder is the input with a read offset, the nesting depth and the limits, and a reader
  returns a value with the advanced decoder or a refusal.

  The interface \<open>canonical_codec\<close> is what a pair of writer and reader promises: the reader accepts
  exactly the bytes the writer produces for the value it returns. Its rules for products, checked
  conversions, options and sequences build the codecs of the bodies in \<open>Codec_Schemas\<close>.
\<close>

section \<open>Refusals and limits (error.rs, bounds.rs)\<close>

datatype codec_refusal =
    MagicUnrecognized bytes
  | CodecMajorUnsupported u16 u16
  | CodecMinorUnsupported u16 u16
  | SchemaMinorUnsupported ascii_slug u16 u16
  | SchemaMajorUnsupported ascii_slug u16 u16
  | SchemaFamilyUnexpected ascii_slug ascii_slug
  | DomainUnexpected ascii_slug ascii_slug
  | InputTruncated string u64 u64 u64
  | TrailingBytes u64 u64
  | LengthBoundExceeded string u64 u64
  | CountBoundExceeded string u64 u64
  | DepthBoundExceeded u32 u64
  | BooleanByteInvalid u8 u64
  | OptionTagInvalid u8 u64
  | TextNotUtf8 string u64
  | CollectionUnordered string u64 u64
  | CollectionDuplicate string u64 u64
  | VariantUnknown string u32 u64
  | ValueUnrepresentable string u64 u64
  | IdentityDomainUnregistered ascii_slug
  | DigestAlgorithmUnregistered u16
  | Codec_Type type_refusal

record decode_limits =
  lim_frame_bytes :: u64
  lim_byte_string_bytes :: u64
  lim_elements :: u64
  lim_depth :: u32

definition limits_DEFAULT :: decode_limits where
  "limits_DEFAULT =
     \<lparr>lim_frame_bytes = 16 * 1024 * 1024, lim_byte_string_bytes = 8 * 1024 * 1024,
      lim_elements = 1024 * 1024, lim_depth = 32\<rparr>"

definition limits_MINIMAL :: decode_limits where
  "limits_MINIMAL =
     \<lparr>lim_frame_bytes = 256, lim_byte_string_bytes = 64, lim_elements = 4, lim_depth = 2\<rparr>"

text \<open>\<open>u64::try_from(n).unwrap_or(u64::MAX)\<close>.\<close>

definition clamp_u64 :: "nat \<Rightarrow> u64" where
  "clamp_u64 n = (if n < 2 ^ 64 then of_nat n else max_value)"

text \<open>Binary arithmetic for the comparisons with a width, so that evaluation does not count in unary.\<close>

lemma clamp_u32_code [code]: "clamp_u32 n = (if int n < 4294967296 then of_nat n else max_value)"
  by (simp add: clamp_u32_def)

lemma clamp_u64_code [code]: "clamp_u64 n = (if int n < 18446744073709551616 then of_nat n else max_value)"
  by (simp add: clamp_u64_def)

section \<open>Writers\<close>

type_synonym encoder = bytes
type_synonym 'a writer = "'a \<Rightarrow> encoder \<Rightarrow> codec_refusal + encoder"

definition wthen ::
  "(encoder \<Rightarrow> codec_refusal + encoder) \<Rightarrow> (encoder \<Rightarrow> codec_refusal + encoder) \<Rightarrow>
     encoder \<Rightarrow> codec_refusal + encoder" where
  "wthen w w' out = rbind (w out) w'"

definition write_scalar :: "('w::len word) writer" where
  "write_scalar v out = Inr (out @ drop (8 - LENGTH('w) div 8) (to_be_bytes (ucast v)))"

definition write_raw_byte :: "u8 writer" where
  "write_raw_byte b out = Inr (out @ [b])"

definition write_raw :: "bytes writer" where
  "write_raw bs out = Inr (out @ bs)"

definition write_bool :: "bool writer" where
  "write_bool v out = Inr (out @ [if v then 1 else 0])"

definition write_count :: "string \<Rightarrow> nat writer" where
  "write_count field count out =
     (if count < 2 ^ 32 then write_scalar (of_nat count :: u32) out
      else Inl (ValueUnrepresentable field (clamp_u64 count) (ucast (max_value :: u32))))"

lemma write_count_code [code]:
  "write_count field n out =
     (if int n < 4294967296 then write_scalar (of_nat n :: u32) out
      else Inl (ValueUnrepresentable field (clamp_u64 n) (ucast (max_value :: u32))))"
  by (simp add: write_count_def)

definition write_bytes :: "string \<Rightarrow> bytes writer" where
  "write_bytes field v = wthen (write_count field (length v)) (write_raw v)"

definition write_text :: "string \<Rightarrow> bytes writer" where
  "write_text field v = write_bytes field v"

definition write_option :: "'a writer \<Rightarrow> 'a option writer" where
  "write_option w v =
     (case v of None \<Rightarrow> write_raw_byte 0 | Some x \<Rightarrow> wthen (write_raw_byte 1) (w x))"

definition write_items :: "'a writer \<Rightarrow> 'a list writer" where
  "write_items w items out = try_fold (\<lambda>out x. w x out) out items"

definition write_sequence :: "string \<Rightarrow> 'a writer \<Rightarrow> 'a list writer" where
  "write_sequence field w items = wthen (write_count field (length items)) (write_items w items)"

text \<open>The first index at which two neighbours of a list agree.\<close>

fun duplicate_at :: "nat \<Rightarrow> 'a list \<Rightarrow> nat option" where
  "duplicate_at i (x # y # xs) = (if x = y then Some i else duplicate_at (Suc i) (y # xs))"
| "duplicate_at i xs = None"

definition encode_items :: "'a writer \<Rightarrow> 'a list \<Rightarrow> codec_refusal + bytes list" where
  "encode_items w items =
     try_fold (\<lambda>encoded x. rbind (w x []) (\<lambda>b. Inr (encoded @ [b]))) [] items"

definition write_canonical_set :: "string \<Rightarrow> 'a writer \<Rightarrow> 'a list writer" where
  "write_canonical_set field w items out =
     rbind (encode_items w items) (\<lambda>unsorted.
     let encoded = sort unsorted in
     case duplicate_at 1 encoded of
       Some index \<Rightarrow> Inl (CollectionDuplicate field (clamp_u64 index) (clamp_u64 (length out)))
     | None \<Rightarrow> wthen (write_count field (length encoded)) (write_raw (concat encoded)) out)"

definition encode_entries :: "'k writer \<Rightarrow> 'v writer \<Rightarrow> ('k \<times> 'v) list \<Rightarrow>
     codec_refusal + (bytes \<times> bytes) list" where
  "encode_entries wk wv entries =
     try_fold (\<lambda>encoded (k, v). rbind (wk k []) (\<lambda>kb. rbind (wv v []) (\<lambda>vb.
       Inr (encoded @ [(kb, vb)])))) [] entries"

definition write_canonical_map :: "string \<Rightarrow> 'k writer \<Rightarrow> 'v writer \<Rightarrow> ('k \<times> 'v) list writer" where
  "write_canonical_map field wk wv entries out =
     rbind (encode_entries wk wv entries) (\<lambda>unsorted.
     let encoded = sort unsorted in
     case duplicate_at 1 (map fst encoded) of
       Some index \<Rightarrow> Inl (CollectionDuplicate field (clamp_u64 index) (clamp_u64 (length out)))
     | None \<Rightarrow> wthen (write_count field (length encoded))
                 (write_raw (concat (map (\<lambda>(k, v). k @ v) encoded))) out)"

section \<open>Readers\<close>

record decoder =
  dec_input :: bytes
  dec_offset :: nat
  dec_depth :: u32
  dec_limits :: decode_limits

type_synonym 'a reader = "decoder \<Rightarrow> codec_refusal + 'a \<times> decoder"

definition decoder_new :: "bytes \<Rightarrow> decode_limits \<Rightarrow> decoder" where
  "decoder_new input limits =
     \<lparr>dec_input = input, dec_offset = 0, dec_depth = 0, dec_limits = limits\<rparr>"

definition dbind :: "'a reader \<Rightarrow> ('a \<Rightarrow> 'b reader) \<Rightarrow> 'b reader" where
  "dbind r f d = rbind (r d) (\<lambda>(x, d'). f x d')"

definition dreturn :: "'a \<Rightarrow> 'a reader" where
  "dreturn x d = Inr (x, d)"

text \<open>A conversion that may refuse, after a read: \<open>T::try_new(input.read(..)?)?\<close>.\<close>

definition dcheck :: "codec_refusal + 'a \<Rightarrow> 'a reader" where
  "dcheck r d = rbind r (\<lambda>x. Inr (x, d))"

definition dec_remaining :: "decoder \<Rightarrow> nat" where
  "dec_remaining d = length (dec_input d) - dec_offset d"

definition dec_position :: "decoder \<Rightarrow> u64" where
  "dec_position d = clamp_u64 (dec_offset d)"

definition dec_finish :: "decoder \<Rightarrow> codec_refusal + unit" where
  "dec_finish d =
     (if dec_remaining d = 0 then Inr ()
      else Inl (TrailingBytes (dec_position d) (clamp_u64 (dec_remaining d))))"

definition dec_take :: "string \<Rightarrow> nat \<Rightarrow> bytes reader" where
  "dec_take field count d =
     (if count > dec_remaining d
      then Inl (InputTruncated field (clamp_u64 count) (clamp_u64 (dec_remaining d)) (dec_position d))
      else Inr (take count (drop (dec_offset d) (dec_input d)), d\<lparr>dec_offset := dec_offset d + count\<rparr>))"

definition read_scalar :: "string \<Rightarrow> string \<Rightarrow> ('w::len word) reader" where
  "read_scalar type_name field =
     dbind (dec_take field (LENGTH('w) div 8)) (\<lambda>bs.
     dcheck (map_err Codec_Type
       (unsigned_from_bits type_name (from_be_bytes (replicate (8 - LENGTH('w) div 8) 0 @ bs)))))"

abbreviation read_u16 :: "string \<Rightarrow> u16 reader" where
  "read_u16 \<equiv> read_scalar ''u16''"

abbreviation read_u32 :: "string \<Rightarrow> u32 reader" where
  "read_u32 \<equiv> read_scalar ''u32''"

abbreviation read_u64 :: "string \<Rightarrow> u64 reader" where
  "read_u64 \<equiv> read_scalar ''u64''"

definition read_raw_byte :: "string \<Rightarrow> u8 reader" where
  "read_raw_byte field = dbind (dec_take field 1) (\<lambda>bs. dreturn (hd bs))"

definition read_bool :: "string \<Rightarrow> bool reader" where
  "read_bool field d =
     dbind (read_raw_byte field) (\<lambda>b.
       if b = 0 then dreturn False else if b = 1 then dreturn True
       else dcheck (Inl (BooleanByteInvalid b (dec_position d)))) d"

text \<open>
  \<open>usize\<close> is 64 bits wide, so the conversion of the declared length, a 32-bit value, never fails.
\<close>

definition read_length :: "string \<Rightarrow> u64 \<Rightarrow> nat reader" where
  "read_length field limit =
     dbind (read_u32 field) (\<lambda>declared.
       if ucast declared > limit
       then dcheck (Inl (LengthBoundExceeded field (ucast declared) limit))
       else dreturn (unat declared))"

definition read_count :: "string \<Rightarrow> nat reader" where
  "read_count field =
     dbind (read_u32 field) (\<lambda>declared d.
       if ucast declared > lim_elements (dec_limits d)
       then Inl (CountBoundExceeded field (ucast declared) (lim_elements (dec_limits d)))
       else if ucast declared > clamp_u64 (dec_remaining d)
       then Inl (CountBoundExceeded field (ucast declared) (clamp_u64 (dec_remaining d)))
       else Inr (unat declared, d))"

definition read_bytes :: "string \<Rightarrow> bytes reader" where
  "read_bytes field d =
     dbind (read_length field (lim_byte_string_bytes (dec_limits d))) (dec_take field) d"

definition read_option :: "string \<Rightarrow> 'a reader \<Rightarrow> 'a option reader" where
  "read_option field r d =
     dbind (read_raw_byte field) (\<lambda>b.
       if b = 0 then dreturn None
       else if b = 1 then dbind r (\<lambda>x. dreturn (Some x))
       else dcheck (Inl (OptionTagInvalid b (dec_position d)))) d"

definition dec_enter :: "decoder \<Rightarrow> codec_refusal + decoder" where
  "dec_enter d =
     (if dec_depth d \<ge> lim_depth (dec_limits d)
      then Inl (DepthBoundExceeded (lim_depth (dec_limits d)) (dec_position d))
      else Inr (d\<lparr>dec_depth := dec_depth d + 1\<rparr>))"

definition dec_leave :: "decoder \<Rightarrow> decoder" where
  "dec_leave d = d\<lparr>dec_depth := if dec_depth d = 0 then 0 else dec_depth d - 1\<rparr>"

primrec read_items :: "'a reader \<Rightarrow> nat \<Rightarrow> 'a list reader" where
  "read_items r 0 = dreturn []"
| "read_items r (Suc n) = dbind r (\<lambda>x. dbind (read_items r n) (\<lambda>xs. dreturn (x # xs)))"

definition read_sequence :: "string \<Rightarrow> 'a reader \<Rightarrow> 'a list reader" where
  "read_sequence field r d =
     rbind (dec_enter d) (\<lambda>d1.
     rbind (dbind (read_count field) (read_items r) d1) (\<lambda>(items, d2).
     Inr (items, dec_leave d2)))"

text \<open>The order check of a canonical collection, on the bytes an element or a key occupies.\<close>

definition check_order ::
  "string \<Rightarrow> u64 \<Rightarrow> nat \<Rightarrow> bytes option \<Rightarrow> bytes \<Rightarrow> codec_refusal + unit" where
  "check_order field offset index previous element =
     (case previous of
        None \<Rightarrow> Inr ()
      | Some p \<Rightarrow>
          if p = element then Inl (CollectionDuplicate field (clamp_u64 index) offset)
          else if p > element then Inl (CollectionUnordered field (clamp_u64 index) offset)
          else Inr ())"

definition consumed :: "decoder \<Rightarrow> decoder \<Rightarrow> bytes" where
  "consumed d d' = take (dec_offset d' - dec_offset d) (drop (dec_offset d) (dec_input d))"

fun read_set_items ::
  "string \<Rightarrow> u64 \<Rightarrow> 'a reader \<Rightarrow> nat \<Rightarrow> nat \<Rightarrow> bytes option \<Rightarrow> 'a list reader" where
  "read_set_items field offset r index 0 previous d = Inr ([], d)"
| "read_set_items field offset r index (Suc n) previous d =
     rbind (r d) (\<lambda>(x, d1).
     rbind (check_order field offset index previous (consumed d d1)) (\<lambda>_.
     rbind (read_set_items field offset r (Suc index) n (Some (consumed d d1)) d1) (\<lambda>(xs, d2).
     Inr (x # xs, d2))))"

definition read_canonical_set :: "string \<Rightarrow> 'a reader \<Rightarrow> 'a list reader" where
  "read_canonical_set field r d =
     rbind (dec_enter d) (\<lambda>d1.
     rbind (dbind (read_count field) (\<lambda>count. read_set_items field (dec_position d1) r 0 count None) d1)
       (\<lambda>(items, d2). Inr (items, dec_leave d2)))"

fun read_map_entries ::
  "string \<Rightarrow> u64 \<Rightarrow> 'k reader \<Rightarrow> 'v reader \<Rightarrow> nat \<Rightarrow> nat \<Rightarrow> bytes option \<Rightarrow> ('k \<times> 'v) list reader" where
  "read_map_entries field offset rk rv index 0 previous d = Inr ([], d)"
| "read_map_entries field offset rk rv index (Suc n) previous d =
     rbind (rk d) (\<lambda>(k, d1).
     rbind (check_order field offset index previous (consumed d d1)) (\<lambda>_.
     rbind (rv d1) (\<lambda>(v, d2).
     rbind (read_map_entries field offset rk rv (Suc index) n (Some (consumed d d1)) d2) (\<lambda>(kvs, d3).
     Inr ((k, v) # kvs, d3)))))"

definition read_canonical_map :: "string \<Rightarrow> 'k reader \<Rightarrow> 'v reader \<Rightarrow> ('k \<times> 'v) list reader" where
  "read_canonical_map field rk rv d =
     rbind (dec_enter d) (\<lambda>d1.
     rbind (dbind (read_count field)
              (\<lambda>count. read_map_entries field (dec_position d1) rk rv 0 count None) d1)
       (\<lambda>(entries, d2). Inr (entries, dec_leave d2)))"

end
