(* ===== verification/Codec_Laws.thy ===== *)
theory Codec_Laws
  imports Codec_Core
begin

text \<open>
  What a writer and a reader promise each other, and the rules that build codecs from codecs.
\<close>

section \<open>The contract\<close>

text \<open>The bytes still to be read, and the decoder after reading some of them.\<close>

definition unread :: "decoder \<Rightarrow> bytes" where
  "unread d = drop (dec_offset d) (dec_input d)"

definition advance_by :: "nat \<Rightarrow> decoder \<Rightarrow> decoder" where
  "advance_by n d = d\<lparr>dec_offset := dec_offset d + n\<rparr>"

definition in_bounds :: "decoder \<Rightarrow> bool" where
  "in_bounds d \<longleftrightarrow> dec_offset d \<le> length (dec_input d)"

lemma advance_by_simps [simp]:
  "dec_limits (advance_by n d) = dec_limits d" "dec_depth (advance_by n d) = dec_depth d"
  "dec_input (advance_by n d) = dec_input d" "dec_offset (advance_by n d) = dec_offset d + n"
  "advance_by m (advance_by n d) = advance_by (n + m) d" "advance_by 0 d = d"
  "unread (advance_by n d) = drop n (unread d)"
  by (simp_all add: advance_by_def unread_def add.commute)

lemma in_bounds_advance: "in_bounds d \<Longrightarrow> prefix b (unread d) \<Longrightarrow> in_bounds (advance_by (length b) d)"
  by (auto simp: in_bounds_def unread_def dest!: prefix_length_le)

lemma length_unread [simp]: "length (unread d) = dec_remaining d"
  by (simp add: unread_def dec_remaining_def)

lemma prefix_append_drop: "prefix (b @ c) xs \<longleftrightarrow> prefix b xs \<and> prefix c (drop (length b) xs)"
  by (auto simp: prefix_def)

lemma prefix_same_length: "prefix b xs \<Longrightarrow> prefix c xs \<Longrightarrow> length b = length c \<Longrightarrow> b = c"
  by (auto simp: prefix_def)

lemma prefix_length_iff: "prefix bs xs \<and> length bs = n \<longleftrightarrow> n \<le> length xs \<and> bs = take n xs"
  by (auto simp: take_is_prefix dest: prefix_length_le) (auto simp: prefix_def)

lemma dec_take_iff:
  "dec_take field n d = Inr (bs, d') \<longleftrightarrow> (prefix bs (unread d) \<and> length bs = n) \<and> d' = advance_by n d"
  unfolding prefix_length_iff by (auto simp: dec_take_def advance_by_def unread_def dec_remaining_def)

text \<open>
  The reader accepts exactly what the writer writes: with the given limits and at the given depth it
  returns the value \<open>x\<close> if and only if \<open>x\<close> is admissible there and the encoding of \<open>x\<close> is at the
  read position, and it then consumes that encoding and nothing else.
\<close>

locale canonical_codec =
  fixes w :: "'a writer" and r :: "'a reader"
    and adm :: "decode_limits \<Rightarrow> u32 \<Rightarrow> 'a \<Rightarrow> bool"
  assumes appends: "w x out = Inr out' \<longleftrightarrow> (\<exists>b. w x [] = Inr b \<and> out' = out @ b)"
    and nonempty: "adm limits depth x \<Longrightarrow> w x [] = Inr b \<Longrightarrow> b \<noteq> []"
    and writes: "adm limits depth x \<Longrightarrow> \<exists>b. w x [] = Inr b"
    and reads: "in_bounds d \<Longrightarrow> r d = Inr (x, d') \<longleftrightarrow>
      adm (dec_limits d) (dec_depth d) x \<and>
      (\<exists>b. w x [] = Inr b \<and> prefix b (unread d) \<and> d' = advance_by (length b) d)"
begin

lemma read_written:
  assumes "adm limits 0 x" "w x [] = Inr b"
  shows "r (decoder_new (b @ tail) limits) = Inr (x, advance_by (length b) (decoder_new (b @ tail) limits))"
  using assms by (subst reads) (auto simp: in_bounds_def decoder_new_def unread_def)

text \<open>Encodings are prefix-free, in particular two values never share one.\<close>

lemma prefix_free:
  assumes "adm limits 0 x" "w x [] = Inr b" "adm limits 0 y" "w y [] = Inr c" "prefix b c"
  shows "x = y"
proof -
  from assms(5) obtain tail where "c = b @ tail"
    by (auto simp: prefix_def)
  with read_written [OF assms(1,2), of tail] read_written [OF assms(3,4), of "[]"] show ?thesis
    by simp
qed

lemma read_in_bounds: "in_bounds d \<Longrightarrow> r d = Inr (x, d') \<Longrightarrow> in_bounds d'"
  by (auto simp: reads intro: in_bounds_advance)

lemma read_consumed:
  assumes "in_bounds d" "r d = Inr (x, d')"
  shows "w x [] = Inr (consumed d d')"
proof -
  from assms obtain b where "w x [] = Inr b" "prefix b (unread d)" "d' = advance_by (length b) d"
    by (auto simp: reads)
  then show ?thesis
    by (auto simp: consumed_def unread_def prefix_def)
qed

end

section \<open>Building codecs\<close>

text \<open>A product: the second part follows the first.\<close>

definition pair_writer :: "'a writer \<Rightarrow> 'b writer \<Rightarrow> ('a \<times> 'b) writer" where
  "pair_writer wa wb p = wthen (wa (fst p)) (wb (snd p))"

definition pair_reader :: "'a reader \<Rightarrow> 'b reader \<Rightarrow> ('a \<times> 'b) reader" where
  "pair_reader ra rb = dbind ra (\<lambda>x. dbind rb (\<lambda>y. dreturn (x, y)))"

lemma dbind_iff:
  assumes "canonical_codec w r adm" "in_bounds d"
  shows "dbind r f d = Inr (y, d') \<longleftrightarrow>
    (\<exists>x b. adm (dec_limits d) (dec_depth d) x \<and> w x [] = Inr b \<and> prefix b (unread d) \<and>
       f x (advance_by (length b) d) = Inr (y, d'))"
  using canonical_codec.reads [OF assms] by (auto simp: dbind_def)

lemma wthen_appends:
  assumes "\<And>out out'. f out = Inr out' \<longleftrightarrow> (\<exists>b. f [] = Inr b \<and> out' = out @ b)"
    and "\<And>out out'. g out = Inr out' \<longleftrightarrow> (\<exists>b. g [] = Inr b \<and> out' = out @ b)"
  shows "wthen f g out = Inr out' \<longleftrightarrow> (\<exists>a b. f [] = Inr a \<and> g [] = Inr b \<and> out' = out @ a @ b)"
  unfolding wthen_def rbind_Inr_iff assms(1) [of out] by (auto simp: assms(2) [of "out @ _"])

lemma pair_writer_iff:
  assumes "canonical_codec wa ra oka" "canonical_codec wb rb okb"
  shows "pair_writer wa wb p out = Inr out' \<longleftrightarrow>
    (\<exists>ba bb. wa (fst p) [] = Inr ba \<and> wb (snd p) [] = Inr bb \<and> out' = out @ ba @ bb)"
  unfolding pair_writer_def
  by (rule wthen_appends) (rule canonical_codec.appends [OF assms(1)], rule canonical_codec.appends [OF assms(2)])

text \<open>A tag decides how the rest is written and read.\<close>

lemma codec_tagged:
  assumes a: "canonical_codec wa ra oka" and b: "\<And>t. canonical_codec (wb t) (rb t) (okb t)"
  shows "canonical_codec (\<lambda>p. wthen (wa (fst p)) (wb (fst p) (snd p)))
    (dbind ra (\<lambda>t. dbind (rb t) (\<lambda>y. dreturn (t, y))))
    (\<lambda>limits depth p. oka limits depth (fst p) \<and> okb (fst p) limits depth (snd p))"
proof
  have bytes: "wthen (wa (fst p)) (wb (fst p) (snd p)) out = Inr out' \<longleftrightarrow>
      (\<exists>ba bb. wa (fst p) [] = Inr ba \<and> wb (fst p) (snd p) [] = Inr bb \<and> out' = out @ ba @ bb)" for p out out'
    by (rule wthen_appends) (rule canonical_codec.appends [OF a], rule canonical_codec.appends [OF b])
  show "wthen (wa (fst p)) (wb (fst p) (snd p)) out = Inr out' \<longleftrightarrow>
      (\<exists>b. wthen (wa (fst p)) (wb (fst p) (snd p)) [] = Inr b \<and> out' = out @ b)" for p out out'
    by (auto simp: bytes)
  show "c \<noteq> []" if "oka limits depth (fst p) \<and> okb (fst p) limits depth (snd p)"
    "wthen (wa (fst p)) (wb (fst p) (snd p)) [] = Inr c" for limits depth p c
    using that canonical_codec.nonempty [OF a, of limits depth "fst p"] by (auto simp: bytes)
  show "\<exists>c. wthen (wa (fst p)) (wb (fst p) (snd p)) [] = Inr c"
    if "oka limits depth (fst p) \<and> okb (fst p) limits depth (snd p)" for limits depth p
    using that canonical_codec.writes [OF a, of limits depth "fst p"]
      canonical_codec.writes [OF b, of "fst p" limits depth "snd p"]
    by (auto simp: bytes)
  show "dbind ra (\<lambda>t. dbind (rb t) (\<lambda>y. dreturn (t, y))) d = Inr (p, d') \<longleftrightarrow>
      (oka (dec_limits d) (dec_depth d) (fst p) \<and> okb (fst p) (dec_limits d) (dec_depth d) (snd p)) \<and>
      (\<exists>c. wthen (wa (fst p)) (wb (fst p) (snd p)) [] = Inr c \<and> prefix c (unread d) \<and> d' = advance_by (length c) d)"
    if "in_bounds d" for d p d'
  proof (cases p)
    case (Pair x y)
    have "dbind (rb t) (\<lambda>y. dreturn (t, y)) (advance_by (length ba) d) = Inr ((x, y), d') \<longleftrightarrow>
        t = x \<and> okb t (dec_limits d) (dec_depth d) y \<and>
        (\<exists>bb. wb t y [] = Inr bb \<and> prefix bb (drop (length ba) (unread d)) \<and>
           d' = advance_by (length ba + length bb) d)" if "prefix ba (unread d)" for t ba
      unfolding dbind_iff [OF b in_bounds_advance [OF \<open>in_bounds d\<close> that]]
      by (auto simp: dreturn_def)
    then show ?thesis
      unfolding dbind_iff [OF a that] Pair bytes
      by (auto simp: prefix_append_drop)
  qed
qed

lemma codec_pair:
  assumes "canonical_codec wa ra oka" "canonical_codec wb rb okb"
  shows "canonical_codec (pair_writer wa wb) (pair_reader ra rb)
    (\<lambda>limits depth p. oka limits depth (fst p) \<and> okb limits depth (snd p))"
  unfolding pair_writer_def [abs_def] pair_reader_def by (rule codec_tagged [OF assms])

text \<open>A checked conversion of what was read: constructors that validate, code points, records.\<close>

definition conv_writer :: "('b \<Rightarrow> 'a) \<Rightarrow> 'a writer \<Rightarrow> 'b writer" where
  "conv_writer unmake w y = w (unmake y)"

definition conv_reader :: "('a \<Rightarrow> codec_refusal + 'b) \<Rightarrow> 'a reader \<Rightarrow> 'b reader" where
  "conv_reader conv r = dbind r (\<lambda>x. dcheck (conv x))"

lemma codec_conv:
  assumes codec: "canonical_codec w r adm"
    and conv: "\<And>limits depth x y. adm limits depth x \<Longrightarrow> conv x = Inr y \<longleftrightarrow> x = unmake y \<and> good y"
  shows "canonical_codec (conv_writer unmake w) (conv_reader conv r)
    (\<lambda>limits depth y. good y \<and> adm limits depth (unmake y))"
proof
  show "conv_writer unmake w y out = Inr out' \<longleftrightarrow> (\<exists>b. conv_writer unmake w y [] = Inr b \<and> out' = out @ b)" for y out out'
    unfolding conv_writer_def by (rule canonical_codec.appends [OF codec])
  show "b \<noteq> []" if "good y \<and> adm limits depth (unmake y)" "conv_writer unmake w y [] = Inr b"
    for limits depth y b
    using that canonical_codec.nonempty [OF codec] by (auto simp: conv_writer_def)
  show "\<exists>b. conv_writer unmake w y [] = Inr b" if "good y \<and> adm limits depth (unmake y)" for limits depth y
    using that canonical_codec.writes [OF codec, of limits depth "unmake y"] by (simp add: conv_writer_def)
  show "conv_reader conv r d = Inr (y, d') \<longleftrightarrow>
      (good y \<and> adm (dec_limits d) (dec_depth d) (unmake y)) \<and>
      (\<exists>b. conv_writer unmake w y [] = Inr b \<and> prefix b (unread d) \<and> d' = advance_by (length b) d)"
    if "in_bounds d" for d y d'
    unfolding conv_reader_def dbind_iff [OF codec that] dcheck_def conv_writer_def rbind_Inr_iff
    using conv [of "dec_limits d" "dec_depth d"] by auto
qed

text \<open>A conversion that cannot fail.\<close>

lemma codec_iso:
  assumes "canonical_codec w r adm" "\<And>x. unmake (build x) = x" "\<And>y. build (unmake y) = y"
  shows "canonical_codec (\<lambda>y. w (unmake y)) (dbind r (\<lambda>x. dreturn (build x)))
    (\<lambda>limits depth y. adm limits depth (unmake y))"
proof -
  have "canonical_codec (conv_writer unmake w) (conv_reader (\<lambda>x. Inr (build x)) r)
      (\<lambda>limits depth y. True \<and> adm limits depth (unmake y))"
    by (rule codec_conv [OF assms(1)]) (use assms(2,3) in auto)
  moreover have "conv_reader (\<lambda>x. Inr (build x)) r = dbind r (\<lambda>x. dreturn (build x))"
    by (simp add: conv_reader_def dcheck_def dreturn_def fun_eq_iff dbind_def)
  ultimately show ?thesis
    by (simp add: conv_writer_def [abs_def])
qed

section \<open>Primitive codecs\<close>

lemma codec_raw_byte:
  "canonical_codec write_raw_byte (read_raw_byte field) (\<lambda>_ _ _. True)"
proof
  show "read_raw_byte field d = Inr (x, d') \<longleftrightarrow>
      True \<and> (\<exists>b. write_raw_byte x [] = Inr b \<and> prefix b (unread d) \<and> d' = advance_by (length b) d)" for d x d'
  proof -
    have "read_raw_byte field d = Inr (x, d') \<longleftrightarrow>
        (\<exists>bs. prefix bs (unread d) \<and> length bs = 1 \<and> d' = advance_by 1 d \<and> x = hd bs)"
      by (auto simp: read_raw_byte_def dbind_def dreturn_def dec_take_iff)
    also have "\<dots> \<longleftrightarrow> prefix [x] (unread d) \<and> d' = advance_by 1 d"
      by (auto simp: length_Suc_conv intro: exI [of _ "[x]"])
    finally show ?thesis
      by (simp add: write_raw_byte_def)
  qed
qed (auto simp: write_raw_byte_def)

lemma codec_raw:
  assumes "0 < n"
  shows "canonical_codec write_raw (dec_take field n) (\<lambda>_ _ bs. length bs = n)"
  by unfold_locales (use assms in \<open>auto simp: write_raw_def dec_take_iff\<close>)

text \<open>Fixed-width integers: the widths are whole bytes, at most eight.\<close>

lemma codec_scalar:
  assumes "LENGTH('w::len) = 8 * k" "0 < k" "k \<le> 8"
  shows "canonical_codec (write_scalar :: 'w word writer) (read_scalar type_name field) (\<lambda>_ _ _. True)"
proof -
  let ?unmake = "\<lambda>v :: 'w word. drop (8 - k) (to_be_bytes (ucast v))"
  let ?conv = "\<lambda>bs. map_err Codec_Type
      (unsigned_from_bits type_name (from_be_bytes (replicate (8 - k) 0 @ bs)) :: type_refusal + 'w word)"
  have width: "LENGTH('w) div 8 = k"
    using assms(1) by simp
  have "canonical_codec (conv_writer ?unmake write_raw) (conv_reader ?conv (dec_take field k))
      (\<lambda>limits depth v. True \<and> length (?unmake v) = k)"
  proof (rule codec_conv [OF codec_raw [OF assms(2)]])
    fix bs :: bytes and v :: "'w word"
    assume bs: "length bs = k"
    have "?conv bs = Inr v \<longleftrightarrow> from_be_bytes (replicate (8 - k) 0 @ bs) = ucast v"
      using assms by (simp add: unsigned_from_bits_Inr)
    also have "\<dots> \<longleftrightarrow> bs = ?unmake v"
    proof
      assume "from_be_bytes (replicate (8 - k) 0 @ bs) = ucast v"
      with be_bytes_canonical(1) [OF bs assms(3)] show "bs = ?unmake v"
        by simp
    next
      have "unat (ucast v :: u64) \<le> unat v"
        by (simp add: unsigned_ucast_eq)
      also have "\<dots> < 2 ^ LENGTH('w)"
        using unsigned_less [of v] by simp
      also have "\<dots> = 256 ^ k"
        by (simp add: assms(1) power_mult)
      finally show "from_be_bytes (replicate (8 - k) 0 @ bs) = ucast v" if "bs = ?unmake v"
        using be_bytes_round_trip [OF assms(3)] that by simp
    qed
    finally show "?conv bs = Inr v \<longleftrightarrow> bs = ?unmake v \<and> True"
      by simp
  qed
  moreover have "conv_writer ?unmake write_raw = write_scalar"
    by (simp add: fun_eq_iff conv_writer_def write_scalar_def write_raw_def width)
  moreover have "conv_reader ?conv (dec_take field k) = read_scalar type_name field"
    by (simp add: fun_eq_iff conv_reader_def read_scalar_def width)
  ultimately show ?thesis
    using assms(3) by simp
qed

lemma codec_u16: "canonical_codec (write_scalar :: u16 writer) (read_scalar type_name field) (\<lambda>_ _ _. True)"
  by (rule codec_scalar [of 2]) simp_all

lemma codec_u32: "canonical_codec (write_scalar :: u32 writer) (read_scalar type_name field) (\<lambda>_ _ _. True)"
  by (rule codec_scalar [of 4]) simp_all

lemma codec_u64: "canonical_codec (write_scalar :: u64 writer) (read_scalar type_name field) (\<lambda>_ _ _. True)"
  by (rule codec_scalar [of 8]) simp_all

text \<open>Length-prefixed byte strings.\<close>

lemma write_count_iff:
  "write_count field n out = Inr out' \<longleftrightarrow>
     n < 2 ^ 32 \<and> (\<exists>b. write_scalar (of_nat n :: u32) [] = Inr b \<and> out' = out @ b)"
  by (auto simp: write_count_def write_scalar_def)

lemma length_write_scalar:
  "write_scalar (v :: 'w::len word) [] = Inr b \<Longrightarrow> LENGTH('w) div 8 \<le> 8 \<Longrightarrow> length b = LENGTH('w) div 8"
  by (auto simp: write_scalar_def)

lemma write_bytes_iff:
  "write_bytes field v out = Inr out' \<longleftrightarrow>
     length v < 2 ^ 32 \<and>
     (\<exists>b. write_scalar (of_nat (length v) :: u32) [] = Inr b \<and> out' = out @ b @ v)"
  by (auto simp: write_bytes_def wthen_def write_count_iff write_raw_def)

definition adm_bytes :: "decode_limits \<Rightarrow> u32 \<Rightarrow> bytes \<Rightarrow> bool" where
  "adm_bytes limits depth v \<longleftrightarrow>
     length v < 2 ^ 32 \<and> length v \<le> unat (lim_byte_string_bytes limits)"

lemma unat_u32: "unat (n :: u32) < 2 ^ 32"
  using unsigned_less [of n] by simp

lemma unat_ucast_u32: "unat (ucast (n :: u32) :: u64) = unat n"
  using unat_u32 [of n] by (simp add: unsigned_ucast_eq take_bit_nat_eq_self)

lemma unat_of_nat_small: "n < 2 ^ LENGTH('w) \<Longrightarrow> unat (of_nat n :: 'w::len word) = n"
  by (simp add: unsigned_of_nat take_bit_nat_eq_self)

lemma declared_iff:
  "(\<exists>declared :: u32. P declared \<and> n = unat declared) \<longleftrightarrow> n < 2 ^ 32 \<and> P (of_nat n)"
  using unat_u32 by (auto simp: unat_of_nat_small intro: exI [of _ "of_nat n :: u32"])

lemma read_length_iff:
  assumes "in_bounds d"
  shows "read_length field limit d = Inr (n, d') \<longleftrightarrow>
    n < 2 ^ 32 \<and> n \<le> unat limit \<and>
    (\<exists>b. write_scalar (of_nat n :: u32) [] = Inr b \<and> prefix b (unread d) \<and> d' = advance_by (length b) d)"
proof -
  have "read_length field limit d = Inr (n, d') \<longleftrightarrow>
      (\<exists>declared :: u32. (unat declared \<le> unat limit \<and>
         (\<exists>b. write_scalar declared [] = Inr b \<and> prefix b (unread d) \<and> d' = advance_by (length b) d)) \<and>
         n = unat declared)"
    unfolding read_length_def dbind_iff [OF codec_u32 assms]
    by (auto simp: dcheck_def dreturn_def word_less_nat_alt unat_ucast_u32 not_less split: if_splits)
  also have "\<dots> \<longleftrightarrow> n < 2 ^ 32 \<and> n \<le> unat limit \<and>
      (\<exists>b. write_scalar (of_nat n :: u32) [] = Inr b \<and> prefix b (unread d) \<and> d' = advance_by (length b) d)"
    unfolding declared_iff by (auto simp: unat_of_nat_small)
  finally show ?thesis .
qed

lemma unat_clamp_u64: "n < 2 ^ 32 \<Longrightarrow> n \<le> unat (clamp_u64 m) \<longleftrightarrow> n \<le> m"
proof -
  assume "n < 2 ^ 32"
  moreover have "unat (of_nat m :: u64) = m" if "m < 2 ^ 64"
    using that by (simp add: unat_of_nat_small)
  ultimately show ?thesis
    by (auto simp: clamp_u64_def unat_max_value)
qed

lemma read_count_iff:
  assumes "in_bounds d"
  shows "read_count field d = Inr (n, d') \<longleftrightarrow>
    n < 2 ^ 32 \<and> n \<le> unat (lim_elements (dec_limits d)) \<and>
    (\<exists>b. write_scalar (of_nat n :: u32) [] = Inr b \<and> prefix b (unread d) \<and> d' = advance_by (length b) d \<and>
       n \<le> dec_remaining d')"
proof -
  have "read_count field d = Inr (n, d') \<longleftrightarrow>
      (\<exists>declared :: u32. (unat declared \<le> unat (lim_elements (dec_limits d)) \<and>
         (\<exists>b. write_scalar declared [] = Inr b \<and> prefix b (unread d) \<and> d' = advance_by (length b) d \<and>
            unat declared \<le> dec_remaining d')) \<and> n = unat declared)"
    unfolding read_count_def dbind_iff [OF codec_u32 assms]
    by (auto simp: word_less_nat_alt unat_ucast_u32 not_less unat_clamp_u64 [OF unat_u32] split: if_splits)
  also have "\<dots> \<longleftrightarrow> n < 2 ^ 32 \<and> n \<le> unat (lim_elements (dec_limits d)) \<and>
      (\<exists>b. write_scalar (of_nat n :: u32) [] = Inr b \<and> prefix b (unread d) \<and> d' = advance_by (length b) d \<and>
         n \<le> dec_remaining d')"
    unfolding declared_iff by (auto simp: unat_of_nat_small)
  finally show ?thesis .
qed

lemma codec_bytes: "canonical_codec (write_bytes field) (read_bytes field') adm_bytes"
proof
  show "read_bytes field' d = Inr (x, d') \<longleftrightarrow>
      adm_bytes (dec_limits d) (dec_depth d) x \<and>
      (\<exists>b. write_bytes field x [] = Inr b \<and> prefix b (unread d) \<and> d' = advance_by (length b) d)"
    if "in_bounds d" for d x d'
    unfolding read_bytes_def dbind_def rbind_Inr_iff split_paired_Ex prod.case
      read_length_iff [OF that] dec_take_iff adm_bytes_def
    by (auto simp: write_bytes_iff prefix_append_drop)
qed (auto simp: write_bytes_iff adm_bytes_def write_scalar_def)

section \<open>Options and collections\<close>

definition adm_option ::
  "(decode_limits \<Rightarrow> u32 \<Rightarrow> 'a \<Rightarrow> bool) \<Rightarrow> decode_limits \<Rightarrow> u32 \<Rightarrow> 'a option \<Rightarrow> bool" where
  "adm_option adm limits depth v \<longleftrightarrow> (\<forall>x. v = Some x \<longrightarrow> adm limits depth x)"

lemma codec_option:
  assumes codec: "canonical_codec w r adm"
  shows "canonical_codec (write_option w) (read_option field r) (adm_option adm)"
proof
  have bytes: "write_option w v out = Inr out' \<longleftrightarrow>
      (case v of None \<Rightarrow> out' = out @ [0] | Some x \<Rightarrow> \<exists>b. w x [] = Inr b \<and> out' = out @ [1] @ b)" for v out out'
    using canonical_codec.appends [OF codec, of _ "out @ [1]"]
    by (auto simp: write_option_def wthen_def write_raw_byte_def split: option.splits)
  show "write_option w v out = Inr out' \<longleftrightarrow> (\<exists>b. write_option w v [] = Inr b \<and> out' = out @ b)" for v out out'
    by (auto simp: bytes split: option.splits)
  show "b \<noteq> []" if "write_option w v [] = Inr b" for v b
    using that by (auto simp: bytes split: option.splits)
  show "\<exists>b. write_option w v [] = Inr b" if "adm_option adm limits depth v" for limits depth v
    using that canonical_codec.writes [OF codec, of limits depth]
    by (cases v) (auto simp: bytes adm_option_def)
  show "read_option field r d = Inr (v, d') \<longleftrightarrow>
      adm_option adm (dec_limits d) (dec_depth d) v \<and>
      (\<exists>b. write_option w v [] = Inr b \<and> prefix b (unread d) \<and> d' = advance_by (length b) d)"
    if d: "in_bounds d" for d v d'
  proof -
    have some: "dbind r (\<lambda>x. dreturn (Some x)) (advance_by 1 d) = Inr (v, d') \<longleftrightarrow>
        (\<exists>x b. v = Some x \<and> adm (dec_limits d) (dec_depth d) x \<and> w x [] = Inr b \<and>
           prefix b (drop 1 (unread d)) \<and> d' = advance_by (Suc (length b)) d)" if "prefix [1] (unread d)"
    proof -
      have "in_bounds (advance_by 1 d)"
        using in_bounds_advance [OF d that] by simp
      from dbind_iff [OF codec this, of "\<lambda>x. dreturn (Some x)" v d'] show ?thesis
        by (auto simp: dreturn_def)
    qed
    have "read_option field r d = Inr (v, d') \<longleftrightarrow>
        (prefix [0] (unread d) \<and> v = None \<and> d' = advance_by 1 d) \<or>
        (prefix [1] (unread d) \<and> dbind r (\<lambda>x. dreturn (Some x)) (advance_by 1 d) = Inr (v, d'))"
      unfolding read_option_def dbind_iff [OF codec_raw_byte d]
      by (cases "unread d") (auto simp: write_raw_byte_def dreturn_def dcheck_def)
    also have "\<dots> \<longleftrightarrow> adm_option adm (dec_limits d) (dec_depth d) v \<and>
        (\<exists>b. write_option w v [] = Inr b \<and> prefix b (unread d) \<and> d' = advance_by (length b) d)"
    proof (cases v)
      case None
      then have "\<not> (prefix [1] (unread d) \<and> dbind r (\<lambda>x. dreturn (Some x)) (advance_by 1 d) = Inr (v, d'))"
        using some by blast
      with None show ?thesis
        by (auto simp: bytes adm_option_def)
    next
      case (Some x)
      have "write_option w v [] = Inr b \<longleftrightarrow> (\<exists>c. w x [] = Inr c \<and> b = [1] @ c)" for b
        by (simp add: bytes Some)
      then have "(\<exists>b. write_option w v [] = Inr b \<and> prefix b (unread d) \<and> d' = advance_by (length b) d) \<longleftrightarrow>
          (\<exists>c. w x [] = Inr c \<and> prefix ([1] @ c) (unread d) \<and> d' = advance_by (Suc (length c)) d)"
        by auto
      then show ?thesis
        using some Some unfolding prefix_append_drop adm_option_def by auto
    qed
    finally show ?thesis .
  qed
qed

lemma write_items_simps:
  "write_items w [] out = Inr out"
  "write_items w (x # xs) out = rbind (w x out) (\<lambda>out'. write_items w xs out')"
  by (simp_all add: write_items_def)

lemma write_items_iff:
  assumes codec: "canonical_codec w r adm"
  shows "write_items w xs out = Inr out' \<longleftrightarrow>
    (\<exists>bs. list_all2 (\<lambda>x b. w x [] = Inr b) xs bs \<and> out' = out @ concat bs)"
proof (induction xs arbitrary: out)
  case (Cons x xs)
  then show ?case
    unfolding write_items_simps rbind_Inr_iff canonical_codec.appends [OF codec, of x out]
    by (fastforce simp: list_all2_Cons1)
qed (auto simp: write_items_simps)

lemma write_items_Cons_iff:
  assumes "canonical_codec w r adm"
  shows "write_items w (x # xs) [] = Inr e \<longleftrightarrow>
    (\<exists>b c. w x [] = Inr b \<and> write_items w xs [] = Inr c \<and> e = b @ c)"
  unfolding write_items_iff [OF assms] by (fastforce simp: list_all2_Cons1)

lemma read_items_iff:
  assumes codec: "canonical_codec w r adm" and "in_bounds d"
  shows "read_items r n d = Inr (xs, d') \<longleftrightarrow>
    length xs = n \<and> (\<forall>x \<in> set xs. adm (dec_limits d) (dec_depth d) x) \<and>
    (\<exists>b. write_items w xs [] = Inr b \<and> prefix b (unread d) \<and> d' = advance_by (length b) d)"
  using assms(2)
proof (induction n arbitrary: d xs d')
  case 0
  show ?case
    by (auto simp: dreturn_def write_items_simps)
next
  case (Suc n)
  have "dbind (read_items r n) (\<lambda>ys. dreturn (x # ys)) (advance_by (length b) d) = Inr (xs, d') \<longleftrightarrow>
      (\<exists>ys c. xs = x # ys \<and> length ys = n \<and> (\<forall>y \<in> set ys. adm (dec_limits d) (dec_depth d) y) \<and>
        write_items w ys [] = Inr c \<and> prefix c (drop (length b) (unread d)) \<and>
        d' = advance_by (length b + length c) d)" if "prefix b (unread d)" for x b
    using Suc.IH [OF in_bounds_advance [OF Suc.prems that]]
    by (auto simp: dbind_def dreturn_def)
  then have "read_items r (Suc n) d = Inr (xs, d') \<longleftrightarrow>
      (\<exists>x ys b c. xs = x # ys \<and> length ys = n \<and> adm (dec_limits d) (dec_depth d) x \<and>
        (\<forall>y \<in> set ys. adm (dec_limits d) (dec_depth d) y) \<and> w x [] = Inr b \<and>
        write_items w ys [] = Inr c \<and> prefix (b @ c) (unread d) \<and>
        d' = advance_by (length b + length c) d)"
    unfolding read_items.simps dbind_iff [OF codec Suc.prems] prefix_append_drop by blast
  also have "\<dots> \<longleftrightarrow> length xs = Suc n \<and> (\<forall>x \<in> set xs. adm (dec_limits d) (dec_depth d) x) \<and>
    (\<exists>b. write_items w xs [] = Inr b \<and> prefix b (unread d) \<and> d' = advance_by (length b) d)"
    by (cases xs) (auto simp: write_items_Cons_iff [OF codec])
  finally show ?case .
qed

text \<open>Every element takes at least a byte, so the bound on the count by the remaining bytes never bites.\<close>

lemma length_write_items:
  assumes codec: "canonical_codec w r adm" and "write_items w xs [] = Inr b"
    and "\<forall>x \<in> set xs. adm limits depth x"
  shows "length xs \<le> length b"
  using assms(2,3)
proof (induction xs arbitrary: b)
  case (Cons x xs)
  then obtain c e where "w x [] = Inr c" "write_items w xs [] = Inr e" "b = c @ e"
    by (auto simp: write_items_Cons_iff [OF codec])
  moreover from this Cons.prems have "c \<noteq> []"
    using canonical_codec.nonempty [OF codec] by auto
  ultimately show ?case
    using Cons by (cases c) (auto simp: Suc_le_eq le_Suc_eq)
qed simp

lemma write_items_total:
  assumes codec: "canonical_codec w r adm" and "\<forall>x \<in> set xs. adm limits depth x"
  shows "\<exists>b. write_items w xs [] = Inr b"
  using assms(2)
proof (induction xs)
  case (Cons x xs)
  with canonical_codec.writes [OF codec, of limits depth x] show ?case
    by (auto simp: write_items_Cons_iff [OF codec])
qed (simp add: write_items_simps)

abbreviation deeper :: "decoder \<Rightarrow> decoder" where
  "deeper d \<equiv> d\<lparr>dec_depth := dec_depth d + 1\<rparr>"

lemma deeper_simps [simp]:
  "unread (deeper d) = unread d" "in_bounds (deeper d) \<longleftrightarrow> in_bounds d"
  "dec_remaining (deeper d) = dec_remaining d"
  by (simp_all add: unread_def in_bounds_def dec_remaining_def)

lemma dec_enter_iff: "dec_enter d = Inr d' \<longleftrightarrow> dec_depth d < lim_depth (dec_limits d) \<and> d' = deeper d"
  by (auto simp: dec_enter_def)

lemma dec_leave_deeper:
  assumes "dec_depth d < lim_depth (dec_limits d)"
  shows "dec_leave (advance_by n (deeper d)) = advance_by n d"
proof -
  have "dec_depth d \<noteq> max_value"
    using assms word_order.extremum_strict by auto
  then have "unat (dec_depth d + 1) = Suc (unat (dec_depth d))"
    by (rule unat_succ)
  then have "dec_depth d + 1 \<noteq> 0"
    by auto
  then show ?thesis
    by (simp add: dec_leave_def advance_by_def)
qed

text \<open>Collections: the depth and the count are bounded, and what follows the count fits.\<close>

definition adm_collection :: "decode_limits \<Rightarrow> u32 \<Rightarrow> nat \<Rightarrow> bool" where
  "adm_collection limits depth n \<longleftrightarrow>
     depth < lim_depth limits \<and> n < 2 ^ 32 \<and> n \<le> unat (lim_elements limits)"

lemma read_collection_iff:
  assumes d: "in_bounds d"
    and items: "\<And>d n xs d'. in_bounds d \<Longrightarrow> f n d = Inr (xs, d') \<longleftrightarrow>
      length xs = n \<and> good (dec_limits d) (dec_depth d) xs \<and>
      (\<exists>b. enc xs = Inr b \<and> prefix b (unread d) \<and> d' = advance_by (length b) d)"
    and room: "\<And>limits depth xs b. good limits depth xs \<Longrightarrow> enc xs = Inr b \<Longrightarrow> length xs \<le> length b"
  shows "rbind (dec_enter d) (\<lambda>d1. rbind (dbind (read_count field) f d1) (\<lambda>(xs, d2). Inr (xs, dec_leave d2)))
      = Inr (xs, d') \<longleftrightarrow>
    (adm_collection (dec_limits d) (dec_depth d) (length xs) \<and> good (dec_limits d) (dec_depth d + 1) xs) \<and>
    (\<exists>b c. write_scalar (of_nat (length xs) :: u32) [] = Inr b \<and> enc xs = Inr c \<and>
       prefix (b @ c) (unread d) \<and> d' = advance_by (length (b @ c)) d)"
    (is "?lhs = ?rhs")
proof -
  let ?d = "deeper d"
  have inner: "dbind (read_count field) f ?d = Inr (xs, d2) \<longleftrightarrow>
      length xs < 2 ^ 32 \<and> length xs \<le> unat (lim_elements (dec_limits d)) \<and>
      good (dec_limits d) (dec_depth d + 1) xs \<and>
      (\<exists>b c. write_scalar (of_nat (length xs) :: u32) [] = Inr b \<and> enc xs = Inr c \<and>
         prefix (b @ c) (unread d) \<and> d2 = advance_by (length (b @ c)) ?d)" for d2
  proof -
    have step: "f n (advance_by (length b) ?d) = Inr (xs, d2) \<longleftrightarrow>
        length xs = n \<and> good (dec_limits d) (dec_depth d + 1) xs \<and>
        (\<exists>c. enc xs = Inr c \<and> prefix c (drop (length b) (unread d)) \<and> d2 = advance_by (length (b @ c)) ?d)"
      if "prefix b (unread d)" for n b
      using items [of "advance_by (length b) ?d" n xs d2] in_bounds_advance [of ?d b] d that by simp
    have room': "length xs \<le> dec_remaining (advance_by (length b) ?d)"
      if "good (dec_limits d) (dec_depth d + 1) xs" "enc xs = Inr c" "prefix c (drop (length b) (unread d))" for b c
      using room [OF that(1,2)] prefix_length_le [OF that(3)] length_unread [of "advance_by (length b) ?d"] by simp
    have "dbind (read_count field) f ?d = Inr (xs, d2) \<longleftrightarrow>
        (\<exists>n d1. read_count field ?d = Inr (n, d1) \<and> f n d1 = Inr (xs, d2))"
      by (auto simp: dbind_def)
    also have "\<dots> \<longleftrightarrow> (\<exists>n b. (n < 2 ^ 32 \<and> n \<le> unat (lim_elements (dec_limits d))) \<and>
        write_scalar (of_nat n :: u32) [] = Inr b \<and> prefix b (unread d) \<and>
        n \<le> dec_remaining (advance_by (length b) ?d) \<and> f n (advance_by (length b) ?d) = Inr (xs, d2))"
      using d by (simp add: read_count_iff) blast
    also have "\<dots> \<longleftrightarrow> (\<exists>n b. (n < 2 ^ 32 \<and> n \<le> unat (lim_elements (dec_limits d))) \<and>
        write_scalar (of_nat n :: u32) [] = Inr b \<and> prefix b (unread d) \<and>
        n \<le> dec_remaining (advance_by (length b) ?d) \<and>
        length xs = n \<and> good (dec_limits d) (dec_depth d + 1) xs \<and>
        (\<exists>c. enc xs = Inr c \<and> prefix c (drop (length b) (unread d)) \<and> d2 = advance_by (length (b @ c)) ?d))"
      by (intro iff_exI conj_cong refl) (rule step)
    finally show ?thesis
      unfolding prefix_append_drop using room' by auto
  qed
  have "?lhs \<longleftrightarrow> dec_depth d < lim_depth (dec_limits d) \<and>
      (\<exists>d2. dbind (read_count field) f ?d = Inr (xs, d2) \<and> d' = dec_leave d2)"
    by (auto simp: dec_enter_iff)
  also have "\<dots> \<longleftrightarrow> ?rhs"
    unfolding inner adm_collection_def by (auto simp: dec_leave_deeper)
  finally show ?thesis .
qed

definition adm_sequence ::
  "(decode_limits \<Rightarrow> u32 \<Rightarrow> 'a \<Rightarrow> bool) \<Rightarrow> decode_limits \<Rightarrow> u32 \<Rightarrow> 'a list \<Rightarrow> bool" where
  "adm_sequence adm limits depth xs \<longleftrightarrow>
     adm_collection limits depth (length xs) \<and> (\<forall>x \<in> set xs. adm limits (depth + 1) x)"

lemma counted_appends:
  assumes "\<And>out out'. g out = Inr out' \<longleftrightarrow> (\<exists>b. g [] = Inr b \<and> out' = out @ b)"
  shows "wthen (write_count field n) g out = Inr out' \<longleftrightarrow>
    n < 2 ^ 32 \<and> (\<exists>b c. write_scalar (of_nat n :: u32) [] = Inr b \<and> g [] = Inr c \<and> out' = out @ b @ c)"
proof -
  have "wthen (write_count field n) g out = Inr out' \<longleftrightarrow>
      (\<exists>a b. write_count field n [] = Inr a \<and> g [] = Inr b \<and> out' = out @ a @ b)"
    by (rule wthen_appends [OF _ assms]) (auto simp: write_count_iff)
  then show ?thesis
    by (auto simp: write_count_iff)
qed

lemma codec_sequence:
  assumes codec: "canonical_codec w r adm"
  shows "canonical_codec (write_sequence field w) (read_sequence field' r) (adm_sequence adm)"
proof
  have bytes: "write_sequence field w xs out = Inr out' \<longleftrightarrow>
      length xs < 2 ^ 32 \<and> (\<exists>b c. write_scalar (of_nat (length xs) :: u32) [] = Inr b \<and>
        write_items w xs [] = Inr c \<and> out' = out @ b @ c)" for xs out out'
    unfolding write_sequence_def by (rule counted_appends) (auto simp: write_items_iff [OF codec])
  show "write_sequence field w xs out = Inr out' \<longleftrightarrow>
      (\<exists>b. write_sequence field w xs [] = Inr b \<and> out' = out @ b)" for xs out out'
    by (auto simp: bytes)
  show "b \<noteq> []" if "write_sequence field w xs [] = Inr b" for xs b
    using that by (auto simp: bytes write_scalar_def)
  show "\<exists>b. write_sequence field w xs [] = Inr b" if "adm_sequence adm limits depth xs" for limits depth xs
    using that write_items_total [OF codec, of xs limits "depth + 1"]
    by (auto simp: bytes adm_sequence_def adm_collection_def write_scalar_def)
  show "read_sequence field' r d = Inr (xs, d') \<longleftrightarrow>
      adm_sequence adm (dec_limits d) (dec_depth d) xs \<and>
      (\<exists>b. write_sequence field w xs [] = Inr b \<and> prefix b (unread d) \<and> d' = advance_by (length b) d)"
    if "in_bounds d" for d xs d'
  proof -
    have "read_sequence field' r d = Inr (xs, d') \<longleftrightarrow>
        (adm_collection (dec_limits d) (dec_depth d) (length xs) \<and>
          (\<forall>x \<in> set xs. adm (dec_limits d) (dec_depth d + 1) x)) \<and>
        (\<exists>b c. write_scalar (of_nat (length xs) :: u32) [] = Inr b \<and> write_items w xs [] = Inr c \<and>
           prefix (b @ c) (unread d) \<and> d' = advance_by (length (b @ c)) d)"
      unfolding read_sequence_def
      by (rule read_collection_iff [OF that]) (rule read_items_iff [OF codec], assumption,
        rule length_write_items [OF codec])
    moreover have "(\<exists>b. write_sequence field w xs [] = Inr b \<and> prefix b (unread d) \<and> d' = advance_by (length b) d) \<longleftrightarrow>
        length xs < 2 ^ 32 \<and>
        (\<exists>b c. write_scalar (of_nat (length xs) :: u32) [] = Inr b \<and> write_items w xs [] = Inr c \<and>
           prefix (b @ c) (unread d) \<and> d' = advance_by (length (b @ c)) d)"
      unfolding bytes append_Nil by blast
    ultimately show ?thesis
      unfolding adm_sequence_def adm_collection_def by blast
  qed
qed

end
