(* ===== verification/Codec_Collections.thy ===== *)
theory Codec_Collections
  imports Codec_Laws "HOL-Library.Multiset"
begin

text \<open>
  Logically unordered collections. The writers sort by encoded bytes, so the order in which a caller
  built the collection never shows; the readers accept only strictly ascending encodings, so a set
  and a map have one byte string each.
\<close>

section \<open>Encoding the members\<close>

abbreviation encodes :: "'a writer \<Rightarrow> 'a list \<Rightarrow> bytes list \<Rightarrow> bool" where
  "encodes w \<equiv> list_all2 (\<lambda>x b. w x [] = Inr b)"

lemma encode_items_iff: "encode_items w xs = Inr bs \<longleftrightarrow> encodes w xs bs"
proof -
  have "try_fold (\<lambda>encoded x. rbind (w x []) (\<lambda>b. Inr (encoded @ [b]))) acc xs = Inr bs \<longleftrightarrow>
      (\<exists>cs. encodes w xs cs \<and> bs = acc @ cs)" for acc
    by (induction xs arbitrary: acc) (auto simp: list_all2_Cons1)
  then show ?thesis
    by (simp add: encode_items_def)
qed

lemma results_perm:
  assumes "list_all2 (\<lambda>x b. f x = Inr b) xs bs" "mset xs = mset ys"
  shows "\<exists>cs. list_all2 (\<lambda>x b. f x = Inr b) ys cs \<and> mset cs = mset bs"
proof -
  from assms(1) have "bs = map (\<lambda>x. projr (f x)) xs" "\<forall>x \<in> set xs. \<exists>b. f x = Inr b"
    by (induction rule: list_all2_induct) auto
  moreover have "list_all2 (\<lambda>x b. f x = Inr b) ys (map (\<lambda>x. projr (f x)) ys)"
  proof -
    have "f y = Inr (projr (f y))" if "y \<in> set ys" for y
      using calculation(2) mset_eq_setD [OF assms(2)] that by fastforce
    then show ?thesis
      by (simp add: list_all2_conv_all_nth)
  qed
  ultimately show ?thesis
    using assms(2) by (intro exI [of _ "map (\<lambda>x. projr (f x)) ys"]) simp
qed

lemma duplicate_at_None: "duplicate_at i xs = None \<longleftrightarrow> successively (\<noteq>) xs"
  by (induction i xs rule: duplicate_at.induct) auto

lemma ascending_iff: "sorted xs \<and> successively (\<noteq>) xs \<longleftrightarrow> successively (<) (xs :: 'a::linorder list)"
  by (induction xs rule: induct_list012) (auto simp: less_le)

lemma distinct_sorted: "sorted xs \<Longrightarrow> successively (\<noteq>) xs \<longleftrightarrow> distinct (xs :: 'a::linorder list)"
  using ascending_iff [of xs] by (auto simp: successively_conv_sorted_wrt strict_sorted_iff)

section \<open>Sets\<close>

lemma write_canonical_set_iff:
  "write_canonical_set field w xs out = Inr out' \<longleftrightarrow>
     (\<exists>bs. encodes w xs bs \<and> distinct bs \<and> length bs < 2 ^ 32 \<and>
        (\<exists>b. write_scalar (of_nat (length bs) :: u32) [] = Inr b \<and> out' = out @ b @ concat (sort bs)))"
proof -
  have "write_canonical_set field w xs out = Inr out' \<longleftrightarrow>
      (\<exists>bs. encodes w xs bs \<and> distinct bs \<and>
         wthen (write_count field (length bs)) (write_raw (concat (sort bs))) out = Inr out')"
    by (auto simp: write_canonical_set_def encode_items_iff Let_def duplicate_at_None distinct_sorted
        split: option.splits)
  moreover have "wthen (write_count field n) (write_raw c) out = Inr out' \<longleftrightarrow>
      n < 2 ^ 32 \<and> (\<exists>b. write_scalar (of_nat n :: u32) [] = Inr b \<and> out' = out @ b @ c)" for n c
    by (auto simp: wthen_def write_count_iff write_raw_def)
  ultimately show ?thesis
    by simp
qed

text \<open>The reader: ascending from the previous element on.\<close>

definition ascending :: "bytes option \<Rightarrow> bytes list \<Rightarrow> bool" where
  "ascending previous bs \<longleftrightarrow> successively (<) (case previous of None \<Rightarrow> bs | Some p \<Rightarrow> p # bs)"

lemma ascending_Cons:
  "ascending previous [] \<longleftrightarrow> True"
  "ascending previous (b # bs) \<longleftrightarrow> (\<forall>p. previous = Some p \<longrightarrow> p < b) \<and> ascending (Some b) bs"
  by (auto simp: ascending_def split: option.splits)

lemma check_order_iff:
  "check_order field offset index previous b = Inr u \<longleftrightarrow> (\<forall>p. previous = Some p \<longrightarrow> p < b)"
  by (auto simp: check_order_def split: option.splits)

lemma read_set_items_iff:
  assumes codec: "canonical_codec w r adm" and "in_bounds d"
  shows "read_set_items field offset r index n previous d = Inr (xs, d') \<longleftrightarrow>
    length xs = n \<and> (\<forall>x \<in> set xs. adm (dec_limits d) (dec_depth d) x) \<and>
    (\<exists>bs. encodes w xs bs \<and> ascending previous bs \<and> prefix (concat bs) (unread d) \<and>
       d' = advance_by (length (concat bs)) d)"
  using assms(2)
proof (induction n arbitrary: index previous d xs d')
  case 0
  show ?case
    by (auto simp: ascending_Cons)
next
  case (Suc n)
  have cons: "read_set_items field offset r (Suc index) n (Some b) (advance_by (length b) d) = Inr (ys, d') \<longleftrightarrow>
      length ys = n \<and> (\<forall>y \<in> set ys. adm (dec_limits d) (dec_depth d) y) \<and>
      (\<exists>cs. encodes w ys cs \<and> ascending (Some b) cs \<and> prefix (concat cs) (drop (length b) (unread d)) \<and>
         d' = advance_by (length b + length (concat cs)) d)" if "prefix b (unread d)" for b ys
    using Suc.IH [OF in_bounds_advance [OF Suc.prems that]] by simp
  have "read_set_items field offset r index (Suc n) previous d = Inr (xs, d') \<longleftrightarrow>
      (\<exists>x ys b. xs = x # ys \<and> adm (dec_limits d) (dec_depth d) x \<and> w x [] = Inr b \<and> prefix b (unread d) \<and>
        (\<forall>p. previous = Some p \<longrightarrow> p < b) \<and>
        read_set_items field offset r (Suc index) n (Some b) (advance_by (length b) d) = Inr (ys, d'))"
    by (auto simp: canonical_codec.reads [OF codec Suc.prems] check_order_iff consumed_def
        prefix_def unread_def)
  also have "\<dots> \<longleftrightarrow> (\<exists>x ys b. xs = x # ys \<and> adm (dec_limits d) (dec_depth d) x \<and> w x [] = Inr b \<and> prefix b (unread d) \<and>
        (\<forall>p. previous = Some p \<longrightarrow> p < b) \<and>
      length ys = n \<and> (\<forall>y \<in> set ys. adm (dec_limits d) (dec_depth d) y) \<and>
      (\<exists>cs. encodes w ys cs \<and> ascending (Some b) cs \<and> prefix (concat cs) (drop (length b) (unread d)) \<and>
         d' = advance_by (length b + length (concat cs)) d))"
    by (intro iff_exI conj_cong refl) (rule cons)
  also have "\<dots> \<longleftrightarrow> length xs = Suc n \<and> (\<forall>x \<in> set xs. adm (dec_limits d) (dec_depth d) x) \<and>
    (\<exists>bs. encodes w xs bs \<and> ascending previous bs \<and> prefix (concat bs) (unread d) \<and>
       d' = advance_by (length (concat bs)) d)"
    by (cases xs) (auto simp: list_all2_Cons1 ascending_Cons prefix_append_drop,
        rule_tac x = "b # cs" in exI, simp add: ascending_Cons prefix_append_drop)
  finally show ?case .
qed

definition adm_set ::
  "'a writer \<Rightarrow> (decode_limits \<Rightarrow> u32 \<Rightarrow> 'a \<Rightarrow> bool) \<Rightarrow> decode_limits \<Rightarrow> u32 \<Rightarrow> 'a list \<Rightarrow> bool" where
  "adm_set w adm limits depth xs \<longleftrightarrow>
     adm_collection limits depth (length xs) \<and>
     ((\<forall>x \<in> set xs. adm limits (depth + 1) x) \<and> (\<exists>bs. encodes w xs bs \<and> ascending None bs))"

lemma encodes_unique: "encodes w xs bs \<Longrightarrow> encodes w xs cs \<Longrightarrow> bs = cs"
  by (induction xs arbitrary: bs cs) (auto simp: list_all2_Cons1)

lemma encodes_length:
  assumes "canonical_codec w r adm" "encodes w xs bs" "\<forall>x \<in> set xs. adm limits depth x"
  shows "length xs \<le> length (concat bs)"
  by (rule length_write_items [OF assms(1) _ assms(3)]) (use assms(2) in \<open>auto simp: write_items_iff [OF assms(1)]\<close>)

lemma ascending_None: "ascending None bs \<longleftrightarrow> sorted bs \<and> distinct bs"
  by (simp add: ascending_def successively_conv_sorted_wrt strict_sorted_iff)

lemma write_ascending_set:
  assumes "encodes w xs bs" "ascending None bs"
  shows "write_canonical_set field w xs [] = Inr e \<longleftrightarrow>
    length xs < 2 ^ 32 \<and> (\<exists>b. write_scalar (of_nat (length xs) :: u32) [] = Inr b \<and> e = b @ concat bs)"
proof -
  from assms have "encodes w xs cs \<longleftrightarrow> cs = bs" for cs
    using encodes_unique by blast
  with assms show ?thesis
    by (simp add: write_canonical_set_iff ascending_None sorted_sort_id list_all2_lengthD [OF assms(1)])
qed

lemma codec_set:
  assumes codec: "canonical_codec w r adm"
  shows "canonical_codec (write_canonical_set field w) (read_canonical_set field' r) (adm_set w adm)"
proof
  show "write_canonical_set field w xs out = Inr out' \<longleftrightarrow>
      (\<exists>b. write_canonical_set field w xs [] = Inr b \<and> out' = out @ b)" for xs out out'
    by (auto simp: write_canonical_set_iff)
  show "b \<noteq> []" if "write_canonical_set field w xs [] = Inr b" for xs b
    using that by (auto simp: write_canonical_set_iff write_scalar_def)
  show "\<exists>b. write_canonical_set field w xs [] = Inr b" if "adm_set w adm limits depth xs" for limits depth xs
    using that by (auto simp: adm_set_def adm_collection_def write_ascending_set write_scalar_def)
  show "read_canonical_set field' r d = Inr (xs, d') \<longleftrightarrow>
      adm_set w adm (dec_limits d) (dec_depth d) xs \<and>
      (\<exists>b. write_canonical_set field w xs [] = Inr b \<and> prefix b (unread d) \<and> d' = advance_by (length b) d)"
    if d: "in_bounds d" for d xs d'
  proof -
    let ?good = "\<lambda>limits depth xs. (\<forall>x \<in> set xs. adm limits depth x) \<and> (\<exists>bs. encodes w xs bs \<and> ascending None bs)"
    let ?enc = "\<lambda>xs. write_items w xs []"
    have entered: "read_canonical_set field' r d = rbind (dec_enter d) (\<lambda>d1.
        rbind (dbind (read_count field') (\<lambda>count. read_set_items field' (dec_position d) r 0 count None) d1)
          (\<lambda>(items, d2). Inr (items, dec_leave d2)))"
      by (auto simp: read_canonical_set_def dec_enter_def dec_position_def)
    have items: "read_set_items field' offset r 0 n None d = Inr (xs, d') \<longleftrightarrow>
        length xs = n \<and> ?good (dec_limits d) (dec_depth d) xs \<and>
        (\<exists>b. ?enc xs = Inr b \<and> prefix b (unread d) \<and> d' = advance_by (length b) d)"
      if "in_bounds d" for d n xs d' offset
      unfolding read_set_items_iff [OF codec that] write_items_iff [OF codec]
      using encodes_unique by (auto, blast+)
    have "read_canonical_set field' r d = Inr (xs, d') \<longleftrightarrow>
        (adm_collection (dec_limits d) (dec_depth d) (length xs) \<and> ?good (dec_limits d) (dec_depth d + 1) xs) \<and>
        (\<exists>b c. write_scalar (of_nat (length xs) :: u32) [] = Inr b \<and> ?enc xs = Inr c \<and>
           prefix (b @ c) (unread d) \<and> d' = advance_by (length (b @ c)) d)"
      unfolding entered by (rule read_collection_iff [OF d]) (rule items, assumption,
        use length_write_items [OF codec] in blast)
    moreover have "(\<exists>b. write_canonical_set field w xs [] = Inr b \<and> prefix b (unread d) \<and> d' = advance_by (length b) d) \<longleftrightarrow>
        length xs < 2 ^ 32 \<and>
        (\<exists>b c. write_scalar (of_nat (length xs) :: u32) [] = Inr b \<and> ?enc xs = Inr c \<and>
           prefix (b @ c) (unread d) \<and> d' = advance_by (length (b @ c)) d)"
      if "encodes w xs bs" "ascending None bs" for bs
    proof -
      have enc: "?enc xs = Inr c \<longleftrightarrow> c = concat bs" for c
        using that(1) encodes_unique by (auto simp: write_items_iff [OF codec])
      have wr: "write_canonical_set field w xs [] = Inr e \<longleftrightarrow> length xs < 2 ^ 32 \<and>
          (\<exists>b. write_scalar (of_nat (length xs) :: u32) [] = Inr b \<and> e = b @ concat bs)" for e
        using that by (rule write_ascending_set)
      show ?thesis
        unfolding enc wr by auto
    qed
    ultimately show ?thesis
      unfolding adm_set_def adm_collection_def by blast
  qed
qed

section \<open>Maps\<close>

abbreviation entries_encode :: "'k writer \<Rightarrow> 'v writer \<Rightarrow> ('k \<times> 'v) list \<Rightarrow> (bytes \<times> bytes) list \<Rightarrow> bool" where
  "entries_encode wk wv \<equiv> list_all2 (\<lambda>e b. wk (fst e) [] = Inr (fst b) \<and> wv (snd e) [] = Inr (snd b))"

abbreviation flat :: "(bytes \<times> bytes) list \<Rightarrow> bytes" where
  "flat bs \<equiv> concat (map (\<lambda>(k, v). k @ v) bs)"

lemma encode_entries_iff: "encode_entries wk wv es = Inr bs \<longleftrightarrow> entries_encode wk wv es bs"
proof -
  have "try_fold (\<lambda>encoded (k, v). rbind (wk k []) (\<lambda>kb. rbind (wv v []) (\<lambda>vb. Inr (encoded @ [(kb, vb)])))) acc es
      = Inr bs \<longleftrightarrow> (\<exists>cs. entries_encode wk wv es cs \<and> bs = acc @ cs)" for acc
  proof (induction es arbitrary: acc)
    case (Cons e es)
    then show ?case
      by (cases e) (auto simp: list_all2_Cons1)
  qed auto
  then show ?thesis
    by (simp add: encode_entries_def)
qed

lemma sorted_keys: "sorted bs \<Longrightarrow> sorted (map fst (bs :: ('a::linorder \<times> 'b::linorder) list))"
  by (induction bs) (auto simp: less_eq_prod_def)

lemma write_canonical_map_iff:
  "write_canonical_map field wk wv es out = Inr out' \<longleftrightarrow>
     (\<exists>bs. entries_encode wk wv es bs \<and> distinct (map fst bs) \<and> length bs < 2 ^ 32 \<and>
        (\<exists>b. write_scalar (of_nat (length bs) :: u32) [] = Inr b \<and> out' = out @ b @ flat (sort bs)))"
proof -
  have "distinct (map fst (sort bs)) \<longleftrightarrow> distinct (map fst bs)" for bs :: "(bytes \<times> bytes) list"
    by (simp add: distinct_map)
  then have "write_canonical_map field wk wv es out = Inr out' \<longleftrightarrow>
      (\<exists>bs. entries_encode wk wv es bs \<and> distinct (map fst bs) \<and>
         wthen (write_count field (length bs)) (write_raw (flat (sort bs))) out = Inr out')"
    by (auto simp: write_canonical_map_def encode_entries_iff Let_def duplicate_at_None
        distinct_sorted [OF sorted_keys] split: option.splits)
  moreover have "wthen (write_count field n) (write_raw c) out = Inr out' \<longleftrightarrow>
      n < 2 ^ 32 \<and> (\<exists>b. write_scalar (of_nat n :: u32) [] = Inr b \<and> out' = out @ b @ c)" for n c
    by (auto simp: wthen_def write_count_iff write_raw_def)
  ultimately show ?thesis
    by simp
qed

lemma entries_encode_items:
  assumes "canonical_codec wk rk admk" "canonical_codec wv rv admv"
  shows "write_items (pair_writer wk wv) es [] = Inr c \<longleftrightarrow>
    (\<exists>bs. entries_encode wk wv es bs \<and> c = flat bs)"
proof (induction es arbitrary: c)
  case (Cons e es)
  have "(\<exists>bs. entries_encode wk wv (e # es) bs \<and> c = flat bs) \<longleftrightarrow>
      (\<exists>kb vb cs. wk (fst e) [] = Inr kb \<and> wv (snd e) [] = Inr vb \<and> entries_encode wk wv es cs \<and>
         c = (kb @ vb) @ flat cs)"
    by (auto simp: list_all2_Cons1 intro: exI [of _ "(_, _) # _"])
  then show ?case
    unfolding write_items_Cons_iff [OF codec_pair [OF assms]] pair_writer_iff [OF assms] Cons by auto
qed (auto simp: write_items_simps)

lemma read_map_entries_iff:
  assumes k: "canonical_codec wk rk admk" and v: "canonical_codec wv rv admv" and "in_bounds d"
  shows "read_map_entries field offset rk rv index n previous d = Inr (es, d') \<longleftrightarrow>
    length es = n \<and> (\<forall>e \<in> set es. admk (dec_limits d) (dec_depth d) (fst e) \<and> admv (dec_limits d) (dec_depth d) (snd e)) \<and>
    (\<exists>bs. entries_encode wk wv es bs \<and> ascending previous (map fst bs) \<and> prefix (flat bs) (unread d) \<and>
       d' = advance_by (length (flat bs)) d)"
  using assms(3)
proof (induction n arbitrary: index previous d es d')
  case 0
  show ?case
    by (auto simp: ascending_Cons)
next
  case (Suc n)
  have cons: "read_map_entries field offset rk rv (Suc index) n (Some kb) (advance_by (length (kb @ vb)) d) = Inr (fs, d') \<longleftrightarrow>
      length fs = n \<and> (\<forall>e \<in> set fs. admk (dec_limits d) (dec_depth d) (fst e) \<and> admv (dec_limits d) (dec_depth d) (snd e)) \<and>
      (\<exists>cs. entries_encode wk wv fs cs \<and> ascending (Some kb) (map fst cs) \<and>
         prefix (flat cs) (drop (length (kb @ vb)) (unread d)) \<and>
         d' = advance_by (length (kb @ vb) + length (flat cs)) d)" if "prefix (kb @ vb) (unread d)" for kb vb fs
    using Suc.IH [OF in_bounds_advance [OF Suc.prems that]] by simp
  have val: "rv (advance_by (length kb) d) = Inr (y, d2) \<longleftrightarrow> admv (dec_limits d) (dec_depth d) y \<and>
      (\<exists>vb. wv y [] = Inr vb \<and> prefix vb (drop (length kb) (unread d)) \<and> d2 = advance_by (length (kb @ vb)) d)"
    if "prefix kb (unread d)" for kb y d2
    using canonical_codec.reads [OF v in_bounds_advance [OF Suc.prems that]] by simp
  have "read_map_entries field offset rk rv index (Suc n) previous d = Inr (es, d') \<longleftrightarrow>
      (\<exists>x y fs kb d2. es = (x, y) # fs \<and> admk (dec_limits d) (dec_depth d) x \<and> wk x [] = Inr kb \<and>
        prefix kb (unread d) \<and> (\<forall>p. previous = Some p \<longrightarrow> p < kb) \<and>
        rv (advance_by (length kb) d) = Inr (y, d2) \<and>
        read_map_entries field offset rk rv (Suc index) n (Some kb) d2 = Inr (fs, d'))"
    by (auto simp: canonical_codec.reads [OF k Suc.prems] check_order_iff consumed_def prefix_def unread_def)
  also have "\<dots> \<longleftrightarrow> (\<exists>x y fs kb vb cs. es = (x, y) # fs \<and> admk (dec_limits d) (dec_depth d) x \<and> wk x [] = Inr kb \<and>
        (\<forall>p. previous = Some p \<longrightarrow> p < kb) \<and> admv (dec_limits d) (dec_depth d) y \<and> wv y [] = Inr vb \<and>
        length fs = n \<and> (\<forall>e \<in> set fs. admk (dec_limits d) (dec_depth d) (fst e) \<and> admv (dec_limits d) (dec_depth d) (snd e)) \<and>
        entries_encode wk wv fs cs \<and> ascending (Some kb) (map fst cs) \<and>
        prefix ((kb @ vb) @ flat cs) (unread d) \<and> d' = advance_by (length (kb @ vb) + length (flat cs)) d)"
    (is "?l \<longleftrightarrow> ?r")
  proof
    assume ?l
    then obtain x y fs kb d2 where *: "es = (x, y) # fs" "admk (dec_limits d) (dec_depth d) x" "wk x [] = Inr kb"
        "prefix kb (unread d)" "\<forall>p. previous = Some p \<longrightarrow> p < kb" "rv (advance_by (length kb) d) = Inr (y, d2)"
        "read_map_entries field offset rk rv (Suc index) n (Some kb) d2 = Inr (fs, d')"
      by blast
    with val obtain vb where **: "admv (dec_limits d) (dec_depth d) y" "wv y [] = Inr vb"
        "prefix vb (drop (length kb) (unread d))" "d2 = advance_by (length (kb @ vb)) d"
      by blast
    with *(4) have "prefix (kb @ vb) (unread d)"
      by (simp add: prefix_append_drop)
    with *(7) obtain cs where cs: "length fs = n"
        "\<forall>e \<in> set fs. admk (dec_limits d) (dec_depth d) (fst e) \<and> admv (dec_limits d) (dec_depth d) (snd e)"
        "entries_encode wk wv fs cs" "ascending (Some kb) (map fst cs)" "prefix ((kb @ vb) @ flat cs) (unread d)"
        "d' = advance_by (length (kb @ vb) + length (flat cs)) d"
      unfolding **(4) cons [OF \<open>prefix (kb @ vb) (unread d)\<close>] prefix_append_drop [of "kb @ vb"] by blast
    show ?r
      by (intro exI conjI) (rule * ** cs)+
  next
    assume ?r
    then obtain x y fs kb vb cs where *: "es = (x, y) # fs" "admk (dec_limits d) (dec_depth d) x" "wk x [] = Inr kb"
        "\<forall>p. previous = Some p \<longrightarrow> p < kb" "admv (dec_limits d) (dec_depth d) y" "wv y [] = Inr vb"
        "length fs = n" "\<forall>e \<in> set fs. admk (dec_limits d) (dec_depth d) (fst e) \<and> admv (dec_limits d) (dec_depth d) (snd e)"
        "entries_encode wk wv fs cs" "ascending (Some kb) (map fst cs)"
        "prefix (kb @ vb) (unread d)" "prefix (flat cs) (drop (length (kb @ vb)) (unread d))"
        "d' = advance_by (length (kb @ vb) + length (flat cs)) d"
      unfolding prefix_append_drop [of "_ @ _"] by blast
    from *(11) have kb: "prefix kb (unread d)" "prefix vb (drop (length kb) (unread d))"
      by (simp_all add: prefix_append_drop)
    have "rv (advance_by (length kb) d) = Inr (y, advance_by (length (kb @ vb)) d)"
      unfolding val [OF kb(1)] using *(5,6) kb(2) by blast
    moreover have "read_map_entries field offset rk rv (Suc index) n (Some kb) (advance_by (length (kb @ vb)) d)
        = Inr (fs, d')"
      unfolding cons [OF *(11)] using *(7-10,12,13) by blast
    ultimately show ?l
      using *(1-4) kb(1) by (intro exI conjI) assumption+
  qed
  also have "\<dots> \<longleftrightarrow> length es = Suc n \<and>
    (\<forall>e \<in> set es. admk (dec_limits d) (dec_depth d) (fst e) \<and> admv (dec_limits d) (dec_depth d) (snd e)) \<and>
    (\<exists>bs. entries_encode wk wv es bs \<and> ascending previous (map fst bs) \<and> prefix (flat bs) (unread d) \<and>
       d' = advance_by (length (flat bs)) d)"
    by (cases es) (auto simp: list_all2_Cons1 ascending_Cons, rule_tac x = "(kb, vb) # cs" in exI,
        auto simp: ascending_Cons)
  finally show ?case .
qed

definition adm_map ::
  "'k writer \<Rightarrow> 'v writer \<Rightarrow> (decode_limits \<Rightarrow> u32 \<Rightarrow> 'k \<Rightarrow> bool) \<Rightarrow>
     (decode_limits \<Rightarrow> u32 \<Rightarrow> 'v \<Rightarrow> bool) \<Rightarrow> decode_limits \<Rightarrow> u32 \<Rightarrow> ('k \<times> 'v) list \<Rightarrow> bool" where
  "adm_map wk wv admk admv limits depth es \<longleftrightarrow>
     adm_collection limits depth (length es) \<and>
     ((\<forall>e \<in> set es. admk limits (depth + 1) (fst e) \<and> admv limits (depth + 1) (snd e)) \<and>
      (\<exists>bs. entries_encode wk wv es bs \<and> ascending None (map fst bs)))"

lemma entries_encode_unique: "entries_encode wk wv es bs \<Longrightarrow> entries_encode wk wv es cs \<Longrightarrow> bs = cs"
  by (induction es arbitrary: bs cs) (auto simp: list_all2_Cons1 prod_eq_iff)

lemma sorted_by_keys:
  "ascending None (map fst bs) \<Longrightarrow> sort bs = (bs :: (bytes \<times> bytes) list)"
proof (rule sorted_sort_id)
  show "sorted bs" if "ascending None (map fst bs)"
    using that by (induction bs) (auto simp: ascending_None less_eq_prod_def order.strict_iff_order)
qed

lemma write_ascending_map:
  assumes "entries_encode wk wv es bs" "ascending None (map fst bs)"
  shows "write_canonical_map field wk wv es [] = Inr e \<longleftrightarrow>
    length es < 2 ^ 32 \<and> (\<exists>b. write_scalar (of_nat (length es) :: u32) [] = Inr b \<and> e = b @ flat bs)"
proof -
  from assms have "entries_encode wk wv es cs \<longleftrightarrow> cs = bs" for cs
    using entries_encode_unique by blast
  with assms show ?thesis
    by (simp add: write_canonical_map_iff sorted_by_keys list_all2_lengthD [OF assms(1)])
      (simp add: ascending_None)
qed

lemma entries_items_unique:
  assumes "canonical_codec wk rk admk" "canonical_codec wv rv admv" and bs: "entries_encode wk wv es bs"
  shows "write_items (pair_writer wk wv) es [] = Inr c \<longleftrightarrow> c = flat bs"
proof
  assume "write_items (pair_writer wk wv) es [] = Inr c"
  then obtain cs where "entries_encode wk wv es cs" "c = flat cs"
    unfolding entries_encode_items [OF assms(1,2)] by blast
  moreover from bs this(1) have "bs = cs"
    by (rule entries_encode_unique)
  ultimately show "c = flat bs"
    by simp
next
  assume "c = flat bs"
  with bs show "write_items (pair_writer wk wv) es [] = Inr c"
    unfolding entries_encode_items [OF assms(1,2)] by blast
qed

lemma codec_map:
  assumes k: "canonical_codec wk rk admk" and v: "canonical_codec wv rv admv"
  shows "canonical_codec (write_canonical_map field wk wv) (read_canonical_map field' rk rv)
    (adm_map wk wv admk admv)"
proof
  show "write_canonical_map field wk wv es out = Inr out' \<longleftrightarrow>
      (\<exists>b. write_canonical_map field wk wv es [] = Inr b \<and> out' = out @ b)" for es out out'
    by (auto simp: write_canonical_map_iff)
  show "b \<noteq> []" if "write_canonical_map field wk wv es [] = Inr b" for es b
    using that by (auto simp: write_canonical_map_iff write_scalar_def)
  show "\<exists>b. write_canonical_map field wk wv es [] = Inr b" if "adm_map wk wv admk admv limits depth es" for limits depth es
    using that by (auto simp: adm_map_def adm_collection_def write_ascending_map write_scalar_def)
  show "read_canonical_map field' rk rv d = Inr (es, d') \<longleftrightarrow>
      adm_map wk wv admk admv (dec_limits d) (dec_depth d) es \<and>
      (\<exists>b. write_canonical_map field wk wv es [] = Inr b \<and> prefix b (unread d) \<and> d' = advance_by (length b) d)"
    if d: "in_bounds d" for d es d'
  proof -
    let ?good = "\<lambda>limits depth es. (\<forall>e \<in> set es. admk limits depth (fst e) \<and> admv limits depth (snd e)) \<and>
      (\<exists>bs. entries_encode wk wv es bs \<and> ascending None (map fst bs))"
    let ?enc = "\<lambda>es. write_items (pair_writer wk wv) es []"
    have entered: "read_canonical_map field' rk rv d = rbind (dec_enter d) (\<lambda>d1.
        rbind (dbind (read_count field') (\<lambda>count. read_map_entries field' (dec_position d) rk rv 0 count None) d1)
          (\<lambda>(entries, d2). Inr (entries, dec_leave d2)))"
      by (auto simp: read_canonical_map_def dec_enter_def dec_position_def)
    have items: "read_map_entries field' offset rk rv 0 n None d = Inr (es, d') \<longleftrightarrow>
        length es = n \<and> ?good (dec_limits d) (dec_depth d) es \<and>
        (\<exists>b. ?enc es = Inr b \<and> prefix b (unread d) \<and> d' = advance_by (length b) d)"
      if "in_bounds d" for d n es d' offset
      unfolding read_map_entries_iff [OF k v that] entries_encode_items [OF k v]
      using entries_encode_unique by (auto, blast+)
    have room: "length es \<le> length b" if "?good limits depth es" "?enc es = Inr b" for limits depth es b
      by (rule length_write_items [OF codec_pair [OF k v] that(2)]) (use that(1) in blast)
    have read: "read_canonical_map field' rk rv d = Inr (es, d') \<longleftrightarrow>
        (adm_collection (dec_limits d) (dec_depth d) (length es) \<and> ?good (dec_limits d) (dec_depth d + 1) es) \<and>
        (\<exists>b c. write_scalar (of_nat (length es) :: u32) [] = Inr b \<and> ?enc es = Inr c \<and>
           prefix (b @ c) (unread d) \<and> d' = advance_by (length (b @ c)) d)"
      unfolding entered by (rule read_collection_iff [OF d]) (rule items, assumption, rule room)
    have wrote: "(\<exists>b. write_canonical_map field wk wv es [] = Inr b \<and> prefix b (unread d) \<and> d' = advance_by (length b) d) \<longleftrightarrow>
        length es < 2 ^ 32 \<and>
        (\<exists>b c. write_scalar (of_nat (length es) :: u32) [] = Inr b \<and> ?enc es = Inr c \<and>
           prefix (b @ c) (unread d) \<and> d' = advance_by (length (b @ c)) d)"
      if "entries_encode wk wv es bs" "ascending None (map fst bs)" for bs
    proof -
      have enc: "?enc es = Inr c \<longleftrightarrow> c = flat bs" for c
        by (rule entries_items_unique [OF k v that(1)])
      have wr: "write_canonical_map field wk wv es [] = Inr e \<longleftrightarrow> length es < 2 ^ 32 \<and>
          (\<exists>b. write_scalar (of_nat (length es) :: u32) [] = Inr b \<and> e = b @ flat bs)" for e
        using that by (rule write_ascending_map)
      show ?thesis
        unfolding enc wr by auto
    qed
    show ?thesis
    proof (cases "\<exists>bs. entries_encode wk wv es bs \<and> ascending None (map fst bs)")
      case True
      then obtain bs where "entries_encode wk wv es bs" "ascending None (map fst bs)"
        by blast
      note wr = wrote [OF this]
      have absorb: "(a \<longrightarrow> l) \<Longrightarrow> (a \<and> g) \<and> x \<longleftrightarrow> (a \<and> g) \<and> (l \<and> x)" for a l g x
        by blast
      show ?thesis
        unfolding read adm_map_def wr by (rule absorb) (simp add: adm_collection_def)
    next
      case False
      then show ?thesis
        by (simp only: read adm_map_def simp_thms)
    qed
  qed
qed

section \<open>Order of construction\<close>

lemma same_sort:
  assumes "mset xs = mset (ys :: 'a::linorder list)"
  shows "sort xs = sort ys" "length xs = length ys"
  using assms by (metis mset_sort properties_for_sort sorted_sort, metis size_mset)

lemma write_canonical_set_perm:
  assumes "mset xs = mset ys" "write_canonical_set field w xs out = Inr out'"
  shows "write_canonical_set field w ys out = Inr out'"
proof -
  from assms(2) obtain bs b where bs: "encodes w xs bs" "distinct bs" "length bs < 2 ^ 32"
      "write_scalar (of_nat (length bs) :: u32) [] = Inr b" "out' = out @ b @ concat (sort bs)"
    by (auto simp: write_canonical_set_iff)
  obtain cs where cs: "encodes w ys cs" "mset cs = mset bs"
    using results_perm [of "\<lambda>x. w x []" xs bs ys] bs(1) assms(1) by blast
  moreover have "distinct cs"
    using cs(2) bs(2) by (metis mset_eq_imp_distinct_iff)
  ultimately show ?thesis
    using bs same_sort [OF cs(2)] by (auto simp: write_canonical_set_iff)
qed

lemma write_canonical_map_perm:
  assumes "mset es = mset fs" "write_canonical_map field wk wv es out = Inr out'"
  shows "write_canonical_map field wk wv fs out = Inr out'"
proof -
  let ?f = "\<lambda>e. rbind (wk (fst e) []) (\<lambda>k. rbind (wv (snd e) []) (\<lambda>v. Inr (k, v)))"
  have f: "wk (fst e) [] = Inr (fst b) \<and> wv (snd e) [] = Inr (snd b) \<longleftrightarrow> ?f e = Inr b" for e b
    by (cases b) auto
  from assms(2) obtain bs b where bs: "entries_encode wk wv es bs" "distinct (map fst bs)" "length bs < 2 ^ 32"
      "write_scalar (of_nat (length bs) :: u32) [] = Inr b" "out' = out @ b @ flat (sort bs)"
    by (auto simp: write_canonical_map_iff)
  obtain cs where cs: "entries_encode wk wv fs cs" "mset cs = mset bs"
    using results_perm [of ?f es bs fs] bs(1) assms(1) unfolding f by blast
  moreover have "distinct (map fst cs)"
    using bs(2) arg_cong [OF cs(2), of "image_mset fst"]
    by (metis mset_eq_imp_distinct_iff mset_map)
  ultimately show ?thesis
    using bs same_sort [OF cs(2)] by (auto simp: write_canonical_map_iff)
qed

text \<open>A writable set has one order that its reader accepts.\<close>

lemma canonical_order:
  assumes "write_canonical_set field w xs [] = Inr e" "adm_collection limits depth (length xs)"
    and "\<forall>x \<in> set xs. adm limits (depth + 1) x"
  obtains ys where "mset ys = mset xs" "adm_set w adm limits depth ys"
proof -
  let ?enc = "\<lambda>x. projr (w x [])"
  from assms(1) obtain bs where bs: "encodes w xs bs" "distinct bs"
    by (auto simp: write_canonical_set_iff)
  then have enc: "bs = map ?enc xs" "\<forall>x \<in> set xs. \<exists>b. w x [] = Inr b"
    by (induction rule: list_all2_induct) auto
  define ys where "ys = sort_key ?enc xs"
  have "encodes w ys (map ?enc ys)"
    using enc(2) by (fastforce simp: ys_def list_all2_map2 list.rel_refl_strong list_all2_same)
  moreover have "ascending None (map ?enc ys)"
    using bs(2) by (simp add: ys_def ascending_None enc(1) distinct_map)
  ultimately show ?thesis
    using assms(2,3) by (intro that [of ys]) (auto simp: ys_def adm_set_def)
qed

end
