(* ===== verification/Codec_Values.thy ===== *)
theory Codec_Values
  imports Codec_Collections
begin

text \<open>
  The canonical forms of the identity, label, digest, counter and name types (\<open>writer.rs\<close> and
  \<open>reader.rs\<close>), each with its codec law. \<open>DigestAlgorithm\<close> and its output widths are those of the
  registry of \<open>fgit-crypto\<close>.
\<close>

section \<open>Text\<close>

text \<open>Well-formed UTF-8 as \<open>core::str::from_utf8\<close> accepts it: a string is its bytes.\<close>

definition utf8_continuation :: "u8 \<Rightarrow> bool" where
  "utf8_continuation b \<longleftrightarrow> 128 \<le> b \<and> b \<le> 191"

definition utf8_second :: "u8 \<Rightarrow> u8 \<Rightarrow> bool" where
  "utf8_second a b \<longleftrightarrow>
     utf8_continuation b \<and> (a = 224 \<longrightarrow> 160 \<le> b) \<and> (a = 237 \<longrightarrow> b \<le> 159) \<and>
     (a = 240 \<longrightarrow> 144 \<le> b) \<and> (a = 244 \<longrightarrow> b \<le> 143)"

fun utf8_valid :: "bytes \<Rightarrow> bool" where
  "utf8_valid [] = True"
| "utf8_valid (a # bs) =
     (if a < 128 then utf8_valid bs
      else if 194 \<le> a \<and> a \<le> 223 then
        (case bs of b # rest \<Rightarrow> utf8_second a b \<and> utf8_valid rest | _ \<Rightarrow> False)
      else if 224 \<le> a \<and> a \<le> 239 then
        (case bs of
           b # c # rest \<Rightarrow> utf8_second a b \<and> utf8_continuation c \<and> utf8_valid rest
         | _ \<Rightarrow> False)
      else if 240 \<le> a \<and> a \<le> 244 then
        (case bs of
           b # c # e # rest \<Rightarrow>
             utf8_second a b \<and> utf8_continuation c \<and> utf8_continuation e \<and> utf8_valid rest
         | _ \<Rightarrow> False)
      else False)"

definition read_text :: "string \<Rightarrow> bytes reader" where
  "read_text field d =
     dbind (read_bytes field) (\<lambda>bs.
       dcheck (if utf8_valid bs then Inr bs else Inl (TextNotUtf8 field (dec_position d)))) d"

section \<open>Labels, versions and digests\<close>

definition write_codec_version :: "codec_version writer" where
  "write_codec_version v = wthen (write_scalar (codec_major v)) (write_scalar (codec_minor v))"

definition read_codec_version :: "string \<Rightarrow> codec_version reader" where
  "read_codec_version field =
     dbind (read_u16 field) (\<lambda>major. dbind (read_u16 field) (\<lambda>minor. dreturn (CodecVersion major minor)))"

definition write_domain_tag :: "ascii_slug writer" where
  "write_domain_tag tag = write_bytes ''DomainTag'' (slug_bytes tag)"

definition read_domain_tag :: "ascii_slug reader" where
  "read_domain_tag =
     dbind (read_bytes ''DomainTag'') (\<lambda>bs. dcheck (map_err Codec_Type (slug_try_new ''DomainTag'' bs)))"

definition write_schema_id :: "schema_id writer" where
  "write_schema_id s =
     wthen (write_bytes ''SchemaFamily'' (slug_bytes (schema_family s)))
       (wthen (write_scalar (schema_major s)) (write_scalar (schema_minor s)))"

definition read_schema_id :: "schema_id reader" where
  "read_schema_id =
     dbind (dbind (read_bytes ''SchemaFamily'') (\<lambda>bs.
              dcheck (map_err Codec_Type (slug_try_new ''SchemaFamily'' bs)))) (\<lambda>family.
     dbind (read_u16 ''SchemaId.major'') (\<lambda>major.
     dbind (read_u16 ''SchemaId.minor'') (\<lambda>minor. dreturn (SchemaId family major minor))))"

definition write_digest_bytes :: "digest_bytes writer" where
  "write_digest_bytes b = write_bytes ''DigestBytes'' (digest_body b)"

definition read_digest_bytes :: "digest_bytes reader" where
  "read_digest_bytes =
     dbind (read_bytes ''DigestBytes'') (\<lambda>bs. dcheck (map_err Codec_Type (digest_bytes_try_new bs)))"

definition read_digest_algorithm :: "digest_algorithm_id reader" where
  "read_digest_algorithm =
     dbind (read_u16 ''DigestAlgorithmId'') (\<lambda>cp. dcheck (map_err Codec_Type (digest_algorithm_try_new cp)))"

definition write_digest :: "digest writer" where
  "write_digest x =
     wthen (write_scalar (algorithm_code_point (digest_algorithm x))) (write_digest_bytes (digest_value x))"

text \<open>The output width the registry declares for a code point, when it is allocated.\<close>

definition registered_digest_len :: "digest_algorithm_id \<Rightarrow> nat option" where
  "registered_digest_len a =
     (if algorithm_code_point a = 1 then Some 20 else if algorithm_code_point a = 2 then Some 32 else None)"

definition checked_digest :: "digest_algorithm_id \<Rightarrow> digest_bytes \<Rightarrow> codec_refusal + digest" where
  "checked_digest algorithm bs =
     (case registered_digest_len algorithm of
        None \<Rightarrow>
          if 65520 \<le> algorithm_code_point algorithm then Inr (Digest algorithm bs)
          else Inl (DigestAlgorithmUnregistered (algorithm_code_point algorithm))
      | Some width \<Rightarrow> map_err Codec_Type (digest_new_checked algorithm bs width))"

definition read_digest :: "digest reader" where
  "read_digest =
     dbind read_digest_algorithm (\<lambda>algorithm. dbind read_digest_bytes (\<lambda>bs. dcheck (checked_digest algorithm bs)))"

section \<open>Identities, counters and names\<close>

definition write_internal_object_id :: "internal_object_id writer" where
  "write_internal_object_id i =
     wthen (write_scalar (algorithm_code_point (id_algorithm i)))
       (wthen (write_domain_tag (id_domain i))
         (wthen (write_codec_version (id_codec_version i)) (write_digest_bytes (id_digest i))))"

definition read_internal_object_id :: "internal_object_id reader" where
  "read_internal_object_id =
     dbind read_digest_algorithm (\<lambda>algorithm.
     dbind read_domain_tag (\<lambda>domain.
     dbind (read_codec_version ''InternalObjectId.codec_version'') (\<lambda>version.
     dbind read_digest_bytes (\<lambda>bs.
     dbind (dcheck (checked_digest algorithm bs)) (\<lambda>digest.
     dreturn (InternalObjectId algorithm domain version (digest_value digest)))))))"

definition write_opaque_id :: "'d opaque_id writer" where
  "write_opaque_id i = write_raw (opaque_bytes i)"

definition read_opaque_id :: "string \<Rightarrow> 'd opaque_id reader" where
  "read_opaque_id field = dbind (dec_take field OPAQUE_ID_LEN) (\<lambda>bs. dreturn (OpaqueId bs))"

definition write_derived :: "'d derived_id writer" where
  "write_derived i = write_internal_object_id (as_internal_object_id i)"

definition read_derived :: "string \<Rightarrow> string \<Rightarrow> 'd derived_id reader" where
  "read_derived name domain =
     dbind read_internal_object_id (\<lambda>i. dcheck (map_err Codec_Type (from_internal_object_id name domain i)))"

definition write_counter :: "'d counter writer" where
  "write_counter c = write_scalar (counter_get c)"

definition read_counter :: "string \<Rightarrow> string \<Rightarrow> 'd counter reader" where
  "read_counter name field = dbind (read_u64 field) (\<lambda>v. dcheck (map_err Codec_Type (counter_try_new name v)))"

definition write_git_oid :: "git_oid writer" where
  "write_git_oid oid = wthen (write_scalar (hash_code_point (oid_algorithm oid))) (write_raw (oid_bytes oid))"

definition read_git_hash_algorithm :: "git_hash_algorithm reader" where
  "read_git_hash_algorithm =
     dbind (read_u16 ''GitHashAlgorithm'') (\<lambda>cp. dcheck (map_err Codec_Type (hash_from_code_point cp)))"

definition read_git_oid :: "git_oid reader" where
  "read_git_oid =
     dbind read_git_hash_algorithm (\<lambda>algorithm.
       case algorithm of
         Alg_Sha1 \<Rightarrow> dbind (dec_take ''GitOidSha1'' 20) (\<lambda>bs. dreturn (Sha1 bs))
       | Alg_Sha256 \<Rightarrow> dbind (dec_take ''GitOidSha256'' 32) (\<lambda>bs. dreturn (Sha256 bs)))"

definition write_ref_name :: "ref_name writer" where
  "write_ref_name name = write_bytes ''RefName'' (ref_bytes name)"

definition read_ref_name :: "ref_name reader" where
  "read_ref_name = dbind (read_bytes ''RefName'') (\<lambda>bs. dcheck (map_err Codec_Type (ref_try_new bs)))"

section \<open>Codec laws\<close>

text \<open>The monad laws that bring a reader into the shape of the codec rules.\<close>

lemma dbind_assoc [simp]: "dbind (dbind r f) g = dbind r (\<lambda>x. dbind (f x) g)"
  by (auto simp: dbind_def fun_eq_iff rbind_def split: sum.splits)

lemma dbind_return [simp]: "dbind (dreturn x) f = f x"
  by (simp add: dbind_def dreturn_def fun_eq_iff)

lemma dbind_dreturn [simp]: "dbind r dreturn = r"
  by (auto simp: dbind_def dreturn_def fun_eq_iff rbind_def split: sum.splits)

lemma dbind_dcheck_Inr [simp]: "dbind (dcheck (Inr x)) f = f x" "dcheck (Inr x) = dreturn x"
  by (simp_all add: dbind_def dcheck_def dreturn_def fun_eq_iff)

lemma codec_conv_at:
  assumes codec: "canonical_codec w r adm"
    and conv: "\<And>p limits depth x y. adm limits depth x \<Longrightarrow> conv p x = Inr y \<longleftrightarrow> x = unmake y \<and> good y"
  shows "canonical_codec (conv_writer unmake w) (\<lambda>d. conv_reader (conv (dec_position d)) r d)
    (\<lambda>limits depth y. good y \<and> adm limits depth (unmake y))"
proof -
  have each: "canonical_codec (conv_writer unmake w) (conv_reader (conv p) r)
      (\<lambda>limits depth y. good y \<and> adm limits depth (unmake y))" for p
    by (rule codec_conv [OF codec]) (rule conv)
  show ?thesis
    by unfold_locales (rule canonical_codec.appends [OF each], erule (1) canonical_codec.nonempty [OF each],
      erule canonical_codec.writes [OF each], erule canonical_codec.reads [OF each])
qed

lemmas codec_shapes = pair_writer_def pair_reader_def conv_writer_def conv_reader_def

lemma codec_text: "canonical_codec (write_text field) (read_text field')
    (\<lambda>limits depth bs. utf8_valid bs \<and> adm_bytes limits depth bs)"
proof -
  have "canonical_codec (conv_writer (\<lambda>bs. bs) (write_bytes field))
      (\<lambda>d. conv_reader (\<lambda>bs. if utf8_valid bs then Inr bs else Inl (TextNotUtf8 field' (dec_position d)))
         (read_bytes field') d) (\<lambda>limits depth bs. utf8_valid bs \<and> adm_bytes limits depth bs)"
    by (rule codec_conv_at [OF codec_bytes]) auto
  then show ?thesis
    by (simp add: codec_shapes [abs_def] write_text_def [abs_def] read_text_def [abs_def])
qed

lemma codec_codec_version: "canonical_codec write_codec_version (read_codec_version field) (\<lambda>_ _ _. True)"
proof -
  have "canonical_codec (\<lambda>v. pair_writer write_scalar write_scalar (codec_major v, codec_minor v))
      (dbind (pair_reader (read_u16 field) (read_u16 field)) (\<lambda>p. dreturn (case p of (a, b) \<Rightarrow> CodecVersion a b)))
      (\<lambda>limits depth v. True \<and> True)"
    by (rule codec_iso [OF codec_pair [OF codec_u16 codec_u16]]) auto
  then show ?thesis
    by (simp add: codec_shapes [abs_def] write_codec_version_def [abs_def] read_codec_version_def)
qed

definition slug_wf :: "ascii_slug \<Rightarrow> bool" where
  "slug_wf s \<longleftrightarrow>
     slug_bytes s \<noteq> [] \<and> length (slug_bytes s) \<le> MAX_LABEL_LEN \<and> list_all byte_is_permitted (slug_bytes s)"

lemma slug_scan_iff: "slug_scan field i bs = Inr u \<longleftrightarrow> list_all byte_is_permitted bs"
  by (induction field i bs rule: slug_scan.induct) auto

lemma slug_try_new_iff: "slug_try_new field bs = Inr s \<longleftrightarrow> bs = slug_bytes s \<and> slug_wf s"
  by (cases s) (auto simp: slug_try_new_def slug_scan_iff slug_wf_def)

definition adm_slug :: "decode_limits \<Rightarrow> u32 \<Rightarrow> ascii_slug \<Rightarrow> bool" where
  "adm_slug limits depth s \<longleftrightarrow> slug_wf s \<and> adm_bytes limits depth (slug_bytes s)"

lemma codec_slug:
  "canonical_codec (\<lambda>s. write_bytes field (slug_bytes s))
     (dbind (read_bytes field') (\<lambda>bs. dcheck (map_err Codec_Type (slug_try_new name bs)))) adm_slug"
proof -
  have "canonical_codec (conv_writer slug_bytes (write_bytes field))
      (conv_reader (\<lambda>bs. map_err Codec_Type (slug_try_new name bs)) (read_bytes field'))
      (\<lambda>limits depth s. slug_wf s \<and> adm_bytes limits depth (slug_bytes s))"
    by (rule codec_conv [OF codec_bytes]) (simp add: slug_try_new_iff)
  then show ?thesis
    by (simp add: codec_shapes [abs_def] adm_slug_def [abs_def])
qed

lemma codec_domain_tag: "canonical_codec write_domain_tag read_domain_tag adm_slug"
  using codec_slug by (simp add: write_domain_tag_def [abs_def] read_domain_tag_def)

definition adm_schema_id :: "decode_limits \<Rightarrow> u32 \<Rightarrow> schema_id \<Rightarrow> bool" where
  "adm_schema_id limits depth s \<longleftrightarrow> adm_slug limits depth (schema_family s)"

lemma codec_schema_id: "canonical_codec write_schema_id read_schema_id adm_schema_id"
proof -
  have "canonical_codec (\<lambda>s. pair_writer (\<lambda>s. write_bytes ''SchemaFamily'' (slug_bytes s))
        (pair_writer write_scalar write_scalar) (schema_family s, schema_major s, schema_minor s))
      (dbind (pair_reader (dbind (read_bytes ''SchemaFamily'') (\<lambda>bs.
              dcheck (map_err Codec_Type (slug_try_new ''SchemaFamily'' bs))))
          (pair_reader (read_u16 ''SchemaId.major'') (read_u16 ''SchemaId.minor'')))
        (\<lambda>p. dreturn (case p of (f, a, b) \<Rightarrow> SchemaId f a b)))
      (\<lambda>limits depth s. adm_slug limits depth (fst (schema_family s, schema_major s, schema_minor s)) \<and>
         True \<and> True)"
    by (rule codec_iso [OF codec_pair [OF codec_slug codec_pair [OF codec_u16 codec_u16]]]) auto
  then show ?thesis
    by (simp add: codec_shapes [abs_def] write_schema_id_def [abs_def] read_schema_id_def adm_schema_id_def [abs_def])
qed

text \<open>A registered code point, for every vocabulary that lists its members.\<close>

context code_table
begin

lemma codec:
  "canonical_codec (\<lambda>x. write_scalar (code_point x))
     (dbind (read_u16 field) (\<lambda>cp. dcheck (map_err Codec_Type (find_code_point name code_point members cp))))
     (\<lambda>_ _ _. True)"
proof -
  have "canonical_codec (conv_writer code_point write_scalar)
      (conv_reader (\<lambda>cp. map_err Codec_Type (find_code_point name code_point members cp)) (read_u16 field))
      (\<lambda>limits depth x. True \<and> True)"
    by (rule codec_conv [OF codec_u16]) (simp add: decode_iff)
  then show ?thesis
    by (simp add: codec_shapes [abs_def])
qed

end

section \<open>Digests\<close>

definition adm_algorithm :: "decode_limits \<Rightarrow> u32 \<Rightarrow> digest_algorithm_id \<Rightarrow> bool" where
  "adm_algorithm limits depth a \<longleftrightarrow> algorithm_code_point a \<noteq> 0"

lemma codec_digest_algorithm:
  "canonical_codec (\<lambda>a. write_scalar (algorithm_code_point a)) read_digest_algorithm adm_algorithm"
proof -
  have "canonical_codec (conv_writer algorithm_code_point write_scalar)
      (conv_reader (\<lambda>cp. map_err Codec_Type (digest_algorithm_try_new cp)) (read_u16 ''DigestAlgorithmId''))
      (\<lambda>limits depth a. algorithm_code_point a \<noteq> 0 \<and> True)"
    by (rule codec_conv [OF codec_u16]) (auto simp: digest_algorithm_try_new_def)
  then show ?thesis
    by (simp add: codec_shapes [abs_def] read_digest_algorithm_def adm_algorithm_def [abs_def])
qed

definition adm_digest_bytes :: "decode_limits \<Rightarrow> u32 \<Rightarrow> digest_bytes \<Rightarrow> bool" where
  "adm_digest_bytes limits depth b \<longleftrightarrow>
     MIN_DIGEST_LEN \<le> length (digest_body b) \<and> length (digest_body b) \<le> MAX_DIGEST_LEN \<and>
     adm_bytes limits depth (digest_body b)"

lemma codec_digest_bytes: "canonical_codec write_digest_bytes read_digest_bytes adm_digest_bytes"
proof -
  have "canonical_codec (conv_writer digest_body (write_bytes ''DigestBytes''))
      (conv_reader (\<lambda>bs. map_err Codec_Type (digest_bytes_try_new bs)) (read_bytes ''DigestBytes''))
      (\<lambda>limits depth b. (MIN_DIGEST_LEN \<le> length (digest_body b) \<and> length (digest_body b) \<le> MAX_DIGEST_LEN) \<and>
         adm_bytes limits depth (digest_body b))"
    by (rule codec_conv [OF codec_bytes]) (auto simp: digest_bytes_try_new_def)
  then show ?thesis
    by (simp add: codec_shapes [abs_def] write_digest_bytes_def [abs_def] read_digest_bytes_def
        adm_digest_bytes_def [abs_def])
qed

text \<open>The digest has the width its algorithm declares, or the algorithm is in the reserved range.\<close>

definition registered :: "digest_algorithm_id \<Rightarrow> digest_bytes \<Rightarrow> bool" where
  "registered a b \<longleftrightarrow>
     (case registered_digest_len a of
        None \<Rightarrow> 65520 \<le> algorithm_code_point a
      | Some width \<Rightarrow> length (digest_body b) = width)"

lemma checked_digest_iff: "checked_digest a b = Inr x \<longleftrightarrow> x = Digest a b \<and> registered a b"
  by (auto simp: checked_digest_def registered_def digest_new_checked_def split: option.splits)

definition adm_digest :: "decode_limits \<Rightarrow> u32 \<Rightarrow> digest \<Rightarrow> bool" where
  "adm_digest limits depth x \<longleftrightarrow>
     registered (digest_algorithm x) (digest_value x) \<and>
     adm_algorithm limits depth (digest_algorithm x) \<and> adm_digest_bytes limits depth (digest_value x)"

lemma codec_digest: "canonical_codec write_digest read_digest adm_digest"
proof -
  have "canonical_codec (conv_writer (\<lambda>x. (digest_algorithm x, digest_value x))
        (pair_writer (\<lambda>a. write_scalar (algorithm_code_point a)) write_digest_bytes))
      (conv_reader (\<lambda>(a, b). checked_digest a b) (pair_reader read_digest_algorithm read_digest_bytes))
      (\<lambda>limits depth x. registered (digest_algorithm x) (digest_value x) \<and>
         adm_algorithm limits depth (fst (digest_algorithm x, digest_value x)) \<and>
         adm_digest_bytes limits depth (snd (digest_algorithm x, digest_value x)))"
    by (rule codec_conv [OF codec_pair [OF codec_digest_algorithm codec_digest_bytes]])
      (auto simp: checked_digest_iff)
  then show ?thesis
    by (simp add: codec_shapes [abs_def] write_digest_def [abs_def] read_digest_def adm_digest_def [abs_def])
qed

lemma dcheck_map: "dbind (dcheck c) (\<lambda>x. dreturn (f x)) = dcheck (rbind c (\<lambda>x. Inr (f x)))"
  by (cases c) (auto simp: dbind_def dcheck_def dreturn_def fun_eq_iff rbind_def)

definition adm_internal_object_id :: "decode_limits \<Rightarrow> u32 \<Rightarrow> internal_object_id \<Rightarrow> bool" where
  "adm_internal_object_id limits depth i \<longleftrightarrow>
     registered (id_algorithm i) (id_digest i) \<and> adm_algorithm limits depth (id_algorithm i) \<and>
     adm_slug limits depth (id_domain i) \<and> adm_digest_bytes limits depth (id_digest i)"

lemma codec_internal_object_id:
  "canonical_codec write_internal_object_id read_internal_object_id adm_internal_object_id"
proof -
  have "canonical_codec
      (conv_writer (\<lambda>i. (id_algorithm i, id_domain i, id_codec_version i, id_digest i))
        (pair_writer (\<lambda>a. write_scalar (algorithm_code_point a))
          (pair_writer write_domain_tag (pair_writer write_codec_version write_digest_bytes))))
      (conv_reader (\<lambda>(a, t, v, b). rbind (checked_digest a b) (\<lambda>x. Inr (InternalObjectId a t v (digest_value x))))
        (pair_reader read_digest_algorithm (pair_reader read_domain_tag
          (pair_reader (read_codec_version ''InternalObjectId.codec_version'') read_digest_bytes))))
      (\<lambda>limits depth i. registered (id_algorithm i) (id_digest i) \<and>
         (\<lambda>p. adm_algorithm limits depth (fst p) \<and> adm_slug limits depth (fst (snd p)) \<and> True \<and>
            adm_digest_bytes limits depth (snd (snd (snd p))))
         (id_algorithm i, id_domain i, id_codec_version i, id_digest i))"
    by (rule codec_conv [OF codec_pair [OF codec_digest_algorithm
          codec_pair [OF codec_domain_tag codec_pair [OF codec_codec_version codec_digest_bytes]]]])
      (auto simp: checked_digest_iff rbind_Inr_iff)
  then show ?thesis
    by (simp add: codec_shapes [abs_def] write_internal_object_id_def [abs_def]
        read_internal_object_id_def adm_internal_object_id_def [abs_def] dcheck_map)
qed

section \<open>Identities, counters and names: the laws\<close>

definition adm_opaque_id :: "decode_limits \<Rightarrow> u32 \<Rightarrow> 'd opaque_id \<Rightarrow> bool" where
  "adm_opaque_id limits depth i \<longleftrightarrow> length (opaque_bytes i) = OPAQUE_ID_LEN"

lemma codec_opaque_id: "canonical_codec write_opaque_id (read_opaque_id field) adm_opaque_id"
proof -
  have "canonical_codec (\<lambda>i. write_raw (opaque_bytes i))
      (dbind (dec_take field OPAQUE_ID_LEN) (\<lambda>bs. dreturn (OpaqueId bs)))
      (\<lambda>limits depth i. length (opaque_bytes i) = OPAQUE_ID_LEN)"
    by (rule codec_iso [OF codec_raw]) (simp_all add: OPAQUE_ID_LEN_def)
  then show ?thesis
    by (simp add: write_opaque_id_def [abs_def] read_opaque_id_def adm_opaque_id_def [abs_def])
qed

definition adm_derived :: "string \<Rightarrow> decode_limits \<Rightarrow> u32 \<Rightarrow> 'd derived_id \<Rightarrow> bool" where
  "adm_derived domain limits depth i \<longleftrightarrow>
     slug_bytes (id_domain (as_internal_object_id i)) = bytes_of domain \<and>
     adm_internal_object_id limits depth (as_internal_object_id i)"

lemma codec_derived: "canonical_codec write_derived (read_derived name domain) (adm_derived domain)"
proof -
  have "canonical_codec (conv_writer as_internal_object_id write_internal_object_id)
      (conv_reader (\<lambda>i. map_err Codec_Type (from_internal_object_id name domain i)) read_internal_object_id)
      (\<lambda>limits depth i. slug_bytes (id_domain (as_internal_object_id i)) = bytes_of domain \<and>
         adm_internal_object_id limits depth (as_internal_object_id i))"
    by (rule codec_conv [OF codec_internal_object_id]) (auto simp: from_internal_object_id_def)
  then show ?thesis
    by (simp add: codec_shapes [abs_def] write_derived_def [abs_def] read_derived_def adm_derived_def [abs_def])
qed

definition adm_counter :: "decode_limits \<Rightarrow> u32 \<Rightarrow> 'd counter \<Rightarrow> bool" where
  "adm_counter limits depth c \<longleftrightarrow> counter_get c \<noteq> 0"

lemma codec_counter: "canonical_codec write_counter (read_counter name field) adm_counter"
proof -
  have "canonical_codec (conv_writer counter_get write_scalar)
      (conv_reader (\<lambda>v. map_err Codec_Type (counter_try_new name v)) (read_u64 field))
      (\<lambda>limits depth c. counter_get c \<noteq> 0 \<and> True)"
    by (rule codec_conv [OF codec_u64]) (auto simp: counter_try_new_def)
  then show ?thesis
    by (simp add: codec_shapes [abs_def] write_counter_def [abs_def] read_counter_def adm_counter_def [abs_def])
qed

definition adm_ref_name :: "decode_limits \<Rightarrow> u32 \<Rightarrow> ref_name \<Rightarrow> bool" where
  "adm_ref_name limits depth n \<longleftrightarrow> ref_try_new (ref_bytes n) = Inr n \<and> adm_bytes limits depth (ref_bytes n)"

lemma ref_try_new_keeps: "ref_try_new bs = Inr n \<Longrightarrow> ref_bytes n = bs"
  by (auto simp: ref_try_new_def ref_validate_def rbind_Inr_iff split: if_splits)

lemma codec_ref_name: "canonical_codec write_ref_name read_ref_name adm_ref_name"
proof -
  have "canonical_codec (conv_writer ref_bytes (write_bytes ''RefName''))
      (conv_reader (\<lambda>bs. map_err Codec_Type (ref_try_new bs)) (read_bytes ''RefName''))
      (\<lambda>limits depth n. ref_try_new (ref_bytes n) = Inr n \<and> adm_bytes limits depth (ref_bytes n))"
    by (rule codec_conv [OF codec_bytes]) (auto dest: ref_try_new_keeps)
  then show ?thesis
    by (simp add: codec_shapes [abs_def] write_ref_name_def [abs_def] read_ref_name_def adm_ref_name_def [abs_def])
qed

text \<open>A tag no reader accepts.\<close>

lemma codec_reject: "canonical_codec (\<lambda>_ _. Inl e) (dcheck (Inl e')) (\<lambda>_ _ _. False)"
  by unfold_locales (simp_all add: dcheck_def)

lemma codec_git_hash_algorithm:
  "canonical_codec (\<lambda>a. write_scalar (hash_code_point a)) read_git_hash_algorithm (\<lambda>_ _ _. True)"
  unfolding read_git_hash_algorithm_def hash_from_code_point_def by (rule hash.codec)

definition adm_git_oid :: "decode_limits \<Rightarrow> u32 \<Rightarrow> git_oid \<Rightarrow> bool" where
  "adm_git_oid limits depth oid \<longleftrightarrow> oid_wf oid"

lemma codec_git_oid: "canonical_codec write_git_oid read_git_oid adm_git_oid"
proof -
  have len: "0 < digest_len a" for a
    by (cases a) (simp_all add: digest_len_def)
  define field where "field a = (case a of Alg_Sha1 \<Rightarrow> ''GitOidSha1'' | Alg_Sha256 \<Rightarrow> ''GitOidSha256'')" for a
  define build where "build a bs = (case a of Alg_Sha1 \<Rightarrow> Sha1 bs | Alg_Sha256 \<Rightarrow> Sha256 bs)" for a and bs :: bytes
  have inverse: "build (oid_algorithm oid) (oid_bytes oid) = oid"
    "oid_algorithm (build a bs) = a" "oid_bytes (build a bs) = bs" for oid a bs
    by (cases oid; simp add: build_def) (cases a; simp add: build_def)+
  have "canonical_codec
      (\<lambda>oid. (\<lambda>p. wthen (write_scalar (hash_code_point (fst p))) (write_raw (snd p))) (oid_algorithm oid, oid_bytes oid))
      (dbind (dbind read_git_hash_algorithm (\<lambda>a. dbind (dec_take (field a) (digest_len a)) (\<lambda>bs. dreturn (a, bs))))
        (\<lambda>p. dreturn (build (fst p) (snd p))))
      (\<lambda>limits depth oid. (\<lambda>p. True \<and> length (snd p) = digest_len (fst p)) (oid_algorithm oid, oid_bytes oid))"
    by (rule codec_iso [OF codec_tagged [OF codec_git_hash_algorithm codec_raw [OF len]]])
      (simp_all add: inverse)
  moreover have "dbind (dec_take (field a) (digest_len a)) (\<lambda>bs. dreturn (build a bs)) =
      (case a of Alg_Sha1 \<Rightarrow> dbind (dec_take ''GitOidSha1'' 20) (\<lambda>bs. dreturn (Sha1 bs))
       | Alg_Sha256 \<Rightarrow> dbind (dec_take ''GitOidSha256'' 32) (\<lambda>bs. dreturn (Sha256 bs)))" for a
    by (cases a) (simp_all add: field_def build_def digest_len_def)
  ultimately show ?thesis
    by (simp add: write_git_oid_def [abs_def] read_git_oid_def adm_git_oid_def [abs_def] oid_wf_def)
qed

end
