(* ===== verification/Codec_Fields.thy ===== *)
theory Codec_Fields
  imports Codec_Values
begin

text \<open>
  Record codecs field by field. A \<open>partial\<close> codec is what remains of one when some fields of the record
  have been read: \<open>P\<close> holds of the records that agree with them.
\<close>

definition partial_codec ::
  "('x \<Rightarrow> bool) \<Rightarrow> 'x writer \<Rightarrow> 'x reader \<Rightarrow> (decode_limits \<Rightarrow> u32 \<Rightarrow> 'x \<Rightarrow> bool) \<Rightarrow> bool" where
  "partial_codec P w r adm \<longleftrightarrow>
     (\<forall>x out out'. w x out = Inr out' \<longleftrightarrow> (\<exists>b. w x [] = Inr b \<and> out' = out @ b)) \<and>
     (\<forall>limits depth x. adm limits depth x \<longrightarrow> (\<exists>b. w x [] = Inr b)) \<and>
     (\<forall>d x d'. in_bounds d \<longrightarrow>
        (r d = Inr (x, d') \<longleftrightarrow>
           P x \<and> adm (dec_limits d) (dec_depth d) x \<and>
           (\<exists>b. w x [] = Inr b \<and> prefix b (unread d) \<and> d' = advance_by (length b) d)))"

named_theorems codec_first and codec_field and codec_last

lemma partial_appends:
  "partial_codec P w r adm \<Longrightarrow> w x out = Inr out' \<longleftrightarrow> (\<exists>b. w x [] = Inr b \<and> out' = out @ b)"
  unfolding partial_codec_def by blast

lemma partial_writes: "partial_codec P w r adm \<Longrightarrow> adm limits depth x \<Longrightarrow> \<exists>b. w x [] = Inr b"
  unfolding partial_codec_def by blast

lemma partial_reads:
  "partial_codec P w r adm \<Longrightarrow> in_bounds d \<Longrightarrow> r d = Inr (x, d') \<longleftrightarrow>
     P x \<and> adm (dec_limits d) (dec_depth d) x \<and>
     (\<exists>b. w x [] = Inr b \<and> prefix b (unread d) \<and> d' = advance_by (length b) d)"
  unfolding partial_codec_def by blast

lemma field_writer_iff:
  assumes "canonical_codec w r adm" "partial_codec P v s adm'"
  shows "wthen (w (f x)) (v x) out = Inr out' \<longleftrightarrow>
    (\<exists>a b. w (f x) [] = Inr a \<and> v x [] = Inr b \<and> out' = out @ a @ b)"
  by (rule wthen_appends) (rule canonical_codec.appends [OF assms(1)], rule partial_appends [OF assms(2)])

lemma partial_field:
  assumes w: "canonical_codec w r adm" and v: "\<And>y. partial_codec (\<lambda>x. P x \<and> f x = y) v (s y) adm'"
  shows "partial_codec P (\<lambda>x. wthen (w (f x)) (v x)) (dbind r s)
    (\<lambda>limits depth x. adm limits depth (f x) \<and> adm' limits depth x)"
proof -
  note bytes = field_writer_iff [OF w v]
  have reads: "dbind r s d = Inr (x, d') \<longleftrightarrow>
      P x \<and> (adm (dec_limits d) (dec_depth d) (f x) \<and> adm' (dec_limits d) (dec_depth d) x) \<and>
      (\<exists>b. wthen (w (f x)) (v x) [] = Inr b \<and> prefix b (unread d) \<and> d' = advance_by (length b) d)"
    if d: "in_bounds d" for d x d'
  proof -
    have "s y (advance_by (length a) d) = Inr (x, d') \<longleftrightarrow>
        (P x \<and> f x = y) \<and> adm' (dec_limits d) (dec_depth d) x \<and>
        (\<exists>b. v x [] = Inr b \<and> prefix b (drop (length a) (unread d)) \<and> d' = advance_by (length a + length b) d)"
      if "prefix a (unread d)" for y a
      using partial_reads [OF v in_bounds_advance [OF d that]] by simp
    then show ?thesis
      unfolding dbind_iff [OF w d] bytes by (auto simp: prefix_append_drop)
  qed
  show ?thesis
    unfolding partial_codec_def
  proof (intro conjI allI impI)
    show "wthen (w (f x)) (v x) out = Inr out' \<longleftrightarrow>
        (\<exists>b. wthen (w (f x)) (v x) [] = Inr b \<and> out' = out @ b)" for x out out'
      by (auto simp: bytes)
    show "\<exists>b. wthen (w (f x)) (v x) [] = Inr b"
      if "adm limits depth (f x) \<and> adm' limits depth x" for limits depth x
      using canonical_codec.writes [OF w] partial_writes [OF v] that by (simp add: bytes) blast
  qed (rule reads)
qed

lemma partial_last:
  assumes w: "canonical_codec w r adm" and build: "\<And>y x. P x \<and> f x = y \<longleftrightarrow> x = build y"
  shows "partial_codec P (\<lambda>x. w (f x)) (dbind r (\<lambda>y. dreturn (build y))) (\<lambda>limits depth x. adm limits depth (f x))"
proof -
  have "P x \<longleftrightarrow> x = build (f x)" for x
    using build [of x "f x"] by simp
  moreover have "f (build y) = y" for y
    using build [of "build y" y] by simp
  ultimately have reads: "dbind r (\<lambda>y. dreturn (build y)) d = Inr (x, d') \<longleftrightarrow>
      P x \<and> adm (dec_limits d) (dec_depth d) (f x) \<and>
      (\<exists>b. w (f x) [] = Inr b \<and> prefix b (unread d) \<and> d' = advance_by (length b) d)" if "in_bounds d" for d x d'
    unfolding dbind_iff [OF w that] by (auto simp: dreturn_def)
  show ?thesis
    unfolding partial_codec_def
    by (intro conjI allI impI) (rule canonical_codec.appends [OF w], erule canonical_codec.writes [OF w], erule reads)
qed

lemma codec_record:
  assumes w: "canonical_codec w r adm" and v: "\<And>y. partial_codec (\<lambda>x. f x = y) v (s y) adm'"
  shows "canonical_codec (\<lambda>x. wthen (w (f x)) (v x)) (dbind r s)
    (\<lambda>limits depth x. adm limits depth (f x) \<and> adm' limits depth x)"
proof -
  have partial: "partial_codec (\<lambda>x. True) (\<lambda>x. wthen (w (f x)) (v x)) (dbind r s)
      (\<lambda>limits depth x. adm limits depth (f x) \<and> adm' limits depth x)"
    by (rule partial_field [OF w]) (use v in simp)
  show ?thesis
  proof
    show "wthen (w (f x)) (v x) out = Inr out' \<longleftrightarrow>
        (\<exists>b. wthen (w (f x)) (v x) [] = Inr b \<and> out' = out @ b)" for x out out'
      by (rule partial_appends [OF partial])
    show "b \<noteq> []" if "adm limits depth (f x) \<and> adm' limits depth x" "wthen (w (f x)) (v x) [] = Inr b"
      for limits depth x b
      using that canonical_codec.nonempty [OF w] by (auto simp: field_writer_iff [OF w v])
    show "\<exists>b. wthen (w (f x)) (v x) [] = Inr b"
      if "adm limits depth (f x) \<and> adm' limits depth x" for limits depth x
      by (rule partial_writes [OF partial that])
  qed (simp add: partial_reads [OF partial])
qed

lemma codec_single:
  assumes "canonical_codec w r adm" "\<And>x y. f x = y \<longleftrightarrow> x = build y"
  shows "canonical_codec (\<lambda>x. w (f x)) (dbind r (\<lambda>y. dreturn (build y))) (\<lambda>limits depth x. adm limits depth (f x))"
proof (rule codec_iso [OF assms(1)])
  show "f (build y) = y" "build (f x) = x" for x y
    using assms(2) [of "build y" y] assms(2) [of x "f x"] by simp_all
qed

lemma codec_guarded:
  assumes codec: "canonical_codec w r adm" and bad: "\<And>limits depth x. adm limits depth x \<Longrightarrow> \<not> bad x"
  shows "canonical_codec (\<lambda>x out. if bad x then Inl (e x) else w x out) r adm"
proof
  show "(if bad x then Inl (e x) else w x out) = Inr out' \<longleftrightarrow>
      (\<exists>b. (if bad x then Inl (e x) else w x []) = Inr b \<and> out' = out @ b)" for x out out'
    using canonical_codec.appends [OF codec, of x out out'] by simp
  show "r d = Inr (x, d') \<longleftrightarrow> adm (dec_limits d) (dec_depth d) x \<and>
      (\<exists>b. (if bad x then Inl (e x) else w x []) = Inr b \<and> prefix b (unread d) \<and> d' = advance_by (length b) d)"
    if "in_bounds d" for d x d'
    using canonical_codec.reads [OF codec that, of x d'] bad [of "dec_limits d" "dec_depth d" x] by auto
qed (use canonical_codec.nonempty [OF codec] canonical_codec.writes [OF codec] bad in auto)

section \<open>Variants\<close>

text \<open>A reader may mention where it started in the refusals it returns.\<close>

lemma codec_at:
  assumes each: "\<And>p. canonical_codec w (r p) adm"
  shows "canonical_codec w (\<lambda>d. r (dec_position d) d) adm"
  by unfold_locales (rule canonical_codec.appends [OF each], erule (1) canonical_codec.nonempty [OF each],
      erule canonical_codec.writes [OF each], erule canonical_codec.reads [OF each])

text \<open>One constructor of a variant type: \<open>dest\<close> gives the argument of its values.\<close>

lemma codec_constructor:
  assumes codec: "canonical_codec w r adm" and dest: "\<And>v x. dest v = Some x \<longleftrightarrow> v = C x"
  shows "canonical_codec (\<lambda>v. case dest v of Some x \<Rightarrow> w x | None \<Rightarrow> \<lambda>_. Inl e) (dbind r (\<lambda>x. dreturn (C x)))
    (\<lambda>limits depth v. \<exists>x. v = C x \<and> adm limits depth x)"
proof
  have destC: "dest (C x) = Some x" for x
    by (simp add: dest)
  show "(case dest v of Some x \<Rightarrow> w x | None \<Rightarrow> \<lambda>_. Inl e) out = Inr out' \<longleftrightarrow>
      (\<exists>b. (case dest v of Some x \<Rightarrow> w x | None \<Rightarrow> \<lambda>_. Inl e) [] = Inr b \<and> out' = out @ b)" for v out out'
    by (cases "dest v") (simp, simp add: canonical_codec.appends [OF codec, of _ out])
  show "b \<noteq> []" if "\<exists>x. v = C x \<and> adm limits depth x"
    "(case dest v of Some x \<Rightarrow> w x | None \<Rightarrow> \<lambda>_. Inl e) [] = Inr b" for limits depth v b
    using that by (auto simp: destC dest: canonical_codec.nonempty [OF codec])
  show "\<exists>b. (case dest v of Some x \<Rightarrow> w x | None \<Rightarrow> \<lambda>_. Inl e) [] = Inr b"
    if "\<exists>x. v = C x \<and> adm limits depth x" for limits depth v
    using that canonical_codec.writes [OF codec] by (auto simp: destC)
  show "dbind r (\<lambda>x. dreturn (C x)) d = Inr (v, d') \<longleftrightarrow>
      (\<exists>x. v = C x \<and> adm (dec_limits d) (dec_depth d) x) \<and>
      (\<exists>b. (case dest v of Some x \<Rightarrow> w x | None \<Rightarrow> \<lambda>_. Inl e) [] = Inr b \<and> prefix b (unread d) \<and>
         d' = advance_by (length b) d)" if "in_bounds d" for d v d'
    unfolding dbind_iff [OF codec that] by (auto simp: dreturn_def destC)
qed

text \<open>A discriminant that decides how the rest is read.\<close>

lemma codec_variants:
  assumes tag: "canonical_codec wt rt admt" and branch: "\<And>t. canonical_codec (wb t) (rb t) (admb t)"
    and disc: "\<And>limits depth t v. admb t limits depth v \<Longrightarrow> t = disc v"
  shows "canonical_codec (\<lambda>v. wthen (wt (disc v)) (wb (disc v) v)) (dbind rt rb)
    (\<lambda>limits depth v. admt limits depth (disc v) \<and> admb (disc v) limits depth v)"
proof -
  have "canonical_codec (conv_writer (\<lambda>v. (disc v, v)) (\<lambda>p. wthen (wt (fst p)) (wb (fst p) (snd p))))
      (conv_reader (\<lambda>p. Inr (snd p)) (dbind rt (\<lambda>t. dbind (rb t) (\<lambda>y. dreturn (t, y)))))
      (\<lambda>limits depth v. True \<and> admt limits depth (fst (disc v, v)) \<and> admb (fst (disc v, v)) limits depth (snd (disc v, v)))"
    by (rule codec_conv [OF codec_tagged [OF tag branch]]) (auto dest: disc)
  then show ?thesis
    by (simp add: codec_shapes [abs_def])
qed

section \<open>The rules for the fields of a record\<close>

declare
  codec_opaque_id [THEN codec_record, codec_first] codec_opaque_id [THEN partial_field, codec_field]
  codec_opaque_id [THEN partial_last, codec_last]
  codec_derived [THEN codec_record, codec_first] codec_derived [THEN partial_field, codec_field]
  codec_derived [THEN partial_last, codec_last]
  codec_derived [THEN codec_option, THEN partial_field, codec_field]
  codec_derived [THEN codec_option, THEN partial_last, codec_last]
  codec_counter [THEN codec_record, codec_first] codec_counter [THEN partial_field, codec_field]
  codec_counter [THEN partial_last, codec_last]
  codec_counter [THEN codec_option, THEN partial_field, codec_field]
  codec_digest [THEN codec_record, codec_first] codec_digest [THEN partial_field, codec_field]
  codec_digest [THEN partial_last, codec_last]
  codec_digest [THEN codec_option, THEN partial_field, codec_field]
  codec_digest [THEN codec_option, THEN partial_last, codec_last]
  codec_schema_id [THEN partial_field, codec_field] codec_schema_id [THEN partial_last, codec_last]

end
