(* ===== verification/Codec_Frame.thy ===== *)
theory Codec_Frame
  imports Codec_Values
begin

text \<open>
  Body framing (\<open>wire.rs\<close>): the envelope that names a body's domain, schema and versions, strict and
  preserving decoding, and what they promise of every body whose payload is a codec.
\<close>

section \<open>Frames\<close>

definition FRAME_MAGIC :: bytes where
  "FRAME_MAGIC = bytes_of ''FGC1''"

definition CODEC_MAJOR :: u16 where
  "CODEC_MAJOR = 1"

definition CODEC_MINOR :: u16 where
  "CODEC_MINOR = 0"

text \<open>The trait: what a body declares of itself, and how its payload is written and read.\<close>

record 'b canonical_body =
  body_DOMAIN :: ascii_slug
  body_SCHEMA_FAMILY :: ascii_slug
  body_SCHEMA_MAJOR :: u16
  body_SCHEMA_MINOR :: u16
  write_payload :: "'b writer"
  read_payload :: "'b reader"

definition body_schema_id :: "'b canonical_body \<Rightarrow> schema_id" where
  "body_schema_id B = SchemaId (body_SCHEMA_FAMILY B) (body_SCHEMA_MAJOR B) (body_SCHEMA_MINOR B)"

record 'b decoded_body =
  db_body :: 'b
  db_codec_minor :: u16
  db_schema_minor :: u16
  db_unknown_suffix :: bytes

definition has_unknown_fields :: "'b decoded_body \<Rightarrow> bool" where
  "has_unknown_fields x \<longleftrightarrow> db_unknown_suffix x \<noteq> []"

definition canonical_body_bytes :: "'b canonical_body \<Rightarrow> 'b \<Rightarrow> codec_refusal + bytes" where
  "canonical_body_bytes B x = write_payload B x []"

definition write_frame ::
  "u16 \<Rightarrow> ascii_slug \<Rightarrow> ascii_slug \<Rightarrow> u16 \<Rightarrow> u16 \<Rightarrow> bytes \<Rightarrow> codec_refusal + bytes" where
  "write_frame cminor domain family smajor sminor payload =
     wthen (write_raw FRAME_MAGIC) (wthen (write_scalar CODEC_MAJOR) (wthen (write_scalar cminor)
       (wthen (write_domain_tag domain) (wthen (write_schema_id (SchemaId family smajor sminor))
         (write_bytes ''payload'' payload))))) []"

definition encode_body :: "'b canonical_body \<Rightarrow> 'b \<Rightarrow> codec_refusal + bytes" where
  "encode_body B x =
     rbind (canonical_body_bytes B x)
       (write_frame CODEC_MINOR (body_DOMAIN B) (body_SCHEMA_FAMILY B) (body_SCHEMA_MAJOR B) (body_SCHEMA_MINOR B))"

definition encode_preserved :: "'b canonical_body \<Rightarrow> 'b decoded_body \<Rightarrow> codec_refusal + bytes" where
  "encode_preserved B x =
     rbind (write_payload B (db_body x) []) (\<lambda>payload.
       write_frame (db_codec_minor x) (body_DOMAIN B) (body_SCHEMA_FAMILY B) (body_SCHEMA_MAJOR B)
         (db_schema_minor x) (payload @ db_unknown_suffix x))"

record frame_header =
  fh_codec_minor :: u16
  fh_domain :: ascii_slug
  fh_schema :: schema_id

definition read_header :: "frame_header reader" where
  "read_header =
     dbind (dec_take ''magic'' (length FRAME_MAGIC)) (\<lambda>magic.
     if magic \<noteq> FRAME_MAGIC then dcheck (Inl (MagicUnrecognized magic))
     else dbind (read_u16 ''codec_major'') (\<lambda>major.
     if major \<noteq> CODEC_MAJOR then dcheck (Inl (CodecMajorUnsupported major CODEC_MAJOR))
     else dbind (read_u16 ''codec_minor'') (\<lambda>cminor.
     dbind read_domain_tag (\<lambda>domain.
     dbind read_schema_id (\<lambda>schema.
     dreturn \<lparr>fh_codec_minor = cminor, fh_domain = domain, fh_schema = schema\<rparr>)))))"

definition read_frame_header :: "bytes \<Rightarrow> decode_limits \<Rightarrow> codec_refusal + frame_header \<times> decoder" where
  "read_frame_header frame limits = read_header (decoder_new frame limits)"

definition peek_frame_domain :: "bytes \<Rightarrow> decode_limits \<Rightarrow> codec_refusal + ascii_slug" where
  "peek_frame_domain frame limits =
     rbind (read_frame_header frame limits) (\<lambda>(header, _). Inr (fh_domain header))"

definition split_frame :: "bytes \<Rightarrow> decode_limits \<Rightarrow> codec_refusal + frame_header \<times> bytes" where
  "split_frame frame limits =
     rbind (read_frame_header frame limits) (\<lambda>(header, decoder).
     rbind (read_bytes ''payload'' decoder) (\<lambda>(payload, decoder).
     rbind (dec_finish decoder) (\<lambda>_. Inr (header, payload))))"

definition decode_payload ::
  "'b canonical_body \<Rightarrow> decode_limits \<Rightarrow> u16 \<Rightarrow> u16 \<Rightarrow> bytes \<Rightarrow> codec_refusal + 'b decoded_body" where
  "decode_payload B limits cminor sminor payload =
     rbind (read_payload B (decoder_new payload limits)) (\<lambda>(body, reader).
       let suffix = drop (unat (dec_position reader)) payload in
       if suffix \<noteq> [] \<and> sminor \<le> body_SCHEMA_MINOR B
       then Inl (TrailingBytes (dec_position reader) (clamp_u64 (length suffix)))
       else Inr \<lparr>db_body = body, db_codec_minor = cminor, db_schema_minor = sminor,
              db_unknown_suffix = suffix\<rparr>)"

definition decode_body_preserving ::
  "'b canonical_body \<Rightarrow> bytes \<Rightarrow> decode_limits \<Rightarrow> codec_refusal + 'b decoded_body" where
  "decode_body_preserving B bytes limits =
     (if clamp_u64 (length bytes) > lim_frame_bytes limits
      then Inl (LengthBoundExceeded ''frame'' (clamp_u64 (length bytes)) (lim_frame_bytes limits))
      else rbind (read_frame_header bytes limits) (\<lambda>(header, frame).
        if fh_domain header \<noteq> body_DOMAIN B then Inl (DomainUnexpected (body_DOMAIN B) (fh_domain header))
        else if schema_family (fh_schema header) \<noteq> body_SCHEMA_FAMILY B
        then Inl (SchemaFamilyUnexpected (body_SCHEMA_FAMILY B) (schema_family (fh_schema header)))
        else if schema_major (fh_schema header) \<noteq> body_SCHEMA_MAJOR B
        then Inl (SchemaMajorUnsupported (fh_domain header) (schema_major (fh_schema header)) (body_SCHEMA_MAJOR B))
        else rbind (read_bytes ''payload'' frame) (\<lambda>(payload, frame).
          rbind (dec_finish frame) (\<lambda>_.
            decode_payload B limits (fh_codec_minor header) (schema_minor (fh_schema header)) payload))))"

definition decode_body :: "'b canonical_body \<Rightarrow> bytes \<Rightarrow> decode_limits \<Rightarrow> codec_refusal + 'b" where
  "decode_body B bytes limits =
     rbind (decode_body_preserving B bytes limits) (\<lambda>decoded.
       if db_codec_minor decoded \<noteq> CODEC_MINOR
       then Inl (CodecMinorUnsupported (db_codec_minor decoded) CODEC_MINOR)
       else if db_schema_minor decoded \<noteq> body_SCHEMA_MINOR B
       then Inl (SchemaMinorUnsupported (body_DOMAIN B) (db_schema_minor decoded) (body_SCHEMA_MINOR B))
       else if has_unknown_fields decoded
       then Inl (TrailingBytes (clamp_u64 (length bytes - length (db_unknown_suffix decoded)))
              (clamp_u64 (length (db_unknown_suffix decoded))))
       else Inr (db_body decoded))"

section \<open>The frame is a codec\<close>

text \<open>A constant that the reader insists on, before what follows it.\<close>

lemma codec_expect:
  assumes a: "canonical_codec wa ra oka" and b: "canonical_codec wb rb okb"
  shows "canonical_codec (\<lambda>y. wthen (wa c) (wb y))
    (dbind ra (\<lambda>x. if x \<noteq> c then dcheck (Inl (e x)) else rb))
    (\<lambda>limits depth y. oka limits depth c \<and> okb limits depth y)"
proof -
  let ?w = "\<lambda>t. if t \<noteq> c then (\<lambda>_ _. Inl (e t)) else wb"
    and ?r = "\<lambda>t. if t \<noteq> c then dcheck (Inl (e t)) else rb"
    and ?adm = "\<lambda>t. if t \<noteq> c then (\<lambda>_ _ _. False) else okb"
  have branch: "canonical_codec (?w t) (?r t) (?adm t)" for t
    by (simp add: b codec_reject)
  have "canonical_codec (conv_writer (Pair c) (\<lambda>p. wthen (wa (fst p)) (?w (fst p) (snd p))))
      (conv_reader (\<lambda>p. Inr (snd p)) (dbind ra (\<lambda>t. dbind (?r t) (\<lambda>y. dreturn (t, y)))))
      (\<lambda>limits depth y. True \<and> oka limits depth (fst (c, y)) \<and> ?adm (fst (c, y)) limits depth (snd (c, y)))"
    by (rule codec_conv [OF codec_tagged [OF a branch]]) (auto split: if_splits)
  then show ?thesis
    by (simp add: codec_shapes [abs_def])
qed

definition write_header :: "frame_header writer" where
  "write_header h =
     wthen (write_raw FRAME_MAGIC) (wthen (write_scalar CODEC_MAJOR) (wthen (write_scalar (fh_codec_minor h))
       (wthen (write_domain_tag (fh_domain h)) (write_schema_id (fh_schema h)))))"

definition adm_header :: "decode_limits \<Rightarrow> u32 \<Rightarrow> frame_header \<Rightarrow> bool" where
  "adm_header limits depth h \<longleftrightarrow>
     adm_slug limits depth (fh_domain h) \<and> adm_schema_id limits depth (fh_schema h)"

lemma codec_header: "canonical_codec write_header read_header adm_header"
proof -
  let ?unmake = "\<lambda>h. (fh_codec_minor h, fh_domain h, fh_schema h)"
  have fields: "canonical_codec
      (\<lambda>h. pair_writer write_scalar (pair_writer write_domain_tag write_schema_id) (?unmake h))
      (dbind (pair_reader (read_u16 ''codec_minor'') (pair_reader read_domain_tag read_schema_id))
        (\<lambda>p. dreturn \<lparr>fh_codec_minor = fst p, fh_domain = fst (snd p), fh_schema = snd (snd p)\<rparr>))
      (\<lambda>limits depth h. True \<and> adm_slug limits depth (fst (snd (?unmake h))) \<and>
         adm_schema_id limits depth (snd (snd (?unmake h))))"
    by (rule codec_iso [OF codec_pair [OF codec_u16 codec_pair [OF codec_domain_tag codec_schema_id]]]) simp_all
  have magic: "canonical_codec write_raw (dec_take ''magic'' (length FRAME_MAGIC)) (\<lambda>_ _ bs. length bs = length FRAME_MAGIC)"
    by (rule codec_raw) (simp add: FRAME_MAGIC_def bytes_of_def)
  show ?thesis
    using codec_expect [OF magic codec_expect [OF codec_u16 fields, where c = CODEC_MAJOR
          and e = "\<lambda>m. CodecMajorUnsupported m CODEC_MAJOR"], where c = FRAME_MAGIC and e = MagicUnrecognized]
    by (simp add: codec_shapes [abs_def] write_header_def [abs_def] read_header_def adm_header_def [abs_def]
        cong: if_cong)
qed

section \<open>Decoding is the inverse of encoding\<close>

lemma clamp_position [simp]: "n < 2 ^ 64 \<Longrightarrow> unat (clamp_u64 n) = n"
  by (simp add: clamp_u64_def unsigned_of_nat take_bit_nat_eq_self)

lemma in_bounds_new [simp]: "in_bounds (decoder_new bs limits)"
  by (simp add: in_bounds_def decoder_new_def)

lemma new_simps [simp]:
  "dec_limits (decoder_new bs limits) = limits" "dec_depth (decoder_new bs limits) = 0"
  "unread (decoder_new bs limits) = bs" "dec_offset (decoder_new bs limits) = 0"
  by (simp_all add: decoder_new_def unread_def)

lemma dec_finish_iff: "dec_finish d = Inr u \<longleftrightarrow> unread d = []"
  by (simp add: dec_finish_def dec_remaining_def unread_def)

text \<open>Splitting a frame accepts exactly what the header and the payload writers produce.\<close>

lemma split_frame_iff:
  "split_frame frame limits = Inr (h, payload) \<longleftrightarrow>
     adm_header limits 0 h \<and> adm_bytes limits 0 payload \<and>
     pair_writer write_header (write_bytes ''payload'') (h, payload) [] = Inr frame"
proof -
  note codec = codec_pair [OF codec_header codec_bytes, of "''payload''" "''payload''"]
  have "split_frame frame limits = Inr (h, payload) \<longleftrightarrow>
      (\<exists>d. pair_reader read_header (read_bytes ''payload'') (decoder_new frame limits) = Inr ((h, payload), d) \<and>
         unread d = [])"
    by (auto simp: split_frame_def read_frame_header_def pair_reader_def dbind_def dreturn_def
        rbind_Inr_iff dec_finish_iff split: prod.splits)
  also have "\<dots> \<longleftrightarrow> adm_header limits 0 h \<and> adm_bytes limits 0 payload \<and>
      (\<exists>b. pair_writer write_header (write_bytes ''payload'') (h, payload) [] = Inr b \<and> prefix b frame \<and>
         drop (length b) frame = [])"
    by (auto simp: canonical_codec.reads [OF codec])
  also have "\<dots> \<longleftrightarrow> adm_header limits 0 h \<and> adm_bytes limits 0 payload \<and>
      pair_writer write_header (write_bytes ''payload'') (h, payload) [] = Inr frame"
    by (auto simp: prefix_def)
  finally show ?thesis .
qed

lemma wthen_assoc [simp]: "wthen (wthen f g) h = wthen f (wthen g h)"
  by (auto simp: wthen_def fun_eq_iff rbind_def split: sum.splits)

lemma write_frame_header:
  "write_frame cminor domain family smajor sminor payload =
     pair_writer write_header (write_bytes ''payload'')
       (\<lparr>fh_codec_minor = cminor, fh_domain = domain, fh_schema = SchemaId family smajor sminor\<rparr>, payload) []"
  by (simp add: write_frame_def write_header_def pair_writer_def)

lemma decode_body_preserving_split:
  "decode_body_preserving B bytes limits = Inr x \<longleftrightarrow>
     clamp_u64 (length bytes) \<le> lim_frame_bytes limits \<and>
     (\<exists>cminor sminor payload.
        split_frame bytes limits =
          Inr (\<lparr>fh_codec_minor = cminor, fh_domain = body_DOMAIN B,
                fh_schema = SchemaId (body_SCHEMA_FAMILY B) (body_SCHEMA_MAJOR B) sminor\<rparr>, payload) \<and>
        decode_payload B limits cminor sminor payload = Inr x)" (is "?l \<longleftrightarrow> ?r")
proof
  assume ?l
  then show ?r
    by (auto simp: decode_body_preserving_def split_frame_def rbind_Inr_iff not_less split: if_splits)
      (metis frame_header.surjective old.unit.exhaust schema_id.collapse)
next
  assume ?r
  then obtain cminor sminor payload where frame: "clamp_u64 (length bytes) \<le> lim_frame_bytes limits"
      "split_frame bytes limits =
         Inr (\<lparr>fh_codec_minor = cminor, fh_domain = body_DOMAIN B,
               fh_schema = SchemaId (body_SCHEMA_FAMILY B) (body_SCHEMA_MAJOR B) sminor\<rparr>, payload)"
      "decode_payload B limits cminor sminor payload = Inr x"
    by auto
  from frame(2) obtain d d' where
    "read_frame_header bytes limits = Inr (\<lparr>fh_codec_minor = cminor, fh_domain = body_DOMAIN B,
       fh_schema = SchemaId (body_SCHEMA_FAMILY B) (body_SCHEMA_MAJOR B) sminor\<rparr>, d)"
    "read_bytes ''payload'' d = Inr (payload, d')" "dec_finish d' = Inr ()"
    by (auto simp: split_frame_def rbind_Inr_iff)
  with frame show ?l
    by (simp add: decode_body_preserving_def not_less)
qed

text \<open>
  What the limits ask of a frame: its own length, its labels and its payload. They bound the decoder,
  not the encoder, which writes a body of any size below the width of a length field.
\<close>

definition frame_fits :: "decode_limits \<Rightarrow> 'b canonical_body \<Rightarrow> bytes \<Rightarrow> bytes \<Rightarrow> bool" where
  "frame_fits limits B payload frame \<longleftrightarrow>
     clamp_u64 (length frame) \<le> lim_frame_bytes limits \<and> adm_slug limits 0 (body_DOMAIN B) \<and>
     adm_slug limits 0 (body_SCHEMA_FAMILY B) \<and> adm_bytes limits 0 payload"

locale framed_body = payload: canonical_codec "write_payload B" "read_payload B" adm
  for B :: "'b canonical_body" and adm
begin

lemma decode_payload_iff:
  assumes "adm_bytes limits 0 payload"
  shows "decode_payload B limits cminor sminor payload = Inr x \<longleftrightarrow>
    db_codec_minor x = cminor \<and> db_schema_minor x = sminor \<and> adm limits 0 (db_body x) \<and>
    (db_unknown_suffix x \<noteq> [] \<longrightarrow> body_SCHEMA_MINOR B < sminor) \<and>
    (\<exists>b. write_payload B (db_body x) [] = Inr b \<and> payload = b @ db_unknown_suffix x)" (is "?l \<longleftrightarrow> ?r")
proof -
  have small: "unat (clamp_u64 (length b)) = length b" if "prefix b payload" for b
    using that assms by (auto simp: adm_bytes_def dest: prefix_length_le)
  show ?thesis
  proof
    assume ?l
    then show ?r
      by (auto simp: decode_payload_def rbind_Inr_iff payload.reads Let_def dec_position_def small
          split: if_splits) (auto simp: prefix_def)
  next
    assume r: ?r
    then obtain b where b: "write_payload B (db_body x) [] = Inr b" "payload = b @ db_unknown_suffix x"
      by auto
    with r have "read_payload B (decoder_new payload limits) =
        Inr (db_body x, advance_by (length b) (decoder_new payload limits))"
      by (simp add: payload.reads)
    with r b small [of b] show ?l
      by (auto simp: decode_payload_def Let_def dec_position_def)
  qed
qed

lemma decode_preserving_iff:
  "decode_body_preserving B frame limits = Inr x \<longleftrightarrow>
     adm limits 0 (db_body x) \<and> (db_unknown_suffix x \<noteq> [] \<longrightarrow> body_SCHEMA_MINOR B < db_schema_minor x) \<and>
     (\<exists>b. write_payload B (db_body x) [] = Inr b \<and> frame_fits limits B (b @ db_unknown_suffix x) frame) \<and>
     encode_preserved B x = Inr frame" (is "?l \<longleftrightarrow> ?r")
proof
  note frames = decode_body_preserving_split split_frame_iff adm_header_def adm_schema_id_def
  show ?r if ?l
    using that unfolding frames
    by (auto simp: decode_payload_iff frame_fits_def encode_preserved_def write_frame_header)
  assume ?r
  then obtain b where b: "write_payload B (db_body x) [] = Inr b"
      "frame_fits limits B (b @ db_unknown_suffix x) frame"
    by auto
  with \<open>?r\<close> show ?l
    unfolding frames
    by (intro conjI exI [of _ "db_codec_minor x"] exI [of _ "db_schema_minor x"]
        exI [of _ "b @ db_unknown_suffix x"])
      (auto simp: decode_payload_iff frame_fits_def encode_preserved_def write_frame_header)
qed

lemma decode_iff:
  "decode_body B frame limits = Inr x \<longleftrightarrow>
     adm limits 0 x \<and> (\<exists>b. canonical_body_bytes B x = Inr b \<and> frame_fits limits B b frame) \<and>
     encode_body B x = Inr frame"
proof -
  have "decode_body B frame limits = Inr x \<longleftrightarrow>
      decode_body_preserving B frame limits = Inr \<lparr>db_body = x, db_codec_minor = CODEC_MINOR,
        db_schema_minor = body_SCHEMA_MINOR B, db_unknown_suffix = []\<rparr>"
    by (cases "decode_body_preserving B frame limits")
      (auto simp: decode_body_def has_unknown_fields_def split: if_splits)
  then show ?thesis
    by (simp add: decode_preserving_iff encode_preserved_def encode_body_def canonical_body_bytes_def)
qed

text \<open>One byte string per value, and one value per byte string.\<close>

lemma decode_unique:
  "decode_body B frame limits = Inr x \<Longrightarrow> decode_body B frame' limits' = Inr x \<Longrightarrow> frame = frame'"
  by (simp add: decode_iff)

lemma encode_decode:
  assumes "adm limits 0 x" "canonical_body_bytes B x = Inr b" "encode_body B x = Inr frame"
    "frame_fits limits B b frame"
  shows "decode_body B frame limits = Inr x"
  using assms by (simp add: decode_iff)

lemma encode_total:
  assumes "adm limits 0 x"
  shows "\<exists>b. canonical_body_bytes B x = Inr b"
  using payload.writes [OF assms] by (simp add: canonical_body_bytes_def)

text \<open>A frame of a later minor is carried through unchanged.\<close>

lemma preserved: "decode_body_preserving B frame limits = Inr x \<Longrightarrow> encode_preserved B x = Inr frame"
  by (simp add: decode_preserving_iff)

end

text \<open>What a frame decodes as is named in the frame.\<close>

lemma decode_domain: "decode_body_preserving B frame limits = Inr x \<Longrightarrow> peek_frame_domain frame limits = Inr (body_DOMAIN B)"
  by (auto simp: decode_body_preserving_split split_frame_def peek_frame_domain_def)

lemma decode_body_split:
  assumes "decode_body B frame limits = Inr x"
  obtains payload where "split_frame frame limits =
    Inr (\<lparr>fh_codec_minor = CODEC_MINOR, fh_domain = body_DOMAIN B, fh_schema = body_schema_id B\<rparr>, payload)"
  using assms by (auto simp: decode_body_def decode_body_preserving_split body_schema_id_def decode_payload_def
      Let_def split: if_splits)

lemma decode_same_schema:
  assumes "decode_body B frame limits = Inr x" "decode_body C frame limits = Inr y"
  shows "body_DOMAIN B = body_DOMAIN C \<and> body_schema_id B = body_schema_id C"
  using assms by (auto elim!: decode_body_split)

end
