(* ===== verification/Codec_Schemas.thy ===== *)
theory Codec_Schemas
  imports Codec_Fields Codec_Frame
begin

text \<open>
  The bodies of \<open>schema.rs\<close>: transaction seals, commit records, decisions, decision batches, authority
  heads, refusal records and the repository configuration carriers. Each is a record with its payload
  writer and reader, the codec law, and an interpretation of the frame contract. Digests of the body
  fields and the identities are those of the types layer; layouts are those of \<open>layout.rs\<close>.
\<close>

section \<open>Layouts and vocabulary code points\<close>

datatype root_layout_version = LegacyWholeBody | RefStateMerkleV1 | RefStateAndObjectClosureMerkleV1

definition layout_ALL :: "root_layout_version list" where
  "layout_ALL = [LegacyWholeBody, RefStateMerkleV1, RefStateAndObjectClosureMerkleV1]"

fun layout_code_point :: "root_layout_version \<Rightarrow> u16" where
  "layout_code_point LegacyWholeBody = 0"
| "layout_code_point RefStateMerkleV1 = 1"
| "layout_code_point RefStateAndObjectClosureMerkleV1 = 2"

definition layout_from_code_point :: "u16 \<Rightarrow> type_refusal + root_layout_version" where
  "layout_from_code_point = find_code_point ''RootLayoutVersion'' layout_code_point layout_ALL"

fun admits_ref_state_membership_proof :: "root_layout_version \<Rightarrow> bool" where
  "admits_ref_state_membership_proof LegacyWholeBody = False"
| "admits_ref_state_membership_proof RefStateMerkleV1 = True"
| "admits_ref_state_membership_proof RefStateAndObjectClosureMerkleV1 = True"

fun admits_object_closure_membership_proof :: "root_layout_version \<Rightarrow> bool" where
  "admits_object_closure_membership_proof LegacyWholeBody = False"
| "admits_object_closure_membership_proof RefStateMerkleV1 = False"
| "admits_object_closure_membership_proof RefStateAndObjectClosureMerkleV1 = True"

interpretation layout: code_table layout_code_point layout_ALL
proof
  show "code \<in> set layout_ALL" for code
    by (cases code) (simp_all add: layout_ALL_def)
qed (simp add: layout_ALL_def)

definition write_root_layout :: "root_layout_version writer" where
  "write_root_layout v = write_scalar (layout_code_point v)"

definition read_root_layout :: "string \<Rightarrow> root_layout_version reader" where
  "read_root_layout field =
     dbind (read_u16 field) (\<lambda>cp. dcheck (map_err Codec_Type (layout_from_code_point cp)))"

lemma codec_root_layout: "canonical_codec write_root_layout (read_root_layout field) (\<lambda>_ _ _. True)"
  unfolding write_root_layout_def [abs_def] read_root_layout_def layout_from_code_point_def
  by (rule layout.codec)

definition write_object_format :: "git_hash_algorithm writer" where
  "write_object_format v = write_scalar (hash_code_point v)"

definition read_object_format :: "string \<Rightarrow> git_hash_algorithm reader" where
  "read_object_format field =
     dbind (read_u16 field) (\<lambda>cp. dcheck (map_err Codec_Type (hash_from_code_point cp)))"

lemma codec_object_format: "canonical_codec write_object_format (read_object_format field) (\<lambda>_ _ _. True)"
  unfolding write_object_format_def [abs_def] read_object_format_def hash_from_code_point_def
  by (rule hash.codec)

definition write_refusal_code :: "refusal_code writer" where
  "write_refusal_code v = write_scalar (refusal_code_point v)"

definition read_refusal_code :: "string \<Rightarrow> refusal_code reader" where
  "read_refusal_code field =
     dbind (read_u16 field) (\<lambda>cp. dcheck (map_err Codec_Type (refusal_from_code_point cp)))"

lemma codec_refusal_code: "canonical_codec write_refusal_code (read_refusal_code field) (\<lambda>_ _ _. True)"
  unfolding write_refusal_code_def [abs_def] read_refusal_code_def refusal_from_code_point_def
  by (rule refusal.codec)

declare
  codec_root_layout [THEN codec_record, codec_first] codec_root_layout [THEN partial_field, codec_field]
  codec_object_format [THEN partial_field, codec_field] codec_refusal_code [THEN partial_field, codec_field]
  codec_refusal_code [THEN codec_record, codec_first]
  codec_bytes [THEN codec_sequence, THEN partial_last, codec_last]

datatype (plugins only: code) incarnation_tag = Incarnation_Tag
datatype (plugins only: code) repository_capsule_tag = Repository_Capsule_Tag

type_synonym repository_incarnation_id = "incarnation_tag opaque_id"
type_synonym repository_capsule_id = "repository_capsule_tag derived_id"

text \<open>A label written in the source.\<close>

abbreviation slug :: "string \<Rightarrow> ascii_slug" where
  "slug s \<equiv> AsciiSlug (bytes_of s)"

section \<open>Transaction seals\<close>

record transaction_seal_body =
  ts_tx_id :: tx_id
  ts_tenant_id :: tenant_id
  ts_repository_id :: repository_id
  ts_principal_id :: principal_id
  ts_idempotency_key_digest :: digest
  ts_canonical_request_digest :: digest
  ts_request_schema :: schema_id

definition write_transaction_seal_body :: "transaction_seal_body writer" where
  "write_transaction_seal_body x =
     wthen (write_derived (ts_tx_id x))
     (wthen (write_opaque_id (ts_tenant_id x))
     (wthen (write_opaque_id (ts_repository_id x))
     (wthen (write_opaque_id (ts_principal_id x))
     (wthen (write_digest (ts_idempotency_key_digest x))
     (wthen (write_digest (ts_canonical_request_digest x))
     (write_schema_id (ts_request_schema x)))))))"

definition read_transaction_seal_body :: "transaction_seal_body reader" where
  "read_transaction_seal_body =
     dbind (read_derived ''TxId'' ''frankengit/ref-txn/v2'') (\<lambda>tx_id.
     dbind (read_opaque_id ''tenant_id'') (\<lambda>tenant_id.
     dbind (read_opaque_id ''repository_id'') (\<lambda>repository_id.
     dbind (read_opaque_id ''authenticated_principal_id'') (\<lambda>principal_id.
     dbind read_digest (\<lambda>idempotency_key_digest.
     dbind read_digest (\<lambda>canonical_request_digest.
     dbind read_schema_id (\<lambda>request_schema.
     dreturn \<lparr>ts_tx_id = tx_id, ts_tenant_id = tenant_id, ts_repository_id = repository_id, ts_principal_id = principal_id, ts_idempotency_key_digest = idempotency_key_digest, ts_canonical_request_digest = canonical_request_digest, ts_request_schema = request_schema\<rparr>)))))))"

definition adm_transaction_seal_body :: "decode_limits \<Rightarrow> u32 \<Rightarrow> transaction_seal_body \<Rightarrow> bool" where
  "adm_transaction_seal_body limits depth x \<longleftrightarrow>
     adm_derived ''frankengit/ref-txn/v2'' limits depth (ts_tx_id x) \<and>
     adm_opaque_id limits depth (ts_tenant_id x) \<and>
     adm_opaque_id limits depth (ts_repository_id x) \<and>
     adm_opaque_id limits depth (ts_principal_id x) \<and>
     adm_digest limits depth (ts_idempotency_key_digest x) \<and>
     adm_digest limits depth (ts_canonical_request_digest x) \<and>
     adm_schema_id limits depth (ts_request_schema x)"

definition transaction_seal_body_schema :: "transaction_seal_body canonical_body" where
  "transaction_seal_body_schema =
     \<lparr>body_DOMAIN = slug ''frankengit/txn-seal/v1'', body_SCHEMA_FAMILY = slug ''txn-seal'',
      body_SCHEMA_MAJOR = 1, body_SCHEMA_MINOR = 0,
      write_payload = write_transaction_seal_body, read_payload = read_transaction_seal_body\<rparr>"

lemma codec_transaction_seal_body: "canonical_codec write_transaction_seal_body read_transaction_seal_body adm_transaction_seal_body"
  unfolding write_transaction_seal_body_def [abs_def] read_transaction_seal_body_def adm_transaction_seal_body_def [abs_def]
  by (rule codec_first, (rule codec_field)+, rule codec_last, auto)

interpretation seal_body: framed_body transaction_seal_body_schema adm_transaction_seal_body
  by (simp add: framed_body_def transaction_seal_body_schema_def codec_transaction_seal_body)

section \<open>Commit records\<close>

record commit_record_body =
  rc_repository_id :: repository_id
  rc_repository_sequence :: repository_sequence
  rc_parent_rcr_id :: "repository_commit_id option"
  rc_tx_id :: tx_id
  rc_principal_snapshot_id :: principal_snapshot_id
  rc_canonical_request_digest :: digest
  rc_ref_delta_root :: digest
  rc_resulting_ref_root :: digest
  rc_object_closure_root :: digest
  rc_forge_event_batch_root :: digest
  rc_resulting_forge_position_root :: digest
  rc_policy_epoch :: policy_epoch
  rc_policy_decision_root :: digest
  rc_invariant_evidence_root :: digest
  rc_outbox_effect_root :: digest
  rc_retention_delta_root :: digest

definition write_commit_record_body :: "commit_record_body writer" where
  "write_commit_record_body x =
     wthen (write_opaque_id (rc_repository_id x))
     (wthen (write_counter (rc_repository_sequence x))
     (wthen (write_option write_derived (rc_parent_rcr_id x))
     (wthen (write_derived (rc_tx_id x))
     (wthen (write_derived (rc_principal_snapshot_id x))
     (wthen (write_digest (rc_canonical_request_digest x))
     (wthen (write_digest (rc_ref_delta_root x))
     (wthen (write_digest (rc_resulting_ref_root x))
     (wthen (write_digest (rc_object_closure_root x))
     (wthen (write_digest (rc_forge_event_batch_root x))
     (wthen (write_digest (rc_resulting_forge_position_root x))
     (wthen (write_counter (rc_policy_epoch x))
     (wthen (write_digest (rc_policy_decision_root x))
     (wthen (write_digest (rc_invariant_evidence_root x))
     (wthen (write_digest (rc_outbox_effect_root x))
     (write_digest (rc_retention_delta_root x))))))))))))))))"

definition read_commit_record_body :: "commit_record_body reader" where
  "read_commit_record_body =
     dbind (read_opaque_id ''repository_id'') (\<lambda>repository_id.
     dbind (read_counter ''RepositorySequence'' ''repository_sequence'') (\<lambda>repository_sequence.
     dbind (read_option ''parent_rcr_id'' (read_derived ''RepositoryCommitId'' ''frankengit/rcr/v1'')) (\<lambda>parent_rcr_id.
     dbind (read_derived ''TxId'' ''frankengit/ref-txn/v2'') (\<lambda>tx_id.
     dbind (read_derived ''PrincipalSnapshotId'' ''frankengit/principal-snapshot/v1'') (\<lambda>principal_snapshot_id.
     dbind read_digest (\<lambda>canonical_request_digest.
     dbind read_digest (\<lambda>ref_delta_root.
     dbind read_digest (\<lambda>resulting_ref_root.
     dbind read_digest (\<lambda>object_closure_root.
     dbind read_digest (\<lambda>forge_event_batch_root.
     dbind read_digest (\<lambda>resulting_forge_position_root.
     dbind (read_counter ''PolicyEpoch'' ''policy_epoch'') (\<lambda>policy_epoch.
     dbind read_digest (\<lambda>policy_decision_root.
     dbind read_digest (\<lambda>invariant_evidence_root.
     dbind read_digest (\<lambda>outbox_effect_root.
     dbind read_digest (\<lambda>retention_delta_root.
     dreturn \<lparr>rc_repository_id = repository_id, rc_repository_sequence = repository_sequence, rc_parent_rcr_id = parent_rcr_id, rc_tx_id = tx_id, rc_principal_snapshot_id = principal_snapshot_id, rc_canonical_request_digest = canonical_request_digest, rc_ref_delta_root = ref_delta_root, rc_resulting_ref_root = resulting_ref_root, rc_object_closure_root = object_closure_root, rc_forge_event_batch_root = forge_event_batch_root, rc_resulting_forge_position_root = resulting_forge_position_root, rc_policy_epoch = policy_epoch, rc_policy_decision_root = policy_decision_root, rc_invariant_evidence_root = invariant_evidence_root, rc_outbox_effect_root = outbox_effect_root, rc_retention_delta_root = retention_delta_root\<rparr>))))))))))))))))"

definition adm_commit_record_body :: "decode_limits \<Rightarrow> u32 \<Rightarrow> commit_record_body \<Rightarrow> bool" where
  "adm_commit_record_body limits depth x \<longleftrightarrow>
     adm_opaque_id limits depth (rc_repository_id x) \<and>
     adm_counter limits depth (rc_repository_sequence x) \<and>
     adm_option (adm_derived ''frankengit/rcr/v1'') limits depth (rc_parent_rcr_id x) \<and>
     adm_derived ''frankengit/ref-txn/v2'' limits depth (rc_tx_id x) \<and>
     adm_derived ''frankengit/principal-snapshot/v1'' limits depth (rc_principal_snapshot_id x) \<and>
     adm_digest limits depth (rc_canonical_request_digest x) \<and>
     adm_digest limits depth (rc_ref_delta_root x) \<and>
     adm_digest limits depth (rc_resulting_ref_root x) \<and>
     adm_digest limits depth (rc_object_closure_root x) \<and>
     adm_digest limits depth (rc_forge_event_batch_root x) \<and>
     adm_digest limits depth (rc_resulting_forge_position_root x) \<and>
     adm_counter limits depth (rc_policy_epoch x) \<and>
     adm_digest limits depth (rc_policy_decision_root x) \<and>
     adm_digest limits depth (rc_invariant_evidence_root x) \<and>
     adm_digest limits depth (rc_outbox_effect_root x) \<and>
     adm_digest limits depth (rc_retention_delta_root x)"

definition commit_record_body_schema :: "commit_record_body canonical_body" where
  "commit_record_body_schema =
     \<lparr>body_DOMAIN = slug ''frankengit/rcr/v1'', body_SCHEMA_FAMILY = slug ''rcr'',
      body_SCHEMA_MAJOR = 1, body_SCHEMA_MINOR = 0,
      write_payload = write_commit_record_body, read_payload = read_commit_record_body\<rparr>"

lemma codec_commit_record_body: "canonical_codec write_commit_record_body read_commit_record_body adm_commit_record_body"
  unfolding write_commit_record_body_def [abs_def] read_commit_record_body_def adm_commit_record_body_def [abs_def]
  by (rule codec_first, (rule codec_field)+, rule codec_last, auto)

interpretation commit_body: framed_body commit_record_body_schema adm_commit_record_body
  by (simp add: framed_body_def commit_record_body_schema_def codec_commit_record_body)

section \<open>Decisions\<close>

text \<open>
  The two forms of an outcome, told apart by a discriminant byte. \<open>refused_parts\<close> is the pair a refusal
  writes.
\<close>

record refused_parts =
  rp_code :: refusal_code
  rp_record :: refusal_record_id

definition write_refused_parts :: "refused_parts writer" where
  "write_refused_parts x = wthen (write_refusal_code (rp_code x)) (write_derived (rp_record x))"

definition read_refused_parts :: "refused_parts reader" where
  "read_refused_parts =
     dbind (read_refusal_code ''refusal_code'') (\<lambda>code.
     dbind (read_derived ''RefusalRecordId'' ''frankengit/refusal-record/v1'') (\<lambda>rec.
     dreturn \<lparr>rp_code = code, rp_record = rec\<rparr>))"

definition write_outcome :: "decision_outcome writer" where
  "write_outcome v =
     wthen (write_raw_byte (outcome_discriminant v))
       (case v of
          Committed commit_id \<Rightarrow> write_derived commit_id
        | Refused code record_id \<Rightarrow> write_refused_parts \<lparr>rp_code = code, rp_record = record_id\<rparr>)"

definition read_outcome :: "decision_outcome reader" where
  "read_outcome d =
     dbind (read_raw_byte ''outcome'') (\<lambda>discriminant.
       if discriminant = 1
       then dbind (read_derived ''RepositoryCommitId'' ''frankengit/rcr/v1'') (\<lambda>commit_id. dreturn (Committed commit_id))
       else if discriminant = 2
       then dbind read_refused_parts (\<lambda>parts. dreturn (Refused (rp_code parts) (rp_record parts)))
       else dcheck (Inl (VariantUnknown ''DecisionOutcome'' (ucast discriminant) (dec_position d)))) d"

definition adm_outcome :: "decode_limits \<Rightarrow> u32 \<Rightarrow> decision_outcome \<Rightarrow> bool" where
  "adm_outcome limits depth v \<longleftrightarrow>
     (case v of
        Committed commit_id \<Rightarrow> adm_derived ''frankengit/rcr/v1'' limits depth commit_id
      | Refused code record_id \<Rightarrow> adm_derived ''frankengit/refusal-record/v1'' limits depth record_id)"

lemma codec_refused_parts: "canonical_codec write_refused_parts read_refused_parts
    (\<lambda>limits depth x. True \<and> adm_derived ''frankengit/refusal-record/v1'' limits depth (rp_record x))"
  unfolding write_refused_parts_def [abs_def] read_refused_parts_def
  by (rule codec_first, rule codec_last, auto)

lemma codec_outcome: "canonical_codec write_outcome read_outcome adm_outcome"
proof -
  let ?committed = "\<lambda>v. case v of Committed i \<Rightarrow> Some i | _ \<Rightarrow> None"
  let ?refused = "\<lambda>v. case v of Refused c i \<Rightarrow> Some \<lparr>rp_code = c, rp_record = i\<rparr> | _ \<Rightarrow> None"
  let ?refuse = "\<lambda>x :: refused_parts. Refused (rp_code x) (rp_record x)"
  let ?w = "\<lambda>t :: u8. if t = 1 then (\<lambda>v. case ?committed v of Some x \<Rightarrow> write_derived x | None \<Rightarrow> \<lambda>_. Inl undefined)
    else if t = 2 then (\<lambda>v. case ?refused v of Some x \<Rightarrow> write_refused_parts x | None \<Rightarrow> \<lambda>_. Inl undefined)
    else (\<lambda>_ _. Inl undefined)"
  let ?r = "\<lambda>p (t :: u8). if t = 1
      then dbind (read_derived ''RepositoryCommitId'' ''frankengit/rcr/v1'') (\<lambda>x. dreturn (Committed x))
    else if t = 2 then dbind read_refused_parts (\<lambda>x. dreturn (?refuse x))
    else dcheck (Inl (VariantUnknown ''DecisionOutcome'' (ucast t) p))"
  let ?adm = "\<lambda>t :: u8. if t = 1
      then (\<lambda>limits depth v. \<exists>x. v = Committed x \<and> adm_derived ''frankengit/rcr/v1'' limits depth x)
    else if t = 2 then (\<lambda>limits depth v. \<exists>x. v = ?refuse x \<and>
      True \<and> adm_derived ''frankengit/refusal-record/v1'' limits depth (rp_record x))
    else (\<lambda>_ _ _. False)"
  have committed: "canonical_codec (?w 1) (?r p 1) (?adm 1)" for p
    by (simp, rule codec_constructor [OF codec_derived]) (simp split: decision_outcome.splits)
  have refused: "canonical_codec (?w 2) (?r p 2) (?adm 2)" for p
    using codec_constructor [OF codec_refused_parts, of ?refused ?refuse undefined]
    by (force split: decision_outcome.splits)
  have branch: "canonical_codec (?w t) (?r p t) (?adm t)" for p t
    using committed [of p] refused [of p] by (simp add: codec_reject)
  have "canonical_codec (\<lambda>v. wthen (write_raw_byte (outcome_discriminant v)) (?w (outcome_discriminant v) v))
      (\<lambda>d. dbind (read_raw_byte ''outcome'') (?r (dec_position d)) d)
      (\<lambda>limits depth v. True \<and> ?adm (outcome_discriminant v) limits depth v)"
    by (rule codec_at, rule codec_variants [OF codec_raw_byte branch]) (auto split: if_splits)
  moreover have "?w (outcome_discriminant v) v = (case v of Committed i \<Rightarrow> write_derived i
      | Refused c i \<Rightarrow> write_refused_parts \<lparr>rp_code = c, rp_record = i\<rparr>)" for v
    by (cases v) simp_all
  moreover have "(True \<and> ?adm (outcome_discriminant v) limits depth v) \<longleftrightarrow> adm_outcome limits depth v" for limits depth v
    by (cases v) (auto simp: adm_outcome_def intro: exI [of _ "\<lparr>rp_code = _, rp_record = _\<rparr>"])
  ultimately show ?thesis
    by (simp add: write_outcome_def [abs_def] read_outcome_def [abs_def])
qed

declare codec_outcome [THEN partial_last, codec_last]

record repository_decision =
  rd_tx_id :: tx_id
  rd_decision_sequence :: decision_sequence
  rd_outcome :: decision_outcome

definition write_repository_decision :: "repository_decision writer" where
  "write_repository_decision x =
     wthen (write_derived (rd_tx_id x))
     (wthen (write_counter (rd_decision_sequence x))
     (write_outcome (rd_outcome x)))"

definition read_repository_decision :: "repository_decision reader" where
  "read_repository_decision =
     dbind (read_derived ''TxId'' ''frankengit/ref-txn/v2'') (\<lambda>tx_id.
     dbind (read_counter ''DecisionSequence'' ''decision_sequence'') (\<lambda>decision_sequence.
     dbind read_outcome (\<lambda>outcome.
     dreturn \<lparr>rd_tx_id = tx_id, rd_decision_sequence = decision_sequence, rd_outcome = outcome\<rparr>)))"

definition adm_repository_decision :: "decode_limits \<Rightarrow> u32 \<Rightarrow> repository_decision \<Rightarrow> bool" where
  "adm_repository_decision limits depth x \<longleftrightarrow>
     adm_derived ''frankengit/ref-txn/v2'' limits depth (rd_tx_id x) \<and>
     adm_counter limits depth (rd_decision_sequence x) \<and>
     adm_outcome limits depth (rd_outcome x)"

lemma codec_repository_decision: "canonical_codec write_repository_decision read_repository_decision adm_repository_decision"
  unfolding write_repository_decision_def [abs_def] read_repository_decision_def adm_repository_decision_def [abs_def]
  by (rule codec_first, (rule codec_field)+, rule codec_last, auto)

declare codec_repository_decision [THEN codec_sequence, THEN partial_field, codec_field]
  codec_commit_record_body [THEN codec_sequence, THEN partial_field, codec_field]

section \<open>Decision batches\<close>

record decision_batch_body =
  bb_repository_id :: repository_id
  bb_predecessor_head_id :: repository_authority_head_id
  bb_predecessor_head_generation :: head_generation
  bb_first_decision_sequence :: decision_sequence
  bb_decisions :: "repository_decision list"
  bb_committed_rcrs :: "commit_record_body list"
  bb_resulting_ref_root :: digest
  bb_resulting_forge_position_root :: digest
  bb_resulting_outcome_index_root :: digest
  bb_resulting_retention_root :: digest
  bb_resulting_outbox_root :: digest
  bb_resulting_policy_epoch :: policy_epoch
  bb_batch_evidence_root :: digest
  bb_compaction_generation_link :: "digest option"

definition write_decision_batch_body :: "decision_batch_body writer" where
  "write_decision_batch_body x =
     wthen (write_opaque_id (bb_repository_id x))
     (wthen (write_derived (bb_predecessor_head_id x))
     (wthen (write_counter (bb_predecessor_head_generation x))
     (wthen (write_counter (bb_first_decision_sequence x))
     (wthen (write_sequence ''decisions'' write_repository_decision (bb_decisions x))
     (wthen (write_sequence ''committed_rcrs'' write_commit_record_body (bb_committed_rcrs x))
     (wthen (write_digest (bb_resulting_ref_root x))
     (wthen (write_digest (bb_resulting_forge_position_root x))
     (wthen (write_digest (bb_resulting_outcome_index_root x))
     (wthen (write_digest (bb_resulting_retention_root x))
     (wthen (write_digest (bb_resulting_outbox_root x))
     (wthen (write_counter (bb_resulting_policy_epoch x))
     (wthen (write_digest (bb_batch_evidence_root x))
     (write_option write_digest (bb_compaction_generation_link x))))))))))))))"

definition read_decision_batch_body :: "decision_batch_body reader" where
  "read_decision_batch_body =
     dbind (read_opaque_id ''repository_id'') (\<lambda>repository_id.
     dbind (read_derived ''RepositoryAuthorityHeadId'' ''frankengit/authority-head/v1'') (\<lambda>predecessor_head_id.
     dbind (read_counter ''HeadGeneration'' ''predecessor_head_generation'') (\<lambda>predecessor_head_generation.
     dbind (read_counter ''DecisionSequence'' ''first_decision_sequence'') (\<lambda>first_decision_sequence.
     dbind (read_sequence ''decisions'' read_repository_decision) (\<lambda>decisions.
     dbind (read_sequence ''committed_rcrs'' read_commit_record_body) (\<lambda>committed_rcrs.
     dbind read_digest (\<lambda>resulting_ref_root.
     dbind read_digest (\<lambda>resulting_forge_position_root.
     dbind read_digest (\<lambda>resulting_outcome_index_root.
     dbind read_digest (\<lambda>resulting_retention_root.
     dbind read_digest (\<lambda>resulting_outbox_root.
     dbind (read_counter ''PolicyEpoch'' ''resulting_policy_epoch'') (\<lambda>resulting_policy_epoch.
     dbind read_digest (\<lambda>batch_evidence_root.
     dbind (read_option ''compaction_generation_link'' read_digest) (\<lambda>compaction_generation_link.
     dreturn \<lparr>bb_repository_id = repository_id, bb_predecessor_head_id = predecessor_head_id, bb_predecessor_head_generation = predecessor_head_generation, bb_first_decision_sequence = first_decision_sequence, bb_decisions = decisions, bb_committed_rcrs = committed_rcrs, bb_resulting_ref_root = resulting_ref_root, bb_resulting_forge_position_root = resulting_forge_position_root, bb_resulting_outcome_index_root = resulting_outcome_index_root, bb_resulting_retention_root = resulting_retention_root, bb_resulting_outbox_root = resulting_outbox_root, bb_resulting_policy_epoch = resulting_policy_epoch, bb_batch_evidence_root = batch_evidence_root, bb_compaction_generation_link = compaction_generation_link\<rparr>))))))))))))))"

definition adm_decision_batch_body :: "decode_limits \<Rightarrow> u32 \<Rightarrow> decision_batch_body \<Rightarrow> bool" where
  "adm_decision_batch_body limits depth x \<longleftrightarrow>
     adm_opaque_id limits depth (bb_repository_id x) \<and>
     adm_derived ''frankengit/authority-head/v1'' limits depth (bb_predecessor_head_id x) \<and>
     adm_counter limits depth (bb_predecessor_head_generation x) \<and>
     adm_counter limits depth (bb_first_decision_sequence x) \<and>
     adm_sequence adm_repository_decision limits depth (bb_decisions x) \<and>
     adm_sequence adm_commit_record_body limits depth (bb_committed_rcrs x) \<and>
     adm_digest limits depth (bb_resulting_ref_root x) \<and>
     adm_digest limits depth (bb_resulting_forge_position_root x) \<and>
     adm_digest limits depth (bb_resulting_outcome_index_root x) \<and>
     adm_digest limits depth (bb_resulting_retention_root x) \<and>
     adm_digest limits depth (bb_resulting_outbox_root x) \<and>
     adm_counter limits depth (bb_resulting_policy_epoch x) \<and>
     adm_digest limits depth (bb_batch_evidence_root x) \<and>
     adm_option adm_digest limits depth (bb_compaction_generation_link x)"

definition decision_batch_body_schema :: "decision_batch_body canonical_body" where
  "decision_batch_body_schema =
     \<lparr>body_DOMAIN = slug ''frankengit/decision-batch/v1'', body_SCHEMA_FAMILY = slug ''decision-batch'',
      body_SCHEMA_MAJOR = 1, body_SCHEMA_MINOR = 1,
      write_payload = write_decision_batch_body, read_payload = read_decision_batch_body\<rparr>"

lemma codec_decision_batch_body: "canonical_codec write_decision_batch_body read_decision_batch_body adm_decision_batch_body"
  unfolding write_decision_batch_body_def [abs_def] read_decision_batch_body_def adm_decision_batch_body_def [abs_def]
  by (rule codec_first, (rule codec_field)+, rule codec_last, auto)

interpretation batch_body: framed_body decision_batch_body_schema adm_decision_batch_body
  by (simp add: framed_body_def decision_batch_body_schema_def codec_decision_batch_body)

section \<open>Authority heads\<close>

record repository_authority_head_body =
  ah_repository_id :: repository_id
  ah_generation :: head_generation
  ah_predecessor_head_id :: "repository_authority_head_id option"
  ah_decision_tail_id :: "repository_decision_batch_id option"
  ah_latest_decision_sequence :: "decision_sequence option"
  ah_latest_committed_rcr_id :: "repository_commit_id option"
  ah_latest_repository_sequence :: "repository_sequence option"
  ah_ref_root :: digest
  ah_forge_position_root :: digest
  ah_outcome_index_root :: digest
  ah_retention_root :: digest
  ah_outbox_root :: digest
  ah_configuration_root :: digest
  ah_policy_epoch :: policy_epoch
  ah_format_registry_epoch :: registry_epoch
  ah_last_checkpoint_id :: "repository_capsule_id option"

definition write_repository_authority_head_body :: "repository_authority_head_body writer" where
  "write_repository_authority_head_body x =
     wthen (write_opaque_id (ah_repository_id x))
     (wthen (write_counter (ah_generation x))
     (wthen (write_option write_derived (ah_predecessor_head_id x))
     (wthen (write_option write_derived (ah_decision_tail_id x))
     (wthen (write_option write_counter (ah_latest_decision_sequence x))
     (wthen (write_option write_derived (ah_latest_committed_rcr_id x))
     (wthen (write_option write_counter (ah_latest_repository_sequence x))
     (wthen (write_digest (ah_ref_root x))
     (wthen (write_digest (ah_forge_position_root x))
     (wthen (write_digest (ah_outcome_index_root x))
     (wthen (write_digest (ah_retention_root x))
     (wthen (write_digest (ah_outbox_root x))
     (wthen (write_digest (ah_configuration_root x))
     (wthen (write_counter (ah_policy_epoch x))
     (wthen (write_counter (ah_format_registry_epoch x))
     (write_option write_derived (ah_last_checkpoint_id x))))))))))))))))"

definition read_repository_authority_head_body :: "repository_authority_head_body reader" where
  "read_repository_authority_head_body =
     dbind (read_opaque_id ''repository_id'') (\<lambda>repository_id.
     dbind (read_counter ''HeadGeneration'' ''generation'') (\<lambda>generation.
     dbind (read_option ''predecessor_head_id'' (read_derived ''RepositoryAuthorityHeadId'' ''frankengit/authority-head/v1'')) (\<lambda>predecessor_head_id.
     dbind (read_option ''decision_tail_id'' (read_derived ''RepositoryDecisionBatchId'' ''frankengit/decision-batch/v1'')) (\<lambda>decision_tail_id.
     dbind (read_option ''latest_decision_sequence'' (read_counter ''DecisionSequence'' ''latest_decision_sequence'')) (\<lambda>latest_decision_sequence.
     dbind (read_option ''latest_committed_rcr_id'' (read_derived ''RepositoryCommitId'' ''frankengit/rcr/v1'')) (\<lambda>latest_committed_rcr_id.
     dbind (read_option ''latest_repository_sequence'' (read_counter ''RepositorySequence'' ''latest_repository_sequence'')) (\<lambda>latest_repository_sequence.
     dbind read_digest (\<lambda>ref_root.
     dbind read_digest (\<lambda>forge_position_root.
     dbind read_digest (\<lambda>outcome_index_root.
     dbind read_digest (\<lambda>retention_root.
     dbind read_digest (\<lambda>outbox_root.
     dbind read_digest (\<lambda>configuration_root.
     dbind (read_counter ''PolicyEpoch'' ''policy_epoch'') (\<lambda>policy_epoch.
     dbind (read_counter ''RegistryEpoch'' ''format_registry_epoch'') (\<lambda>format_registry_epoch.
     dbind (read_option ''last_checkpoint_id'' (read_derived ''RepositoryCapsuleId'' ''frankengit/repository-capsule/v1'')) (\<lambda>last_checkpoint_id.
     dreturn \<lparr>ah_repository_id = repository_id, ah_generation = generation, ah_predecessor_head_id = predecessor_head_id, ah_decision_tail_id = decision_tail_id, ah_latest_decision_sequence = latest_decision_sequence, ah_latest_committed_rcr_id = latest_committed_rcr_id, ah_latest_repository_sequence = latest_repository_sequence, ah_ref_root = ref_root, ah_forge_position_root = forge_position_root, ah_outcome_index_root = outcome_index_root, ah_retention_root = retention_root, ah_outbox_root = outbox_root, ah_configuration_root = configuration_root, ah_policy_epoch = policy_epoch, ah_format_registry_epoch = format_registry_epoch, ah_last_checkpoint_id = last_checkpoint_id\<rparr>))))))))))))))))"

definition adm_repository_authority_head_body :: "decode_limits \<Rightarrow> u32 \<Rightarrow> repository_authority_head_body \<Rightarrow> bool" where
  "adm_repository_authority_head_body limits depth x \<longleftrightarrow>
     adm_opaque_id limits depth (ah_repository_id x) \<and>
     adm_counter limits depth (ah_generation x) \<and>
     adm_option (adm_derived ''frankengit/authority-head/v1'') limits depth (ah_predecessor_head_id x) \<and>
     adm_option (adm_derived ''frankengit/decision-batch/v1'') limits depth (ah_decision_tail_id x) \<and>
     adm_option adm_counter limits depth (ah_latest_decision_sequence x) \<and>
     adm_option (adm_derived ''frankengit/rcr/v1'') limits depth (ah_latest_committed_rcr_id x) \<and>
     adm_option adm_counter limits depth (ah_latest_repository_sequence x) \<and>
     adm_digest limits depth (ah_ref_root x) \<and>
     adm_digest limits depth (ah_forge_position_root x) \<and>
     adm_digest limits depth (ah_outcome_index_root x) \<and>
     adm_digest limits depth (ah_retention_root x) \<and>
     adm_digest limits depth (ah_outbox_root x) \<and>
     adm_digest limits depth (ah_configuration_root x) \<and>
     adm_counter limits depth (ah_policy_epoch x) \<and>
     adm_counter limits depth (ah_format_registry_epoch x) \<and>
     adm_option (adm_derived ''frankengit/repository-capsule/v1'') limits depth (ah_last_checkpoint_id x)"

definition repository_authority_head_body_schema :: "repository_authority_head_body canonical_body" where
  "repository_authority_head_body_schema =
     \<lparr>body_DOMAIN = slug ''frankengit/authority-head/v1'', body_SCHEMA_FAMILY = slug ''authority-head'',
      body_SCHEMA_MAJOR = 1, body_SCHEMA_MINOR = 0,
      write_payload = write_repository_authority_head_body, read_payload = read_repository_authority_head_body\<rparr>"

lemma codec_repository_authority_head_body: "canonical_codec write_repository_authority_head_body read_repository_authority_head_body adm_repository_authority_head_body"
  unfolding write_repository_authority_head_body_def [abs_def] read_repository_authority_head_body_def adm_repository_authority_head_body_def [abs_def]
  by (rule codec_first, (rule codec_field)+, rule codec_last, auto)

interpretation head_body: framed_body repository_authority_head_body_schema adm_repository_authority_head_body
  by (simp add: framed_body_def repository_authority_head_body_schema_def codec_repository_authority_head_body)

section \<open>Refusal records\<close>

definition MAX_REFUSAL_DETAIL_LEN :: nat where
  "MAX_REFUSAL_DETAIL_LEN = 4096"

definition read_refusal_detail :: "bytes reader" where
  "read_refusal_detail =
     dbind (read_text ''RefusalRecordBody.detail'') (\<lambda>detail.
       dcheck (if MAX_REFUSAL_DETAIL_LEN < length detail
               then Inl (LengthBoundExceeded ''RefusalRecordBody.detail'' (clamp_u64 (length detail))
                      (clamp_u64 MAX_REFUSAL_DETAIL_LEN))
               else Inr detail))"

definition adm_refusal_detail :: "decode_limits \<Rightarrow> u32 \<Rightarrow> bytes \<Rightarrow> bool" where
  "adm_refusal_detail limits depth bs \<longleftrightarrow>
     length bs \<le> MAX_REFUSAL_DETAIL_LEN \<and> utf8_valid bs \<and> adm_bytes limits depth bs"

lemma codec_refusal_detail:
  "canonical_codec (write_text ''RefusalRecordBody.detail'') read_refusal_detail adm_refusal_detail"
proof -
  have "canonical_codec (conv_writer (\<lambda>bs. bs) (write_text ''RefusalRecordBody.detail''))
      (conv_reader (\<lambda>detail. if MAX_REFUSAL_DETAIL_LEN < length detail
               then Inl (LengthBoundExceeded ''RefusalRecordBody.detail'' (clamp_u64 (length detail))
                      (clamp_u64 MAX_REFUSAL_DETAIL_LEN))
               else Inr detail) (read_text ''RefusalRecordBody.detail''))
      (\<lambda>limits depth bs. length bs \<le> MAX_REFUSAL_DETAIL_LEN \<and> utf8_valid bs \<and> adm_bytes limits depth bs)"
    by (rule codec_conv [OF codec_text]) auto
  then show ?thesis
    by (simp add: codec_shapes [abs_def] read_refusal_detail_def adm_refusal_detail_def [abs_def])
qed

declare codec_refusal_detail [THEN partial_field, codec_field]

record refusal_record_body =
  rr_tx_id :: tx_id
  rr_seal_id :: transaction_seal_id
  rr_decision_sequence :: decision_sequence
  rr_code :: refusal_code
  rr_policy_epoch :: policy_epoch
  rr_detail :: bytes
  rr_evidence_root :: digest

definition write_refusal_record_body :: "refusal_record_body writer" where
  "write_refusal_record_body x out =
     (if MAX_REFUSAL_DETAIL_LEN < length (rr_detail x)
      then Inl (ValueUnrepresentable ''RefusalRecordBody.detail'' (clamp_u64 (length (rr_detail x)))
             (clamp_u64 MAX_REFUSAL_DETAIL_LEN))
      else
       wthen (write_derived (rr_tx_id x))
       (wthen (write_derived (rr_seal_id x))
       (wthen (write_counter (rr_decision_sequence x))
       (wthen (write_refusal_code (rr_code x))
       (wthen (write_counter (rr_policy_epoch x))
       (wthen (write_text ''RefusalRecordBody.detail'' (rr_detail x))
       (write_digest (rr_evidence_root x))))))) out)"

definition read_refusal_record_body :: "refusal_record_body reader" where
  "read_refusal_record_body =
     dbind (read_derived ''TxId'' ''frankengit/ref-txn/v2'') (\<lambda>tx_id.
     dbind (read_derived ''TransactionSealId'' ''frankengit/txn-seal/v1'') (\<lambda>seal_id.
     dbind (read_counter ''DecisionSequence'' ''decision_sequence'') (\<lambda>decision_sequence.
     dbind (read_refusal_code ''code'') (\<lambda>code.
     dbind (read_counter ''PolicyEpoch'' ''policy_epoch'') (\<lambda>policy_epoch.
     dbind read_refusal_detail (\<lambda>detail.
     dbind read_digest (\<lambda>evidence_root.
     dreturn \<lparr>rr_tx_id = tx_id, rr_seal_id = seal_id, rr_decision_sequence = decision_sequence, rr_code = code, rr_policy_epoch = policy_epoch, rr_detail = detail, rr_evidence_root = evidence_root\<rparr>)))))))"

definition adm_refusal_record_body :: "decode_limits \<Rightarrow> u32 \<Rightarrow> refusal_record_body \<Rightarrow> bool" where
  "adm_refusal_record_body limits depth x \<longleftrightarrow>
     adm_derived ''frankengit/ref-txn/v2'' limits depth (rr_tx_id x) \<and>
     adm_derived ''frankengit/txn-seal/v1'' limits depth (rr_seal_id x) \<and>
     adm_counter limits depth (rr_decision_sequence x) \<and>
     True \<and>
     adm_counter limits depth (rr_policy_epoch x) \<and>
     adm_refusal_detail limits depth (rr_detail x) \<and>
     adm_digest limits depth (rr_evidence_root x)"

definition refusal_record_body_schema :: "refusal_record_body canonical_body" where
  "refusal_record_body_schema =
     \<lparr>body_DOMAIN = slug ''frankengit/refusal-record/v1'', body_SCHEMA_FAMILY = slug ''refusal-record'',
      body_SCHEMA_MAJOR = 1, body_SCHEMA_MINOR = 0,
      write_payload = write_refusal_record_body, read_payload = read_refusal_record_body\<rparr>"

lemma codec_refusal_record_body: "canonical_codec write_refusal_record_body read_refusal_record_body adm_refusal_record_body"
proof -
  have "canonical_codec (\<lambda>x. wthen (write_derived (rr_tx_id x)) (wthen (write_derived (rr_seal_id x))
        (wthen (write_counter (rr_decision_sequence x)) (wthen (write_refusal_code (rr_code x))
          (wthen (write_counter (rr_policy_epoch x)) (wthen (write_text ''RefusalRecordBody.detail'' (rr_detail x))
            (write_digest (rr_evidence_root x))))))))
      read_refusal_record_body adm_refusal_record_body"
    unfolding read_refusal_record_body_def adm_refusal_record_body_def [abs_def]
    by (rule codec_first, (rule codec_field)+, rule codec_last, auto)
  then show ?thesis
    unfolding write_refusal_record_body_def [abs_def]
    by (rule codec_guarded) (auto simp: adm_refusal_record_body_def adm_refusal_detail_def)
qed

interpretation refusal_body: framed_body refusal_record_body_schema adm_refusal_record_body
  by (simp add: framed_body_def refusal_record_body_schema_def codec_refusal_record_body)

section \<open>Configuration carriers\<close>

record repository_configuration_body =
  cf_root_layout :: root_layout_version
  cf_object_format :: git_hash_algorithm
  cf_hidden_ref_rules :: "bytes list"

definition write_repository_configuration_body :: "repository_configuration_body writer" where
  "write_repository_configuration_body x =
     wthen (write_root_layout (cf_root_layout x))
     (wthen (write_object_format (cf_object_format x))
     (write_sequence ''hidden_ref_rules'' (write_bytes ''hidden_ref_rule'') (cf_hidden_ref_rules x)))"

definition read_repository_configuration_body :: "repository_configuration_body reader" where
  "read_repository_configuration_body =
     dbind (read_root_layout ''root_layout'') (\<lambda>root_layout.
     dbind (read_object_format ''object_format'') (\<lambda>object_format.
     dbind (read_sequence ''hidden_ref_rules'' (read_bytes ''hidden_ref_rule'')) (\<lambda>hidden_ref_rules.
     dreturn \<lparr>cf_root_layout = root_layout, cf_object_format = object_format, cf_hidden_ref_rules = hidden_ref_rules\<rparr>)))"

definition adm_repository_configuration_body :: "decode_limits \<Rightarrow> u32 \<Rightarrow> repository_configuration_body \<Rightarrow> bool" where
  "adm_repository_configuration_body limits depth x \<longleftrightarrow>
     True \<and>
     True \<and>
     adm_sequence adm_bytes limits depth (cf_hidden_ref_rules x)"

definition repository_configuration_body_schema :: "repository_configuration_body canonical_body" where
  "repository_configuration_body_schema =
     \<lparr>body_DOMAIN = slug ''frankengit/repository-configuration/v1'', body_SCHEMA_FAMILY = slug ''repository-configuration'',
      body_SCHEMA_MAJOR = 1, body_SCHEMA_MINOR = 2,
      write_payload = write_repository_configuration_body, read_payload = read_repository_configuration_body\<rparr>"

lemma codec_repository_configuration_body: "canonical_codec write_repository_configuration_body read_repository_configuration_body adm_repository_configuration_body"
  unfolding write_repository_configuration_body_def [abs_def] read_repository_configuration_body_def adm_repository_configuration_body_def [abs_def]
  by (rule codec_first, (rule codec_field)+, rule codec_last, auto)

interpretation configuration_body: framed_body repository_configuration_body_schema adm_repository_configuration_body
  by (simp add: framed_body_def repository_configuration_body_schema_def codec_repository_configuration_body)

record creation_attempt_body =
  ca_tenant_id :: tenant_id
  ca_repository_id :: repository_id
  ca_root_layout :: root_layout_version
  ca_object_format :: git_hash_algorithm
  ca_idempotency_key_digest :: digest
  ca_repository_incarnation_id :: repository_incarnation_id

definition write_creation_attempt_body :: "creation_attempt_body writer" where
  "write_creation_attempt_body x =
     wthen (write_opaque_id (ca_tenant_id x))
     (wthen (write_opaque_id (ca_repository_id x))
     (wthen (write_root_layout (ca_root_layout x))
     (wthen (write_object_format (ca_object_format x))
     (wthen (write_digest (ca_idempotency_key_digest x))
     (write_opaque_id (ca_repository_incarnation_id x))))))"

definition read_creation_attempt_body :: "creation_attempt_body reader" where
  "read_creation_attempt_body =
     dbind (read_opaque_id ''tenant_id'') (\<lambda>tenant_id.
     dbind (read_opaque_id ''repository_id'') (\<lambda>repository_id.
     dbind (read_root_layout ''root_layout'') (\<lambda>root_layout.
     dbind (read_object_format ''object_format'') (\<lambda>object_format.
     dbind read_digest (\<lambda>idempotency_key_digest.
     dbind (read_opaque_id ''repository_incarnation_id'') (\<lambda>repository_incarnation_id.
     dreturn \<lparr>ca_tenant_id = tenant_id, ca_repository_id = repository_id, ca_root_layout = root_layout, ca_object_format = object_format, ca_idempotency_key_digest = idempotency_key_digest, ca_repository_incarnation_id = repository_incarnation_id\<rparr>))))))"

definition adm_creation_attempt_body :: "decode_limits \<Rightarrow> u32 \<Rightarrow> creation_attempt_body \<Rightarrow> bool" where
  "adm_creation_attempt_body limits depth x \<longleftrightarrow>
     adm_opaque_id limits depth (ca_tenant_id x) \<and>
     adm_opaque_id limits depth (ca_repository_id x) \<and>
     True \<and>
     True \<and>
     adm_digest limits depth (ca_idempotency_key_digest x) \<and>
     adm_opaque_id limits depth (ca_repository_incarnation_id x)"

definition creation_attempt_body_schema :: "creation_attempt_body canonical_body" where
  "creation_attempt_body_schema =
     \<lparr>body_DOMAIN = slug ''frankengit/repository-creation-attempt/v1'', body_SCHEMA_FAMILY = slug ''repository-creation-attempt'',
      body_SCHEMA_MAJOR = 1, body_SCHEMA_MINOR = 0,
      write_payload = write_creation_attempt_body, read_payload = read_creation_attempt_body\<rparr>"

lemma codec_creation_attempt_body: "canonical_codec write_creation_attempt_body read_creation_attempt_body adm_creation_attempt_body"
  unfolding write_creation_attempt_body_def [abs_def] read_creation_attempt_body_def adm_creation_attempt_body_def [abs_def]
  by (rule codec_first, (rule codec_field)+, rule codec_last, auto)

interpretation creation_body: framed_body creation_attempt_body_schema adm_creation_attempt_body
  by (simp add: framed_body_def creation_attempt_body_schema_def codec_creation_attempt_body)

record hidden_ref_policy_body =
  hp_rules :: "bytes list"

definition write_hidden_ref_policy_body :: "hidden_ref_policy_body writer" where
  "write_hidden_ref_policy_body x =
     write_sequence ''rules'' (write_bytes ''rule'') (hp_rules x)"

definition read_hidden_ref_policy_body :: "hidden_ref_policy_body reader" where
  "read_hidden_ref_policy_body =
     dbind (read_sequence ''rules'' (read_bytes ''rule'')) (\<lambda>rules.
     dreturn \<lparr>hp_rules = rules\<rparr>)"

definition adm_hidden_ref_policy_body :: "decode_limits \<Rightarrow> u32 \<Rightarrow> hidden_ref_policy_body \<Rightarrow> bool" where
  "adm_hidden_ref_policy_body limits depth x \<longleftrightarrow>
     adm_sequence adm_bytes limits depth (hp_rules x)"

definition hidden_ref_policy_body_schema :: "hidden_ref_policy_body canonical_body" where
  "hidden_ref_policy_body_schema =
     \<lparr>body_DOMAIN = slug ''frankengit/hidden-ref-policy/v1'', body_SCHEMA_FAMILY = slug ''hidden-ref-policy'',
      body_SCHEMA_MAJOR = 1, body_SCHEMA_MINOR = 0,
      write_payload = write_hidden_ref_policy_body, read_payload = read_hidden_ref_policy_body\<rparr>"

lemma codec_hidden_ref_policy_body: "canonical_codec write_hidden_ref_policy_body read_hidden_ref_policy_body adm_hidden_ref_policy_body"
  unfolding write_hidden_ref_policy_body_def [abs_def] read_hidden_ref_policy_body_def adm_hidden_ref_policy_body_def [abs_def]
  by (rule codec_single [OF codec_sequence [OF codec_bytes]]) auto

interpretation policy_body: framed_body hidden_ref_policy_body_schema adm_hidden_ref_policy_body
  by (simp add: framed_body_def hidden_ref_policy_body_schema_def codec_hidden_ref_policy_body)

record incarnation_configuration_body =
  ic_root_layout :: root_layout_version
  ic_object_format :: git_hash_algorithm
  ic_repository_incarnation_id :: repository_incarnation_id

definition write_incarnation_configuration_body :: "incarnation_configuration_body writer" where
  "write_incarnation_configuration_body x =
     wthen (write_root_layout (ic_root_layout x))
     (wthen (write_object_format (ic_object_format x))
     (write_opaque_id (ic_repository_incarnation_id x)))"

definition read_incarnation_configuration_body :: "incarnation_configuration_body reader" where
  "read_incarnation_configuration_body =
     dbind (read_root_layout ''root_layout'') (\<lambda>root_layout.
     dbind (read_object_format ''object_format'') (\<lambda>object_format.
     dbind (read_opaque_id ''repository_incarnation_id'') (\<lambda>repository_incarnation_id.
     dreturn \<lparr>ic_root_layout = root_layout, ic_object_format = object_format, ic_repository_incarnation_id = repository_incarnation_id\<rparr>)))"

definition adm_incarnation_configuration_body :: "decode_limits \<Rightarrow> u32 \<Rightarrow> incarnation_configuration_body \<Rightarrow> bool" where
  "adm_incarnation_configuration_body limits depth x \<longleftrightarrow>
     True \<and>
     True \<and>
     adm_opaque_id limits depth (ic_repository_incarnation_id x)"

definition incarnation_configuration_body_schema :: "incarnation_configuration_body canonical_body" where
  "incarnation_configuration_body_schema =
     \<lparr>body_DOMAIN = slug ''frankengit/repository-configuration/v1'', body_SCHEMA_FAMILY = slug ''repository-configuration'',
      body_SCHEMA_MAJOR = 2, body_SCHEMA_MINOR = 0,
      write_payload = write_incarnation_configuration_body, read_payload = read_incarnation_configuration_body\<rparr>"

lemma codec_incarnation_configuration_body: "canonical_codec write_incarnation_configuration_body read_incarnation_configuration_body adm_incarnation_configuration_body"
  unfolding write_incarnation_configuration_body_def [abs_def] read_incarnation_configuration_body_def adm_incarnation_configuration_body_def [abs_def]
  by (rule codec_first, (rule codec_field)+, rule codec_last, auto)

interpretation incarnation_body: framed_body incarnation_configuration_body_schema adm_incarnation_configuration_body
  by (simp add: framed_body_def incarnation_configuration_body_schema_def codec_incarnation_configuration_body)

record incarnation_configuration_body_v2_1 =
  iv_root_layout :: root_layout_version
  iv_object_format :: git_hash_algorithm
  iv_repository_incarnation_id :: repository_incarnation_id
  iv_policy_root :: "digest option"

definition write_incarnation_configuration_body_v2_1 :: "incarnation_configuration_body_v2_1 writer" where
  "write_incarnation_configuration_body_v2_1 x =
     wthen (write_root_layout (iv_root_layout x))
     (wthen (write_object_format (iv_object_format x))
     (wthen (write_opaque_id (iv_repository_incarnation_id x))
     (write_option write_digest (iv_policy_root x))))"

definition read_incarnation_configuration_body_v2_1 :: "incarnation_configuration_body_v2_1 reader" where
  "read_incarnation_configuration_body_v2_1 =
     dbind (read_root_layout ''root_layout'') (\<lambda>root_layout.
     dbind (read_object_format ''object_format'') (\<lambda>object_format.
     dbind (read_opaque_id ''repository_incarnation_id'') (\<lambda>repository_incarnation_id.
     dbind (read_option ''policy_root'' read_digest) (\<lambda>policy_root.
     dreturn \<lparr>iv_root_layout = root_layout, iv_object_format = object_format, iv_repository_incarnation_id = repository_incarnation_id, iv_policy_root = policy_root\<rparr>))))"

definition adm_incarnation_configuration_body_v2_1 :: "decode_limits \<Rightarrow> u32 \<Rightarrow> incarnation_configuration_body_v2_1 \<Rightarrow> bool" where
  "adm_incarnation_configuration_body_v2_1 limits depth x \<longleftrightarrow>
     True \<and>
     True \<and>
     adm_opaque_id limits depth (iv_repository_incarnation_id x) \<and>
     adm_option adm_digest limits depth (iv_policy_root x)"

definition incarnation_configuration_body_v2_1_schema :: "incarnation_configuration_body_v2_1 canonical_body" where
  "incarnation_configuration_body_v2_1_schema =
     \<lparr>body_DOMAIN = slug ''frankengit/repository-configuration/v1'', body_SCHEMA_FAMILY = slug ''repository-configuration'',
      body_SCHEMA_MAJOR = 2, body_SCHEMA_MINOR = 1,
      write_payload = write_incarnation_configuration_body_v2_1, read_payload = read_incarnation_configuration_body_v2_1\<rparr>"

lemma codec_incarnation_configuration_body_v2_1: "canonical_codec write_incarnation_configuration_body_v2_1 read_incarnation_configuration_body_v2_1 adm_incarnation_configuration_body_v2_1"
  unfolding write_incarnation_configuration_body_v2_1_def [abs_def] read_incarnation_configuration_body_v2_1_def adm_incarnation_configuration_body_v2_1_def [abs_def]
  by (rule codec_first, (rule codec_field)+, rule codec_last, auto)

interpretation incarnation_body_v2_1: framed_body incarnation_configuration_body_v2_1_schema adm_incarnation_configuration_body_v2_1
  by (simp add: framed_body_def incarnation_configuration_body_v2_1_schema_def codec_incarnation_configuration_body_v2_1)

record incarnation_configuration_body_v2_2 =
  iw_root_layout :: root_layout_version
  iw_object_format :: git_hash_algorithm
  iw_repository_incarnation_id :: repository_incarnation_id
  iw_policy_root :: "digest option"
  iw_capability_revocation_root :: "digest option"

definition write_incarnation_configuration_body_v2_2 :: "incarnation_configuration_body_v2_2 writer" where
  "write_incarnation_configuration_body_v2_2 x =
     wthen (write_root_layout (iw_root_layout x))
     (wthen (write_object_format (iw_object_format x))
     (wthen (write_opaque_id (iw_repository_incarnation_id x))
     (wthen (write_option write_digest (iw_policy_root x))
     (write_option write_digest (iw_capability_revocation_root x)))))"

definition read_incarnation_configuration_body_v2_2 :: "incarnation_configuration_body_v2_2 reader" where
  "read_incarnation_configuration_body_v2_2 =
     dbind (read_root_layout ''root_layout'') (\<lambda>root_layout.
     dbind (read_object_format ''object_format'') (\<lambda>object_format.
     dbind (read_opaque_id ''repository_incarnation_id'') (\<lambda>repository_incarnation_id.
     dbind (read_option ''policy_root'' read_digest) (\<lambda>policy_root.
     dbind (read_option ''capability_revocation_root'' read_digest) (\<lambda>capability_revocation_root.
     dreturn \<lparr>iw_root_layout = root_layout, iw_object_format = object_format, iw_repository_incarnation_id = repository_incarnation_id, iw_policy_root = policy_root, iw_capability_revocation_root = capability_revocation_root\<rparr>)))))"

definition adm_incarnation_configuration_body_v2_2 :: "decode_limits \<Rightarrow> u32 \<Rightarrow> incarnation_configuration_body_v2_2 \<Rightarrow> bool" where
  "adm_incarnation_configuration_body_v2_2 limits depth x \<longleftrightarrow>
     True \<and>
     True \<and>
     adm_opaque_id limits depth (iw_repository_incarnation_id x) \<and>
     adm_option adm_digest limits depth (iw_policy_root x) \<and>
     adm_option adm_digest limits depth (iw_capability_revocation_root x)"

definition incarnation_configuration_body_v2_2_schema :: "incarnation_configuration_body_v2_2 canonical_body" where
  "incarnation_configuration_body_v2_2_schema =
     \<lparr>body_DOMAIN = slug ''frankengit/repository-configuration/v1'', body_SCHEMA_FAMILY = slug ''repository-configuration'',
      body_SCHEMA_MAJOR = 2, body_SCHEMA_MINOR = 2,
      write_payload = write_incarnation_configuration_body_v2_2, read_payload = read_incarnation_configuration_body_v2_2\<rparr>"

lemma codec_incarnation_configuration_body_v2_2: "canonical_codec write_incarnation_configuration_body_v2_2 read_incarnation_configuration_body_v2_2 adm_incarnation_configuration_body_v2_2"
  unfolding write_incarnation_configuration_body_v2_2_def [abs_def] read_incarnation_configuration_body_v2_2_def adm_incarnation_configuration_body_v2_2_def [abs_def]
  by (rule codec_first, (rule codec_field)+, rule codec_last, auto)

interpretation incarnation_body_v2_2: framed_body incarnation_configuration_body_v2_2_schema adm_incarnation_configuration_body_v2_2
  by (simp add: framed_body_def incarnation_configuration_body_v2_2_schema_def codec_incarnation_configuration_body_v2_2)

section \<open>The request a creation retry must match\<close>

definition fixed_request_bytes :: "creation_attempt_body \<Rightarrow> codec_refusal + bytes" where
  "fixed_request_bytes x =
     wthen (write_opaque_id (ca_tenant_id x))
     (wthen (write_opaque_id (ca_repository_id x))
     (wthen (write_root_layout (ca_root_layout x))
     (wthen (write_object_format (ca_object_format x))
     (write_digest (ca_idempotency_key_digest x))))) []"

text \<open>
  The projection determines every field but the incarnation, which a retry recovers from the first
  writer: two attempts with one projection differ in nothing else.
\<close>

lemma fixed_request_payload:
  "write_payload creation_attempt_body_schema x [] =
     rbind (fixed_request_bytes x) (write_opaque_id (ca_repository_incarnation_id x))"
  by (simp add: creation_attempt_body_schema_def write_creation_attempt_body_def fixed_request_bytes_def
      wthen_def rbind_def split: sum.splits)

lemma fixed_request_determines:
  assumes "adm_creation_attempt_body limits 0 x" "adm_creation_attempt_body limits 0 y"
    and "fixed_request_bytes x = Inr b" "fixed_request_bytes y = Inr b"
  shows "y = x\<lparr>ca_repository_incarnation_id := ca_repository_incarnation_id y\<rparr>"
proof -
  let ?x = "x\<lparr>ca_repository_incarnation_id := ca_repository_incarnation_id y\<rparr>"
  have same: "fixed_request_bytes ?x = Inr b" "adm_creation_attempt_body limits 0 ?x"
    using assms by (simp_all add: fixed_request_bytes_def adm_creation_attempt_body_def)
  then have "write_payload creation_attempt_body_schema ?x [] = write_payload creation_attempt_body_schema y []"
    using assms(4) by (simp add: fixed_request_payload)
  moreover obtain c where "write_payload creation_attempt_body_schema y [] = Inr c"
    using creation_body.payload.writes [OF assms(2)] by auto
  ultimately show ?thesis
    using creation_body.payload.prefix_free [OF same(2) _ assms(2)] by auto
qed

end
