(* ===== verification/Codec_Envelope.thy ===== *)
theory Codec_Envelope
  imports Codec_Schemas
begin

text \<open>
  Signed envelopes (\<open>attest.rs\<close>): the identity of a body and of a frame, detached signatures, and the
  envelope that carries a frame verbatim. The identity construction is an argument here, as the trait
  \<open>BodyIdentity\<close> makes it one in the sources.
\<close>

section \<open>Identities of bodies and frames\<close>

type_synonym body_identity =
  "ascii_slug \<Rightarrow> schema_id \<Rightarrow> codec_version \<Rightarrow> bytes \<Rightarrow> codec_refusal + internal_object_id"

definition body_id :: "body_identity \<Rightarrow> 'b canonical_body \<Rightarrow> 'b \<Rightarrow> codec_refusal + internal_object_id" where
  "body_id identify B x =
     rbind (canonical_body_bytes B x)
       (identify (body_DOMAIN B) (body_schema_id B) (CodecVersion CODEC_MAJOR CODEC_MINOR))"

definition body_id_of_frame ::
  "body_identity \<Rightarrow> bytes \<Rightarrow> decode_limits \<Rightarrow> codec_refusal + internal_object_id" where
  "body_id_of_frame identify frame limits =
     rbind (split_frame frame limits) (\<lambda>(header, payload).
       identify (fh_domain header) (fh_schema header) (CodecVersion CODEC_MAJOR (fh_codec_minor header)) payload)"

definition body_id_of_frame_as ::
  "body_identity \<Rightarrow> 'b canonical_body \<Rightarrow> bytes \<Rightarrow> decode_limits \<Rightarrow> codec_refusal + internal_object_id" where
  "body_id_of_frame_as identify B frame limits =
     rbind (split_frame frame limits) (\<lambda>(header, payload).
       if fh_domain header \<noteq> body_DOMAIN B then Inl (DomainUnexpected (body_DOMAIN B) (fh_domain header))
       else if schema_family (fh_schema header) \<noteq> body_SCHEMA_FAMILY B
       then Inl (SchemaFamilyUnexpected (body_SCHEMA_FAMILY B) (schema_family (fh_schema header)))
       else if schema_major (fh_schema header) \<noteq> body_SCHEMA_MAJOR B
       then Inl (SchemaMajorUnsupported (fh_domain header) (schema_major (fh_schema header)) (body_SCHEMA_MAJOR B))
       else identify (fh_domain header) (fh_schema header) (CodecVersion CODEC_MAJOR (fh_codec_minor header)) payload)"

section \<open>Detached signatures\<close>

definition MAX_KEY_ID_LEN :: nat where
  "MAX_KEY_ID_LEN = 128"

definition MAX_SIGNATURE_LEN :: nat where
  "MAX_SIGNATURE_LEN = 1024"

definition MAX_CARRIED_BODY_LEN :: nat where
  "MAX_CARRIED_BODY_LEN = 8 * 1024 * 1024"

datatype signature_scheme_id = SignatureSchemeId (scheme_code_point: u16)

definition scheme_try_new :: "u16 \<Rightarrow> codec_refusal + signature_scheme_id" where
  "scheme_try_new code_point =
     (if code_point = 0 then Inl (VariantUnknown ''SignatureSchemeId'' 0 0) else Inr (SignatureSchemeId code_point))"

record detached_signature =
  sig_scheme :: signature_scheme_id
  sig_key_id :: bytes
  sig_body_id :: internal_object_id
  sig_signature :: bytes

definition write_detached_signature :: "detached_signature writer" where
  "write_detached_signature x out =
     (if MAX_KEY_ID_LEN < length (sig_key_id x)
      then Inl (ValueUnrepresentable ''DetachedSignature.key_id'' (clamp_u64 (length (sig_key_id x)))
             (clamp_u64 MAX_KEY_ID_LEN))
      else if MAX_SIGNATURE_LEN < length (sig_signature x)
      then Inl (ValueUnrepresentable ''DetachedSignature.signature'' (clamp_u64 (length (sig_signature x)))
             (clamp_u64 MAX_SIGNATURE_LEN))
      else
        wthen (write_scalar (scheme_code_point (sig_scheme x)))
        (wthen (write_bytes ''DetachedSignature.key_id'' (sig_key_id x))
        (wthen (write_internal_object_id (sig_body_id x))
        (write_bytes ''DetachedSignature.signature'' (sig_signature x)))) out)"

definition read_bounded :: "string \<Rightarrow> nat \<Rightarrow> bytes reader" where
  "read_bounded field limit =
     dbind (read_bytes field) (\<lambda>bs.
       dcheck (if limit < length bs then Inl (LengthBoundExceeded field (clamp_u64 (length bs)) (clamp_u64 limit))
               else Inr bs))"

definition read_scheme :: "signature_scheme_id reader" where
  "read_scheme d =
     dbind (read_u16 ''DetachedSignature.scheme'') (\<lambda>raw.
       dcheck (map_err (\<lambda>_. VariantUnknown ''SignatureSchemeId'' (ucast raw) (dec_position d)) (scheme_try_new raw))) d"

definition read_detached_signature :: "detached_signature reader" where
  "read_detached_signature =
     dbind read_scheme (\<lambda>scheme.
     dbind (read_bounded ''DetachedSignature.key_id'' MAX_KEY_ID_LEN) (\<lambda>key_id.
     dbind read_internal_object_id (\<lambda>body_id.
     dbind (read_bounded ''DetachedSignature.signature'' MAX_SIGNATURE_LEN) (\<lambda>signature.
     dreturn \<lparr>sig_scheme = scheme, sig_key_id = key_id, sig_body_id = body_id, sig_signature = signature\<rparr>))))"

section \<open>Envelopes\<close>

record signed_envelope_body =
  env_body_frame :: bytes
  env_signatures :: "detached_signature list"

definition envelope_seal :: "'b canonical_body \<Rightarrow> 'b \<Rightarrow> codec_refusal + signed_envelope_body" where
  "envelope_seal B x =
     rbind (encode_body B x) (\<lambda>frame. Inr \<lparr>env_body_frame = frame, env_signatures = []\<rparr>)"

definition envelope_from_frame :: "bytes \<Rightarrow> decode_limits \<Rightarrow> codec_refusal + signed_envelope_body" where
  "envelope_from_frame frame limits =
     rbind (peek_frame_domain frame limits) (\<lambda>_. Inr \<lparr>env_body_frame = frame, env_signatures = []\<rparr>)"

definition attach ::
  "signed_envelope_body \<Rightarrow> detached_signature \<Rightarrow> decode_limits \<Rightarrow> codec_refusal + signed_envelope_body" where
  "attach env signature limits =
     rbind (peek_frame_domain (env_body_frame env) limits) (\<lambda>domain.
       if id_domain (sig_body_id signature) \<noteq> domain
       then Inl (DomainUnexpected domain (id_domain (sig_body_id signature)))
       else Inr (env\<lparr>env_signatures := env_signatures env @ [signature]\<rparr>))"

definition carried_body_id ::
  "body_identity \<Rightarrow> signed_envelope_body \<Rightarrow> decode_limits \<Rightarrow> codec_refusal + internal_object_id" where
  "carried_body_id identify env = body_id_of_frame identify (env_body_frame env)"

definition carried_body_id_as ::
  "body_identity \<Rightarrow> 'b canonical_body \<Rightarrow> signed_envelope_body \<Rightarrow> decode_limits \<Rightarrow>
     codec_refusal + internal_object_id" where
  "carried_body_id_as identify B env = body_id_of_frame_as identify B (env_body_frame env)"

definition carried_body :: "'b canonical_body \<Rightarrow> signed_envelope_body \<Rightarrow> decode_limits \<Rightarrow> codec_refusal + 'b" where
  "carried_body B env = decode_body B (env_body_frame env)"

definition write_signed_envelope_body :: "signed_envelope_body writer" where
  "write_signed_envelope_body x out =
     (if MAX_CARRIED_BODY_LEN < length (env_body_frame x)
      then Inl (ValueUnrepresentable ''SignedEnvelopeBody.body_frame'' (clamp_u64 (length (env_body_frame x)))
             (clamp_u64 MAX_CARRIED_BODY_LEN))
      else
        wthen (write_bytes ''SignedEnvelopeBody.body_frame'' (env_body_frame x))
        (write_canonical_set ''SignedEnvelopeBody.signatures'' write_detached_signature (env_signatures x)) out)"

fun check_domains :: "ascii_slug \<Rightarrow> detached_signature list \<Rightarrow> codec_refusal + unit" where
  "check_domains domain [] = Inr ()"
| "check_domains domain (s # ss) =
     (if id_domain (sig_body_id s) \<noteq> domain then Inl (DomainUnexpected domain (id_domain (sig_body_id s)))
      else check_domains domain ss)"

definition read_signed_envelope_body :: "signed_envelope_body reader" where
  "read_signed_envelope_body =
     dbind (read_bounded ''SignedEnvelopeBody.body_frame'' MAX_CARRIED_BODY_LEN) (\<lambda>frame.
     dbind (\<lambda>d. dcheck (peek_frame_domain frame (dec_limits d)) d) (\<lambda>domain.
     dbind (read_canonical_set ''SignedEnvelopeBody.signatures'' read_detached_signature) (\<lambda>signatures.
     dbind (dcheck (check_domains domain signatures)) (\<lambda>_.
     dreturn \<lparr>env_body_frame = frame, env_signatures = signatures\<rparr>))))"

definition signed_envelope_body_schema :: "signed_envelope_body canonical_body" where
  "signed_envelope_body_schema =
     \<lparr>body_DOMAIN = slug ''frankengit/signed-envelope/v1'', body_SCHEMA_FAMILY = slug ''signed-envelope'',
      body_SCHEMA_MAJOR = 1, body_SCHEMA_MINOR = 0,
      write_payload = write_signed_envelope_body, read_payload = read_signed_envelope_body\<rparr>"

section \<open>Codec laws\<close>

text \<open>A reader that checks more than its codec asks.\<close>

lemma codec_restrict:
  assumes codec: "canonical_codec w r adm"
    and checks: "\<And>d x d'. in_bounds d \<Longrightarrow> r' d = Inr (x, d') \<longleftrightarrow> r d = Inr (x, d') \<and> Q (dec_limits d) x"
  shows "canonical_codec w r' (\<lambda>limits depth x. Q limits x \<and> adm limits depth x)"
proof
  show "w x out = Inr out' \<longleftrightarrow> (\<exists>b. w x [] = Inr b \<and> out' = out @ b)" for x out out'
    by (rule canonical_codec.appends [OF codec])
  show "r' d = Inr (x, d') \<longleftrightarrow> (Q (dec_limits d) x \<and> adm (dec_limits d) (dec_depth d) x) \<and>
      (\<exists>b. w x [] = Inr b \<and> prefix b (unread d) \<and> d' = advance_by (length b) d)" if "in_bounds d" for d x d'
    using checks [OF that] canonical_codec.reads [OF codec that] by auto
qed (use canonical_codec.nonempty [OF codec] canonical_codec.writes [OF codec] in auto)

definition adm_bounded :: "nat \<Rightarrow> decode_limits \<Rightarrow> u32 \<Rightarrow> bytes \<Rightarrow> bool" where
  "adm_bounded limit limits depth bs \<longleftrightarrow> length bs \<le> limit \<and> adm_bytes limits depth bs"

lemma codec_bounded: "canonical_codec (write_bytes field) (read_bounded field' limit) (adm_bounded limit)"
proof -
  have "canonical_codec (conv_writer (\<lambda>bs. bs) (write_bytes field))
      (conv_reader (\<lambda>bs. if limit < length bs
         then Inl (LengthBoundExceeded field' (clamp_u64 (length bs)) (clamp_u64 limit)) else Inr bs) (read_bytes field'))
      (\<lambda>limits depth bs. length bs \<le> limit \<and> adm_bytes limits depth bs)"
    by (rule codec_conv [OF codec_bytes]) auto
  then show ?thesis
    by (simp add: codec_shapes [abs_def] read_bounded_def adm_bounded_def [abs_def])
qed

definition adm_scheme :: "decode_limits \<Rightarrow> u32 \<Rightarrow> signature_scheme_id \<Rightarrow> bool" where
  "adm_scheme limits depth s \<longleftrightarrow> scheme_code_point s \<noteq> 0"

lemma codec_scheme: "canonical_codec (\<lambda>s. write_scalar (scheme_code_point s)) read_scheme adm_scheme"
proof -
  have "canonical_codec (conv_writer scheme_code_point write_scalar)
      (\<lambda>d. conv_reader (\<lambda>raw. map_err (\<lambda>_. VariantUnknown ''SignatureSchemeId'' (ucast raw) (dec_position d))
         (scheme_try_new raw)) (read_u16 ''DetachedSignature.scheme'') d)
      (\<lambda>limits depth s. scheme_code_point s \<noteq> 0 \<and> True)"
    by (rule codec_conv_at [OF codec_u16]) (auto simp: scheme_try_new_def)
  then show ?thesis
    by (simp add: codec_shapes [abs_def] read_scheme_def [abs_def] adm_scheme_def [abs_def])
qed

definition adm_detached_signature :: "decode_limits \<Rightarrow> u32 \<Rightarrow> detached_signature \<Rightarrow> bool" where
  "adm_detached_signature limits depth x \<longleftrightarrow>
     adm_scheme limits depth (sig_scheme x) \<and>
     adm_bounded MAX_KEY_ID_LEN limits depth (sig_key_id x) \<and>
     adm_internal_object_id limits depth (sig_body_id x) \<and>
     adm_bounded MAX_SIGNATURE_LEN limits depth (sig_signature x)"

lemma codec_detached_signature:
  "canonical_codec write_detached_signature read_detached_signature adm_detached_signature"
proof -
  have "canonical_codec (\<lambda>x. wthen (write_scalar (scheme_code_point (sig_scheme x)))
        (wthen (write_bytes ''DetachedSignature.key_id'' (sig_key_id x))
        (wthen (write_internal_object_id (sig_body_id x))
        (write_bytes ''DetachedSignature.signature'' (sig_signature x)))))
      read_detached_signature adm_detached_signature"
    unfolding read_detached_signature_def adm_detached_signature_def [abs_def]
    by (rule codec_record [OF codec_scheme], rule partial_field [OF codec_bounded],
        rule partial_field [OF codec_internal_object_id], rule partial_last [OF codec_bounded], auto)
  from codec_guarded [OF codec_guarded [OF this, of "\<lambda>x. MAX_SIGNATURE_LEN < length (sig_signature x)"
        "\<lambda>x. ValueUnrepresentable ''DetachedSignature.signature'' (clamp_u64 (length (sig_signature x)))
             (clamp_u64 MAX_SIGNATURE_LEN)"], of "\<lambda>x. MAX_KEY_ID_LEN < length (sig_key_id x)"
        "\<lambda>x. ValueUnrepresentable ''DetachedSignature.key_id'' (clamp_u64 (length (sig_key_id x)))
             (clamp_u64 MAX_KEY_ID_LEN)"]
  show ?thesis
    unfolding write_detached_signature_def [abs_def]
    by (simp add: adm_detached_signature_def adm_bounded_def)
qed

definition adm_signed_envelope_body :: "decode_limits \<Rightarrow> u32 \<Rightarrow> signed_envelope_body \<Rightarrow> bool" where
  "adm_signed_envelope_body limits depth x \<longleftrightarrow>
     (\<exists>domain. peek_frame_domain (env_body_frame x) limits = Inr domain \<and>
        (\<forall>s \<in> set (env_signatures x). id_domain (sig_body_id s) = domain)) \<and>
     adm_bounded MAX_CARRIED_BODY_LEN limits depth (env_body_frame x) \<and>
     adm_set write_detached_signature adm_detached_signature limits depth (env_signatures x)"

lemma check_domains_iff: "check_domains domain ss = Inr u \<longleftrightarrow> (\<forall>s \<in> set ss. id_domain (sig_body_id s) = domain)"
  by (induction ss) auto

lemma codec_signed_envelope_body:
  "canonical_codec write_signed_envelope_body read_signed_envelope_body adm_signed_envelope_body"
proof -
  let ?r = "dbind (read_bounded ''SignedEnvelopeBody.body_frame'' MAX_CARRIED_BODY_LEN) (\<lambda>frame.
     dbind (read_canonical_set ''SignedEnvelopeBody.signatures'' read_detached_signature) (\<lambda>signatures.
     dreturn \<lparr>env_body_frame = frame, env_signatures = signatures\<rparr>))"
  have base: "canonical_codec (\<lambda>x. wthen (write_bytes ''SignedEnvelopeBody.body_frame'' (env_body_frame x))
        (write_canonical_set ''SignedEnvelopeBody.signatures'' write_detached_signature (env_signatures x))) ?r
      (\<lambda>limits depth x. adm_bounded MAX_CARRIED_BODY_LEN limits depth (env_body_frame x) \<and>
         adm_set write_detached_signature adm_detached_signature limits depth (env_signatures x))"
    by (rule codec_record [OF codec_bounded], rule partial_last [OF codec_set [OF codec_detached_signature]], auto)
  have "canonical_codec (\<lambda>x. wthen (write_bytes ''SignedEnvelopeBody.body_frame'' (env_body_frame x))
        (write_canonical_set ''SignedEnvelopeBody.signatures'' write_detached_signature (env_signatures x)))
      read_signed_envelope_body adm_signed_envelope_body"
    unfolding adm_signed_envelope_body_def [abs_def]
  proof (rule codec_restrict [OF base])
    show "read_signed_envelope_body d = Inr (x, d') \<longleftrightarrow> ?r d = Inr (x, d') \<and>
        (\<exists>domain. peek_frame_domain (env_body_frame x) (dec_limits d) = Inr domain \<and>
           (\<forall>s \<in> set (env_signatures x). id_domain (sig_body_id s) = domain))" if "in_bounds d" for d x d'
    proof -
      have "dec_limits d1 = dec_limits d"
        if "read_bounded ''SignedEnvelopeBody.body_frame'' MAX_CARRIED_BODY_LEN d = Inr (frame, d1)" for frame d1
        using that by (auto simp: canonical_codec.reads [OF codec_bounded [of "[]"] \<open>in_bounds d\<close>])
      then show ?thesis
        unfolding read_signed_envelope_body_def
        by (fastforce simp: dbind_def dcheck_def dreturn_def check_domains_iff)
    qed
  qed
  then show ?thesis
    unfolding write_signed_envelope_body_def [abs_def]
    by (rule codec_guarded) (simp add: adm_signed_envelope_body_def adm_bounded_def)
qed

interpretation envelope_body: framed_body signed_envelope_body_schema adm_signed_envelope_body
  by (simp add: framed_body_def signed_envelope_body_schema_def codec_signed_envelope_body)

end
