(* ===== verification/Codec_Properties.thy ===== *)
theory Codec_Properties
  imports Codec_Envelope
begin

text \<open>
  The properties of the canonical codec, over the bodies the repository publishes.
\<close>

section \<open>Lemmas across the codec theories\<close>

lemma write_header_iff:
  "pair_writer write_header (write_bytes ''payload'') (h, p) [] = Inr frame \<longleftrightarrow>
     (\<exists>a b. write_header h [] = Inr a \<and> write_bytes ''payload'' p [] = Inr b \<and> frame = a @ b)"
  using pair_writer_iff [OF codec_header codec_bytes, of "''payload''" "(h, p)" "[]" frame] by simp

text \<open>No frame extends another one.\<close>

lemma split_frame_prefix_free:
  assumes "split_frame frame limits = Inr x" "split_frame (frame @ extra) limits = Inr y"
  shows "extra = []"
proof -
  note codec = codec_pair [OF codec_header codec_bytes, of "''payload''" "''payload''"]
  obtain h p k q where xy: "x = (h, p)" "y = (k, q)"
    by (metis surj_pair)
  with assms have "pair_writer write_header (write_bytes ''payload'') (h, p) [] = Inr frame"
      "pair_writer write_header (write_bytes ''payload'') (k, q) [] = Inr (frame @ extra)"
      "adm_header limits 0 h \<and> adm_bytes limits 0 p" "adm_header limits 0 k \<and> adm_bytes limits 0 q"
    by (simp_all add: split_frame_iff)
  with canonical_codec.prefix_free [OF codec, of limits "(h, p)" frame "(k, q)" "frame @ extra"]
  show ?thesis
    by simp
qed

lemma decode_split: "decode_body B frame limits = Inr x \<Longrightarrow> \<exists>y. split_frame frame limits = Inr y"
  by (erule decode_body_split) blast

text \<open>The identity of a frame is the identity of the body it decodes to.\<close>

context framed_body
begin

lemma frame_identity:
  assumes "decode_body B frame limits = Inr x"
  shows "body_id_of_frame identify frame limits = body_id identify B x"
proof -
  from assms obtain b where b: "canonical_body_bytes B x = Inr b" "frame_fits limits B b frame"
      "encode_body B x = Inr frame"
    by (auto simp: decode_iff)
  then have "split_frame frame limits =
      Inr (\<lparr>fh_codec_minor = CODEC_MINOR, fh_domain = body_DOMAIN B, fh_schema = body_schema_id B\<rparr>, b)"
    by (simp add: split_frame_iff encode_body_def write_frame_header frame_fits_def body_schema_id_def
        adm_header_def adm_schema_id_def)
  with b(1) show ?thesis
    by (simp add: body_id_of_frame_def body_id_def)
qed

end

section \<open>Envelopes\<close>

lemma attach_iff:
  "attach env s limits = Inr env' \<longleftrightarrow>
     peek_frame_domain (env_body_frame env) limits = Inr (id_domain (sig_body_id s)) \<and>
     env' = env\<lparr>env_signatures := env_signatures env @ [s]\<rparr>"
  by (cases "peek_frame_domain (env_body_frame env) limits") (auto simp: attach_def)

lemma attach_all:
  "try_fold (\<lambda>env s. attach env s limits) env sigs = Inr env' \<longleftrightarrow>
     env' = env\<lparr>env_signatures := env_signatures env @ sigs\<rparr> \<and>
     (sigs \<noteq> [] \<longrightarrow> (\<exists>domain. peek_frame_domain (env_body_frame env) limits = Inr domain \<and>
        (\<forall>s \<in> set sigs. id_domain (sig_body_id s) = domain)))"
proof (induction sigs arbitrary: env)
  case (Cons s sigs)
  show ?case
    by (auto simp: attach_iff Cons.IH)
qed auto

lemma envelope_payload_perm:
  assumes "mset ss = mset (env_signatures env)" "write_signed_envelope_body env [] = Inr p"
  shows "write_signed_envelope_body (env\<lparr>env_signatures := ss\<rparr>) [] = Inr p"
  using assms write_canonical_set_perm [OF assms(1) [symmetric]]
  by (auto simp: write_signed_envelope_body_def wthen_def split: if_splits)

lemma envelope_canonical:
  assumes payload: "canonical_body_bytes signed_envelope_body_schema env = Inr p"
    and "encode_body signed_envelope_body_schema env = Inr wire" "frame_fits limits signed_envelope_body_schema p wire"
    and domain: "peek_frame_domain (env_body_frame env) limits = Inr domain"
      "\<forall>s \<in> set (env_signatures env). id_domain (sig_body_id s) = domain"
    and sizes: "adm_bounded MAX_CARRIED_BODY_LEN limits 0 (env_body_frame env)"
      "adm_collection limits 0 (length (env_signatures env))"
      "\<forall>s \<in> set (env_signatures env). adm_detached_signature limits 1 s"
  obtains ss where "mset ss = mset (env_signatures env)"
    "decode_body signed_envelope_body_schema wire limits = Inr (env\<lparr>env_signatures := ss\<rparr>)"
proof -
  from payload have p: "write_signed_envelope_body env [] = Inr p"
    by (simp add: canonical_body_bytes_def signed_envelope_body_schema_def)
  then obtain out e where "write_canonical_set ''SignedEnvelopeBody.signatures'' write_detached_signature
      (env_signatures env) out = Inr e"
    by (auto simp: write_signed_envelope_body_def wthen_def split: if_splits)
  then obtain e where "write_canonical_set ''SignedEnvelopeBody.signatures'' write_detached_signature
      (env_signatures env) [] = Inr e"
    by (auto simp: write_canonical_set_iff)
  from canonical_order [OF this sizes(2), of adm_detached_signature] sizes(3)
  obtain ss where ss: "mset ss = mset (env_signatures env)"
      "adm_set write_detached_signature adm_detached_signature limits 0 ss"
    by auto
  let ?env = "env\<lparr>env_signatures := ss\<rparr>"
  have "write_signed_envelope_body ?env [] = Inr p"
    by (rule envelope_payload_perm [OF ss(1) p])
  then have same: "canonical_body_bytes signed_envelope_body_schema ?env = Inr p"
    by (simp add: canonical_body_bytes_def signed_envelope_body_schema_def)
  moreover have "adm_signed_envelope_body limits 0 ?env"
    using domain ss sizes(1) mset_eq_setD [OF ss(1)] by (simp add: adm_signed_envelope_body_def)
  moreover have "encode_body signed_envelope_body_schema ?env = Inr wire"
    using assms(2) payload same by (simp add: encode_body_def)
  ultimately show ?thesis
    using envelope_body.encode_decode [of limits ?env p wire] assms(3) ss(1) that by blast
qed

section \<open>Sample bodies\<close>

definition sample_configuration :: incarnation_configuration_body where
  "sample_configuration =
     \<lparr>ic_root_layout = RefStateMerkleV1, ic_object_format = Alg_Sha256,
      ic_repository_incarnation_id = OpaqueId (replicate 16 7)\<rparr>"

definition sample_frame :: bytes where
  "sample_frame =
     bytes_of ''FGC1'' @ [0, 1, 0, 0] @ [0, 0, 0, 38] @ bytes_of ''frankengit/repository-configuration/v1'' @
     [0, 0, 0, 24] @ bytes_of ''repository-configuration'' @ [0, 2, 0, 0] @
     [0, 0, 0, 20] @ [0, 1, 0, 2] @ replicate 16 7"

text \<open>The same repository's later configuration, with a policy root this build's 2.0 reader does not know.\<close>

definition sample_successor :: incarnation_configuration_body_v2_1 where
  "sample_successor =
     \<lparr>iv_root_layout = RefStateMerkleV1, iv_object_format = Alg_Sha256,
      iv_repository_incarnation_id = OpaqueId (replicate 16 7),
      iv_policy_root = Some (Digest (DigestAlgorithmId 2) (DigestBytes (replicate 32 9)))\<rparr>"

definition sample_successor_frame :: bytes where
  "sample_successor_frame =
     bytes_of ''FGC1'' @ [0, 1, 0, 0] @ [0, 0, 0, 38] @ bytes_of ''frankengit/repository-configuration/v1'' @
     [0, 0, 0, 24] @ bytes_of ''repository-configuration'' @ [0, 2, 0, 1] @
     [0, 0, 0, 59] @ [0, 1, 0, 2] @ replicate 16 7 @ [1, 0, 2, 0, 0, 0, 32] @ replicate 32 9"

definition sample_digest :: "u8 \<Rightarrow> digest" where
  "sample_digest b = Digest (DigestAlgorithmId 2) (DigestBytes (replicate 32 b))"

definition sample_head :: repository_authority_head_body where
  "sample_head =
     \<lparr>ah_repository_id = OpaqueId (replicate 16 1), ah_generation = Counter 1,
      ah_predecessor_head_id = None, ah_decision_tail_id = None, ah_latest_decision_sequence = None,
      ah_latest_committed_rcr_id = None, ah_latest_repository_sequence = None,
      ah_ref_root = sample_digest 2, ah_forge_position_root = sample_digest 3,
      ah_outcome_index_root = sample_digest 4, ah_retention_root = sample_digest 5,
      ah_outbox_root = sample_digest 6, ah_configuration_root = sample_digest 7,
      ah_policy_epoch = Counter 1, ah_format_registry_epoch = Counter 1, ah_last_checkpoint_id = None\<rparr>"

definition sample_head_frame :: bytes where
  "sample_head_frame = projr (encode_body repository_authority_head_body_schema sample_head)"

lemma sample_decodes:
  "decode_body incarnation_configuration_body_schema sample_frame limits_DEFAULT = Inr sample_configuration"
  by code_simp

lemma sample_head_decodes:
  "decode_body repository_authority_head_body_schema sample_head_frame limits_DEFAULT = Inr sample_head"
  by code_simp

section \<open>Frames and values correspond one to one\<close>

text \<open>\<open>frame\<close> is the frame the encoder writes for \<open>x\<close>, well formed and within the limits.\<close>

definition canonical_frame ::
  "decode_limits \<Rightarrow> 'b canonical_body \<Rightarrow> (decode_limits \<Rightarrow> u32 \<Rightarrow> 'b \<Rightarrow> bool) \<Rightarrow> 'b \<Rightarrow> bytes \<Rightarrow> bool" where
  "canonical_frame limits B adm x frame \<longleftrightarrow>
     adm limits 0 x \<and> (\<exists>b. canonical_body_bytes B x = Inr b \<and> frame_fits limits B b frame) \<and>
     encode_body B x = Inr frame"

text \<open>
  C16: An authority head has exactly one frame. A byte string decodes to a head precisely when it is
  what the encoder writes for it, the head's fields are well formed and the limits admit the frame.
\<close>

theorem one_frame_per_head:
  "decode_body repository_authority_head_body_schema frame limits = Inr x \<longleftrightarrow>
     canonical_frame limits repository_authority_head_body_schema adm_repository_authority_head_body x frame"
  unfolding canonical_frame_def by (rule head_body.decode_iff)

text \<open>
  C17: The same for the history a head names: a frame decodes to a decision batch, a commit record, a
  transaction seal or a refusal record precisely when it is the one frame the encoder writes for it,
  the order of a batch's decisions and commit records included.
\<close>

theorem one_frame_per_record:
  "(decode_body decision_batch_body_schema frame limits = Inr batch \<longleftrightarrow>
      canonical_frame limits decision_batch_body_schema adm_decision_batch_body batch frame) \<and>
   (decode_body commit_record_body_schema frame limits = Inr commit_record \<longleftrightarrow>
      canonical_frame limits commit_record_body_schema adm_commit_record_body commit_record frame) \<and>
   (decode_body transaction_seal_body_schema frame limits = Inr seal \<longleftrightarrow>
      canonical_frame limits transaction_seal_body_schema adm_transaction_seal_body seal frame) \<and>
   (decode_body refusal_record_body_schema frame limits = Inr refusal_body \<longleftrightarrow>
      canonical_frame limits refusal_record_body_schema adm_refusal_record_body refusal_body frame)"
  unfolding canonical_frame_def
  by (intro conjI batch_body.decode_iff commit_body.decode_iff seal_body.decode_iff refusal_body.decode_iff)

text \<open>
  C18: A configuration written by a later minor is carried through unchanged: what the preserving decoder
  read re-encodes to the very bytes it came from, and it kept bytes it did not understand only from a
  frame that declares a later minor.
\<close>

theorem later_minors_are_preserved:
  assumes "decode_body_preserving incarnation_configuration_body_schema frame limits = Inr x"
  shows "encode_preserved incarnation_configuration_body_schema x = Inr frame \<and>
    (has_unknown_fields x \<longrightarrow> body_SCHEMA_MINOR incarnation_configuration_body_schema < db_schema_minor x)"
  using assms by (simp add: incarnation_body.decode_preserving_iff has_unknown_fields_def)

theorem later_minors_are_preserved_witness:
  "\<exists>x. decode_body_preserving incarnation_configuration_body_schema sample_successor_frame limits_DEFAULT = Inr x \<and>
     has_unknown_fields x \<and> encode_preserved incarnation_configuration_body_schema x = Inr sample_successor_frame"
proof -
  let ?x = "\<lparr>db_body = sample_configuration, db_codec_minor = 0, db_schema_minor = 1,
    db_unknown_suffix = [1, 0, 2, 0, 0, 0, 32] @ replicate 32 9\<rparr>"
  have "decode_body_preserving incarnation_configuration_body_schema sample_successor_frame limits_DEFAULT = Inr ?x"
    by code_simp
  from this later_minors_are_preserved [OF this] show ?thesis
    by (intro exI [of _ ?x]) (simp add: has_unknown_fields_def)
qed

text \<open>
  C19: Bytes never change their meaning: a frame that one schema decodes is refused by every schema with
  another domain, family, major or minor version, under the same limits.
\<close>

theorem schemas_are_never_confused:
  assumes "decode_body B frame limits = Inr x"
    and "body_DOMAIN B \<noteq> body_DOMAIN C \<or> body_schema_id B \<noteq> body_schema_id C"
  shows "\<exists>e. decode_body C frame limits = Inl e"
proof (cases "decode_body C frame limits")
  case (Inr y)
  with decode_same_schema [OF assms(1) Inr] assms(2) show ?thesis
    by simp
qed simp

theorem schemas_are_never_confused_witness:
  "\<exists>e. decode_body incarnation_configuration_body_v2_1_schema sample_frame limits_DEFAULT = Inl e"
  by (rule schemas_are_never_confused [OF sample_decodes])
    (simp add: body_schema_id_def incarnation_configuration_body_schema_def
      incarnation_configuration_body_v2_1_schema_def)

text \<open>
  C20: Nothing may follow a frame: once a frame decodes, no longer byte string that starts with it does,
  whatever body the caller expects.
\<close>

theorem nothing_follows_a_frame:
  assumes "decode_body B frame limits = Inr x" "extra \<noteq> []"
  shows "\<exists>e. decode_body C (frame @ extra) limits = Inl e"
proof (cases "decode_body C (frame @ extra) limits")
  case (Inr y)
  with decode_split [OF assms(1)] decode_split [OF Inr] assms(2) show ?thesis
    by (auto dest: split_frame_prefix_free)
qed simp

theorem nothing_follows_a_frame_witness:
  "\<exists>e. decode_body incarnation_configuration_body_schema (sample_frame @ [0]) limits_DEFAULT = Inl e"
  by (rule nothing_follows_a_frame [OF sample_decodes]) simp

text \<open>
  C21: The identity of a head does not depend on how it travelled: computed from the frame it arrived in,
  under any identity construction, it is the identity of the head itself.
\<close>

theorem identity_survives_framing:
  assumes "decode_body repository_authority_head_body_schema frame limits = Inr x"
  shows "body_id_of_frame identify frame limits = body_id identify repository_authority_head_body_schema x \<and>
    body_id_of_frame_as identify repository_authority_head_body_schema frame limits =
      body_id identify repository_authority_head_body_schema x"
proof -
  from assms obtain payload where "split_frame frame limits = Inr (\<lparr>fh_codec_minor = CODEC_MINOR,
      fh_domain = body_DOMAIN repository_authority_head_body_schema, fh_schema = body_schema_id repository_authority_head_body_schema\<rparr>, payload)"
    by (rule decode_body_split)
  then have "body_id_of_frame_as identify repository_authority_head_body_schema frame limits = body_id_of_frame identify frame limits"
    by (simp add: body_id_of_frame_def body_id_of_frame_as_def body_schema_id_def)
  then show ?thesis
    by (simp add: head_body.frame_identity [OF assms])
qed

theorem identity_survives_framing_witness:
  "body_id_of_frame (\<lambda>domain schema version body. Inr (InternalObjectId (DigestAlgorithmId 2) domain version
        (DigestBytes (take 32 body)))) sample_head_frame limits_DEFAULT =
   body_id (\<lambda>domain schema version body. Inr (InternalObjectId (DigestAlgorithmId 2) domain version
        (DigestBytes (take 32 body)))) repository_authority_head_body_schema sample_head"
  using identity_survives_framing [OF sample_head_decodes] by blast

section \<open>Envelopes, collections and bounds\<close>

text \<open>
  C22: Signing changes nothing. Whatever signatures are attached to a sealed body, and in whatever order,
  the envelope's wire form decodes, carries the same signatures, and yields the same body under the same
  identity.
\<close>

theorem signatures_never_change_the_body:
  assumes "framed_body B adm" "envelope_seal B x = Inr sealed"
    and "decode_body B (env_body_frame sealed) limits = Inr x"
    and "try_fold (\<lambda>env s. attach env s limits) sealed sigs = Inr env"
    and "canonical_body_bytes signed_envelope_body_schema env = Inr payload"
    and "encode_body signed_envelope_body_schema env = Inr wire"
    and "frame_fits limits signed_envelope_body_schema payload wire"
    and "adm_bounded MAX_CARRIED_BODY_LEN limits 0 (env_body_frame sealed)"
    and "adm_collection limits 0 (length sigs)" "\<forall>s \<in> set sigs. adm_detached_signature limits 1 s"
  shows "\<exists>env'. decode_body signed_envelope_body_schema wire limits = Inr env' \<and>
    mset (env_signatures env') = mset sigs \<and> carried_body B env' limits = Inr x \<and>
    carried_body_id identify env' limits = body_id identify B x"
proof -
  from assms(2) have none: "env_signatures sealed = []"
    by (auto simp: envelope_seal_def)
  have "\<exists>y. decode_body_preserving B (env_body_frame sealed) limits = Inr y"
    using assms(3) by (auto simp: decode_body_def)
  then have peek: "peek_frame_domain (env_body_frame sealed) limits = Inr (body_DOMAIN B)"
    by (auto dest: decode_domain)
  with assms(4) none have env: "env = sealed\<lparr>env_signatures := sigs\<rparr>"
      "\<forall>s \<in> set sigs. id_domain (sig_body_id s) = body_DOMAIN B"
    by (auto simp: attach_all)
  obtain ss where "mset ss = mset sigs"
      "decode_body signed_envelope_body_schema wire limits = Inr (env\<lparr>env_signatures := ss\<rparr>)"
    by (rule envelope_canonical [OF assms(5-7), of "body_DOMAIN B"]) (use env peek assms(8-10) in simp_all)
  moreover have "body_id_of_frame identify (env_body_frame sealed) limits = body_id identify B x"
    by (rule framed_body.frame_identity [OF assms(1,3)])
  ultimately show ?thesis
    using assms(3) env(1) by (auto simp: carried_body_def carried_body_id_def)
qed

definition sample_signature :: "u8 \<Rightarrow> detached_signature" where
  "sample_signature b =
     \<lparr>sig_scheme = SignatureSchemeId 1, sig_key_id = [b],
      sig_body_id = InternalObjectId (DigestAlgorithmId 2) (slug ''frankengit/repository-configuration/v1'')
        (CodecVersion 1 0) (DigestBytes (replicate 32 b)), sig_signature = [b, b]\<rparr>"

definition sample_envelope :: signed_envelope_body where
  "sample_envelope =
     \<lparr>env_body_frame = sample_frame, env_signatures = [sample_signature 5, sample_signature 4]\<rparr>"

definition sample_envelope_payload :: bytes where
  "sample_envelope_payload =
     [0, 0, 0, 106] @ sample_frame @ [0, 0, 0, 2] @
     concat (map (\<lambda>b. [0, 1, 0, 0, 0, 1, b, 0, 2, 0, 0, 0, 38] @ bytes_of ''frankengit/repository-configuration/v1'' @
        [0, 1, 0, 0, 0, 0, 0, 32] @ replicate 32 b @ [0, 0, 0, 2, b, b]) [4, 5])"

lemma carried_code [code]:
  "write_signed_envelope_body x out =
     (if 8388608 < int (length (env_body_frame x))
      then Inl (ValueUnrepresentable ''SignedEnvelopeBody.body_frame'' (clamp_u64 (length (env_body_frame x)))
             (clamp_u64 MAX_CARRIED_BODY_LEN))
      else
        wthen (write_bytes ''SignedEnvelopeBody.body_frame'' (env_body_frame x))
        (write_canonical_set ''SignedEnvelopeBody.signatures'' write_detached_signature (env_signatures x)) out)"
  by (simp add: write_signed_envelope_body_def MAX_CARRIED_BODY_LEN_def)

lemma sample_payload: "write_signed_envelope_body sample_envelope [] = Inr sample_envelope_payload"
  by code_simp

lemma sample_attached:
  "envelope_seal incarnation_configuration_body_schema sample_configuration =
     Inr \<lparr>env_body_frame = sample_frame, env_signatures = []\<rparr>"
  "try_fold (\<lambda>env s. attach env s limits_DEFAULT) \<lparr>env_body_frame = sample_frame, env_signatures = []\<rparr>
     [sample_signature 5, sample_signature 4] = Inr sample_envelope"
  by code_simp+

lemma length_sample_frame [simp]: "length sample_frame = 106"
  by (simp add: sample_frame_def bytes_of_def)

lemma length_sample_payload [simp]: "length sample_envelope_payload = 308"
  by (simp add: sample_envelope_payload_def bytes_of_def)

lemma sample_wire:
  "\<exists>wire. encode_body signed_envelope_body_schema sample_envelope = Inr wire \<and> length wire = 376"
  using sample_payload
  by (simp add: encode_body_def canonical_body_bytes_def signed_envelope_body_schema_def write_frame_def wthen_def
     write_raw_def write_scalar_def write_domain_tag_def write_bytes_def write_count_def write_schema_id_def
     bytes_of_def FRAME_MAGIC_def to_be_bytes_def)

lemma sample_admitted:
  "adm_slug limits_DEFAULT d (slug ''frankengit/signed-envelope/v1'')"
  "adm_slug limits_DEFAULT d (slug ''signed-envelope'')"
  "adm_detached_signature limits_DEFAULT d (sample_signature b)"
  by (simp_all add: adm_slug_def slug_wf_def adm_bytes_def limits_DEFAULT_def bytes_of_def byte_is_permitted_def
      MAX_LABEL_LEN_def adm_detached_signature_def adm_scheme_def adm_bounded_def sample_signature_def
      adm_internal_object_id_def registered_def registered_digest_len_def adm_algorithm_def adm_digest_bytes_def
      MIN_DIGEST_LEN_def MAX_DIGEST_LEN_def MAX_KEY_ID_LEN_def MAX_SIGNATURE_LEN_def)

theorem signatures_never_change_the_body_witness:
  "\<exists>wire env'. encode_body signed_envelope_body_schema sample_envelope = Inr wire \<and>
     decode_body signed_envelope_body_schema wire limits_DEFAULT = Inr env' \<and>
     carried_body incarnation_configuration_body_schema env' limits_DEFAULT = Inr sample_configuration"
proof -
  obtain wire where wire: "encode_body signed_envelope_body_schema sample_envelope = Inr wire" "length wire = 376"
    using sample_wire by blast
  have payload: "canonical_body_bytes signed_envelope_body_schema sample_envelope = Inr sample_envelope_payload"
    using sample_payload by (simp add: canonical_body_bytes_def signed_envelope_body_schema_def)
  have fits: "frame_fits limits_DEFAULT signed_envelope_body_schema sample_envelope_payload wire"
    using wire(2) sample_admitted(1,2)
    by (simp add: frame_fits_def signed_envelope_body_schema_def adm_bytes_def limits_DEFAULT_def clamp_u64_def)
  have "\<exists>env'. decode_body signed_envelope_body_schema wire limits_DEFAULT = Inr env' \<and>
      mset (env_signatures env') = mset [sample_signature 5, sample_signature 4] \<and>
      carried_body incarnation_configuration_body_schema env' limits_DEFAULT = Inr sample_configuration \<and>
      carried_body_id (\<lambda>_ _ _ _. Inl (MagicUnrecognized [])) env' limits_DEFAULT =
        body_id (\<lambda>_ _ _ _. Inl (MagicUnrecognized [])) incarnation_configuration_body_schema sample_configuration"
    by (rule signatures_never_change_the_body [OF incarnation_body.framed_body_axioms sample_attached(1) _
          sample_attached(2) payload wire(1) fits])
      (use sample_decodes sample_admitted(3) in \<open>simp_all add: adm_bounded_def adm_bytes_def adm_collection_def
          limits_DEFAULT_def MAX_CARRIED_BODY_LEN_def\<close>)
  with wire(1) show ?thesis
    by blast
qed

text \<open>
  C23: An envelope can be built around bytes that are not a frame: a header without a payload passes the
  check of the constructor, although no schema decodes it under those limits.
\<close>

theorem headers_pass_for_frames:
  "(\<exists>env. envelope_from_frame (take 82 sample_frame) limits_DEFAULT = Inr env) \<and>
   (\<exists>e. decode_body B (take 82 sample_frame) limits_DEFAULT = Inl e)"
proof
  show "\<exists>env. envelope_from_frame (take 82 sample_frame) limits_DEFAULT = Inr env"
    by (rule exI [of _ "\<lparr>env_body_frame = take 82 sample_frame, env_signatures = []\<rparr>"]) code_simp
  have "split_frame (take 82 sample_frame) limits_DEFAULT = Inl (InputTruncated ''payload'' 4 0 82)"
    by code_simp
  then show "\<exists>e. decode_body B (take 82 sample_frame) limits_DEFAULT = Inl e"
    using decode_split [of B "take 82 sample_frame" limits_DEFAULT]
    by (cases "decode_body B (take 82 sample_frame) limits_DEFAULT") auto
qed

text \<open>
  What the value types of a head promise: a digest has a nonzero algorithm and a length within the bounds,
  the one its algorithm declares (only a code point of the range reserved for the corpus declares none); an
  identity is such a digest pinned to the domain of its type; a counter is not zero.
\<close>

definition digest_typed :: "digest_algorithm_id \<Rightarrow> digest_bytes \<Rightarrow> bool" where
  "digest_typed a b \<longleftrightarrow>
     algorithm_code_point a \<noteq> 0 \<and> MIN_DIGEST_LEN \<le> length (digest_body b) \<and> length (digest_body b) \<le> MAX_DIGEST_LEN \<and>
     (case registered_digest_len a of None \<Rightarrow> 65520 \<le> algorithm_code_point a | Some width \<Rightarrow> length (digest_body b) = width)"

definition root_typed :: "digest \<Rightarrow> bool" where
  "root_typed d \<longleftrightarrow> digest_typed (digest_algorithm d) (digest_value d)"

definition id_typed :: "string \<Rightarrow> 'd derived_id \<Rightarrow> bool" where
  "id_typed domain i \<longleftrightarrow>
     id_domain (as_internal_object_id i) = slug domain \<and>
     digest_typed (id_algorithm (as_internal_object_id i)) (id_digest (as_internal_object_id i))"

definition counter_typed :: "'d counter \<Rightarrow> bool" where
  "counter_typed c \<longleftrightarrow> counter_get c \<noteq> 0"

lemma root_typed_adm: "adm_digest limits depth d \<Longrightarrow> root_typed d"
  by (simp add: adm_digest_def root_typed_def digest_typed_def registered_def adm_algorithm_def adm_digest_bytes_def)

lemma id_typed_adm: "adm_option (adm_derived domain) limits depth v \<Longrightarrow> pred_option (id_typed domain) v"
  by (cases v)
    (auto simp: adm_option_def adm_derived_def adm_internal_object_id_def id_typed_def digest_typed_def registered_def
      adm_algorithm_def adm_digest_bytes_def ascii_slug.expand)

lemma counter_typed_adm:
  "adm_counter limits depth c \<Longrightarrow> counter_typed c"
  "adm_option adm_counter limits depth v \<Longrightarrow> pred_option counter_typed v"
  by (cases v; auto simp: adm_option_def adm_counter_def counter_typed_def)+

text \<open>
  C24: A decoded head is well typed in each of its sixteen fields: the repository identity has its width,
  the four optional identities are pinned to the domains of heads, decision batches, commit records and
  capsules, the three counters and the two optional sequences are not zero, and the six roots have the
  width their algorithm declares.
\<close>

theorem decoded_heads_are_well_typed:
  assumes "decode_body repository_authority_head_body_schema frame limits = Inr x"
  shows "length (opaque_bytes (ah_repository_id x)) = OPAQUE_ID_LEN \<and>
    counter_typed (ah_generation x) \<and>
    pred_option (id_typed ''frankengit/authority-head/v1'') (ah_predecessor_head_id x) \<and>
    pred_option (id_typed ''frankengit/decision-batch/v1'') (ah_decision_tail_id x) \<and>
    pred_option counter_typed (ah_latest_decision_sequence x) \<and>
    pred_option (id_typed ''frankengit/rcr/v1'') (ah_latest_committed_rcr_id x) \<and>
    pred_option counter_typed (ah_latest_repository_sequence x) \<and>
    root_typed (ah_ref_root x) \<and> root_typed (ah_forge_position_root x) \<and> root_typed (ah_outcome_index_root x) \<and>
    root_typed (ah_retention_root x) \<and> root_typed (ah_outbox_root x) \<and> root_typed (ah_configuration_root x) \<and>
    counter_typed (ah_policy_epoch x) \<and> counter_typed (ah_format_registry_epoch x) \<and>
    pred_option (id_typed ''frankengit/repository-capsule/v1'') (ah_last_checkpoint_id x)"
proof -
  from assms obtain depth where adm: "adm_repository_authority_head_body limits depth x"
    by (auto simp: head_body.decode_iff)
  then show ?thesis
    unfolding adm_repository_authority_head_body_def
    by (elim conjE, intro conjI)
      (simp add: adm_opaque_id_def, (erule root_typed_adm id_typed_adm counter_typed_adm)+)
qed

theorem decoded_heads_are_well_typed_witness:
  "counter_typed (ah_generation sample_head) \<and> root_typed (ah_outbox_root sample_head)"
  using decoded_heads_are_well_typed [OF sample_head_decodes] by blast

text \<open>
  C25: A declared count never drives an allocation past the input: what a collection is about to hold is
  bounded by the bytes that remain and by the configured number of elements.
\<close>

theorem counts_are_bounded_by_the_input:
  assumes "in_bounds d" "read_count field d = Inr (n, d')"
  shows "n \<le> dec_remaining d' \<and> n \<le> unat (lim_elements (dec_limits d)) \<and> dec_remaining d' + 4 = dec_remaining d"
proof -
  from assms obtain b where b: "write_scalar (of_nat n :: u32) [] = Inr b" "prefix b (unread d)"
      "d' = advance_by (length b) d" and n: "n \<le> unat (lim_elements (dec_limits d))" "n \<le> dec_remaining d'"
    by (auto simp: read_count_iff)
  have "length b = 4"
    using b(1) by (auto simp: write_scalar_def to_be_bytes_def)
  with b(2,3) n prefix_length_le [OF b(2)] show ?thesis
    by (simp add: dec_remaining_def)
qed

theorem counts_are_bounded_by_the_input_witness:
  "(3 :: nat) \<le> dec_remaining (advance_by 4 (decoder_new [0, 0, 0, 3, 7, 8, 9] limits_MINIMAL))"
proof -
  have "read_count ''items'' (decoder_new [0, 0, 0, 3, 7, 8, 9] limits_MINIMAL) =
      Inr (3, advance_by 4 (decoder_new [0, 0, 0, 3, 7, 8, 9] limits_MINIMAL))"
    by code_simp
  from counts_are_bounded_by_the_input [OF in_bounds_new this] show ?thesis
    by blast
qed

text \<open>
  C26: The order in which a caller built an unordered collection never shows: a set or a map is written to
  the same bytes in every order of its members.
\<close>

theorem collections_forget_their_order:
  "(mset xs = mset ys \<longrightarrow> write_canonical_set field w xs out = Inr e \<longrightarrow>
      write_canonical_set field w ys out = Inr e) \<and>
   (mset es = mset fs \<longrightarrow> write_canonical_map field wk wv es out = Inr e' \<longrightarrow>
      write_canonical_map field wk wv fs out = Inr e')"
  using write_canonical_set_perm write_canonical_map_perm by blast

theorem collections_forget_their_order_witness:
  "write_canonical_set ''s'' write_detached_signature [sample_signature 4, sample_signature 5] [] =
   write_canonical_set ''s'' write_detached_signature [sample_signature 5, sample_signature 4] []"
proof -
  have "\<exists>e. write_canonical_set ''s'' write_detached_signature [sample_signature 4, sample_signature 5] [] = Inr e"
    by (rule exI, code_simp)
  then obtain e where e: "write_canonical_set ''s'' write_detached_signature
      [sample_signature 4, sample_signature 5] [] = Inr e" ..
  have "mset [sample_signature 4, sample_signature 5] = mset [sample_signature 5, sample_signature 4]"
    by simp
  with e show ?thesis
    using collections_forget_their_order [THEN conjunct1] by metis
qed

text \<open>
  C27: A retried repository creation is recognised by its request alone: two attempts whose fixed request
  bytes agree differ in nothing but the incarnation the first writer minted.
\<close>

theorem creation_retries_match_exactly:
  assumes "adm_creation_attempt_body limits 0 x" "adm_creation_attempt_body limits 0 y"
    and "fixed_request_bytes x = Inr b" "fixed_request_bytes y = Inr b"
  shows "y = x\<lparr>ca_repository_incarnation_id := ca_repository_incarnation_id y\<rparr>"
  by (rule fixed_request_determines [OF assms])

definition sample_attempt :: "u8 \<Rightarrow> creation_attempt_body" where
  "sample_attempt b =
     \<lparr>ca_tenant_id = OpaqueId (replicate 16 1), ca_repository_id = OpaqueId (replicate 16 2),
      ca_root_layout = LegacyWholeBody, ca_object_format = Alg_Sha1,
      ca_idempotency_key_digest = sample_digest 3, ca_repository_incarnation_id = OpaqueId (replicate 16 b)\<rparr>"

theorem creation_retries_match_exactly_witness:
  "sample_attempt 9 = (sample_attempt 8)\<lparr>ca_repository_incarnation_id := OpaqueId (replicate 16 9)\<rparr>"
proof -
  have adm: "adm_creation_attempt_body limits_DEFAULT 0 (sample_attempt b)" for b
    by (simp add: sample_attempt_def adm_creation_attempt_body_def adm_opaque_id_def OPAQUE_ID_LEN_def
        adm_digest_def sample_digest_def registered_def registered_digest_len_def adm_algorithm_def
        adm_digest_bytes_def adm_bytes_def limits_DEFAULT_def MIN_DIGEST_LEN_def MAX_DIGEST_LEN_def)
  have same: "fixed_request_bytes (sample_attempt 9) = fixed_request_bytes (sample_attempt 8)"
    by (simp add: fixed_request_bytes_def sample_attempt_def)
  obtain b where "fixed_request_bytes (sample_attempt 8) = Inr b"
    by (auto simp: fixed_request_bytes_def sample_attempt_def sample_digest_def wthen_def write_opaque_id_def
        write_raw_def write_root_layout_def write_scalar_def write_object_format_def write_digest_def
        write_digest_bytes_def write_bytes_def write_count_def)
  from creation_retries_match_exactly [OF adm adm this this [folded same]] show ?thesis
    by (simp add: sample_attempt_def)
qed

text \<open>What a reader recovers from the last \<open>k\<close> of the eight bytes of a canonical bit pattern.\<close>

definition wire_bits :: "nat \<Rightarrow> u64 \<Rightarrow> u64" where
  "wire_bits k bits = from_be_bytes (replicate (8 - k) 0 @ drop (8 - k) (to_be_bytes bits))"

lemma wire_bits_id: "k \<le> 8 \<Longrightarrow> unat bits < 256 ^ k \<Longrightarrow> wire_bits k bits = bits"
  by (simp add: wire_bits_def be_bytes_round_trip)

text \<open>
  C28: Integers survive their canonical form at every width. The zigzag map is a bijection of 64-bit words.
  For the signed and the unsigned types of 8, 16 and 32 bits the decoder accepts exactly the bit patterns
  the encoder produces, and the pattern fits in the bytes of its type: reading back as many low bytes gives
  the same bits.
\<close>

theorem signed_integers_round_trip:
  "zigzag_decode (zigzag_encode v) = v \<and> zigzag_encode (zigzag_decode bits) = bits \<and>
   (signed_from_bits ''i8'' bits = Inr (i8 :: 8 word) \<longleftrightarrow> bits = signed_to_bits i8) \<and>
   (signed_from_bits ''i16'' bits = Inr (i16 :: 16 word) \<longleftrightarrow> bits = signed_to_bits i16) \<and>
   (signed_from_bits ''i32'' bits = Inr (i32 :: 32 word) \<longleftrightarrow> bits = signed_to_bits i32) \<and>
   (unsigned_from_bits ''u8'' bits = Inr (u8 :: 8 word) \<longleftrightarrow> bits = ucast u8) \<and>
   (unsigned_from_bits ''u16'' bits = Inr (u16 :: 16 word) \<longleftrightarrow> bits = ucast u16) \<and>
   (unsigned_from_bits ''u32'' bits = Inr (u32 :: 32 word) \<longleftrightarrow> bits = ucast u32) \<and>
   wire_bits 1 (signed_to_bits i8) = signed_to_bits i8 \<and> wire_bits 1 (ucast u8) = ucast u8 \<and>
   wire_bits 2 (signed_to_bits i16) = signed_to_bits i16 \<and> wire_bits 2 (ucast u16) = ucast u16 \<and>
   wire_bits 4 (signed_to_bits i32) = signed_to_bits i32 \<and> wire_bits 4 (ucast u32) = ucast u32"
proof -
  have "wire_bits 1 (signed_to_bits i8) = signed_to_bits i8" "wire_bits 2 (signed_to_bits i16) = signed_to_bits i16"
      "wire_bits 4 (signed_to_bits i32) = signed_to_bits i32"
    using signed_to_bits_fits [of i8] signed_to_bits_fits [of i16] signed_to_bits_fits [of i32]
    by (simp_all add: wire_bits_id)
  moreover have "unat u8 < 256" "unat u16 < 65536" "unat u32 < 4294967296"
    using unsigned_less [of u8] unsigned_less [of u16] unsigned_less [of u32] by simp_all
  then have "wire_bits 1 (ucast u8) = ucast u8" "wire_bits 2 (ucast u16) = ucast u16" "wire_bits 4 (ucast u32) = ucast u32"
    by (simp_all add: wire_bits_id unsigned_ucast_eq take_bit_nat_eq_self)
  ultimately show ?thesis
    by (simp add: zigzag_decode_encode zigzag_encode_decode signed_round_trip unsigned_from_bits_Inr)
qed

end
