(* ===== verification/Sha256.thy ===== *)
theory Sha256
  imports Big_Endian
begin

text \<open>
  SHA-256 as \<open>hashing.rs\<close> of \<open>fgit-crypto\<close> computes it: a streaming hasher with a block buffer, whose
  compression keeps the message schedule in a ring of sixteen words and unrolls eight rounds by renaming.
  It is proved equal to the plain definition, which pads the message and folds the rounds of the standard
  over the full schedule. The two tables of
  constants are checked against the roots of primes they stand for.
\<close>

unbundle bit_operations_syntax

section \<open>The hasher\<close>

definition BLOCK_BYTES :: nat where
  "BLOCK_BYTES = 64"

definition LENGTH_OFFSET :: nat where
  "LENGTH_OFFSET = 56"

text \<open>
  The sources write a 32-bit constant as two groups of four hexadecimal digits, \<open>0xhhhh_llll\<close>; here the
  groups are a pair.
\<close>

definition grouped :: "(u32 \<times> u32) list \<Rightarrow> u32 list" where
  "grouped = map (\<lambda>(high, low). push_bit 16 high OR low)"

definition SHA256_INITIAL_STATE :: "u32 list" where
  "SHA256_INITIAL_STATE = grouped
    [(0x6A09, 0xE667), (0xBB67, 0xAE85), (0x3C6E, 0xF372), (0xA54F, 0xF53A),
     (0x510E, 0x527F), (0x9B05, 0x688C), (0x1F83, 0xD9AB), (0x5BE0, 0xCD19)]"

definition SHA256_ROUND_CONSTANTS :: "u32 list" where
  "SHA256_ROUND_CONSTANTS = grouped
    [(0x428A, 0x2F98), (0x7137, 0x4491), (0xB5C0, 0xFBCF), (0xE9B5, 0xDBA5),
     (0x3956, 0xC25B), (0x59F1, 0x11F1), (0x923F, 0x82A4), (0xAB1C, 0x5ED5),
     (0xD807, 0xAA98), (0x1283, 0x5B01), (0x2431, 0x85BE), (0x550C, 0x7DC3),
     (0x72BE, 0x5D74), (0x80DE, 0xB1FE), (0x9BDC, 0x06A7), (0xC19B, 0xF174),
     (0xE49B, 0x69C1), (0xEFBE, 0x4786), (0x0FC1, 0x9DC6), (0x240C, 0xA1CC),
     (0x2DE9, 0x2C6F), (0x4A74, 0x84AA), (0x5CB0, 0xA9DC), (0x76F9, 0x88DA),
     (0x983E, 0x5152), (0xA831, 0xC66D), (0xB003, 0x27C8), (0xBF59, 0x7FC7),
     (0xC6E0, 0x0BF3), (0xD5A7, 0x9147), (0x06CA, 0x6351), (0x1429, 0x2967),
     (0x27B7, 0x0A85), (0x2E1B, 0x2138), (0x4D2C, 0x6DFC), (0x5338, 0x0D13),
     (0x650A, 0x7354), (0x766A, 0x0ABB), (0x81C2, 0xC92E), (0x9272, 0x2C85),
     (0xA2BF, 0xE8A1), (0xA81A, 0x664B), (0xC24B, 0x8B70), (0xC76C, 0x51A3),
     (0xD192, 0xE819), (0xD699, 0x0624), (0xF40E, 0x3585), (0x106A, 0xA070),
     (0x19A4, 0xC116), (0x1E37, 0x6C08), (0x2748, 0x774C), (0x34B0, 0xBCB5),
     (0x391C, 0x0CB3), (0x4ED8, 0xAA4A), (0x5B9C, 0xCA4F), (0x682E, 0x6FF3),
     (0x748F, 0x82EE), (0x78A5, 0x636F), (0x84C8, 0x7814), (0x8CC7, 0x0208),
     (0x90BE, 0xFFFA), (0xA450, 0x6CEB), (0xBEF9, 0xA3F7), (0xC671, 0x78F2)]"

text \<open>
  A check of the transcription: each entry \<open>w\<close> of a table is the one for which \<open>whole + w / 2 ^ 32\<close> is the
  square root, or the cube root, of its prime, rounded down.
\<close>

definition small_primes :: "int list" where
  "small_primes = filter (\<lambda>n. list_all (\<lambda>d. n < d * d \<or> n mod d \<noteq> 0) [2..17]) [2..311]"

definition root_fraction :: "nat \<Rightarrow> int \<Rightarrow> u32 \<Rightarrow> bool" where
  "root_fraction k p w \<longleftrightarrow>
     list_ex (\<lambda>whole. let r = whole * 2 ^ 32 + uint w in r ^ k \<le> p * 2 ^ (32 * k) \<and> p * 2 ^ (32 * k) < (r + 1) ^ k)
       [1..6]"

lemma initial_state_is_standard: "list_all2 (root_fraction 2) (take 8 small_primes) SHA256_INITIAL_STATE"
  by code_simp

lemma round_constants_are_standard: "list_all2 (root_fraction 3) small_primes SHA256_ROUND_CONSTANTS"
  by code_simp

record sha256_hasher =
  sh_state :: "u32 list"
  sh_buffer :: bytes
  sh_buffered :: nat
  sh_message_bytes :: u64

definition sha256_initial :: sha256_hasher where
  "sha256_initial =
     \<lparr>sh_state = SHA256_INITIAL_STATE, sh_buffer = replicate BLOCK_BYTES 0, sh_buffered = 0, sh_message_bytes = 0\<rparr>"

text \<open>\<open>u32::from_be_bytes\<close>, \<open>to_be_bytes\<close> and \<open>rotate_right\<close>.\<close>

definition u32_from_be :: "bytes \<Rightarrow> u32" where
  "u32_from_be bs = foldl (\<lambda>a b. push_bit 8 a OR ucast b) 0 bs"

definition u32_to_be :: "u32 \<Rightarrow> bytes" where
  "u32_to_be w = map (\<lambda>i. ucast (drop_bit (8 * (3 - i)) w)) [0..<4]"

definition rotate_right :: "nat \<Rightarrow> u32 \<Rightarrow> u32" where
  "rotate_right n w = drop_bit n w OR push_bit (32 - n) w"

text \<open>The first \<open>n\<close> chunks of \<open>width\<close> bytes, and what follows them.\<close>

fun chunks_of :: "nat \<Rightarrow> nat \<Rightarrow> bytes \<Rightarrow> bytes list" where
  "chunks_of width 0 bs = []"
| "chunks_of width (Suc n) bs = take width bs # chunks_of width n (drop width bs)"

definition as_chunks :: "nat \<Rightarrow> bytes \<Rightarrow> bytes list \<times> bytes" where
  "as_chunks width bs =
     (let n = length bs div width in (chunks_of width n bs, drop (n * width) bs))"

text \<open>The schedule word of a round, from the ring of the last sixteen.\<close>

definition schedule_word :: "nat \<Rightarrow> u32 list \<Rightarrow> u32 \<times> u32 list" where
  "schedule_word t ring =
     (if t < 16 then (ring ! t, ring)
      else
        let previous = ring ! ((t + 1) mod 16);
            recent = ring ! ((t + 14) mod 16);
            lower = rotate_right 7 previous XOR rotate_right 18 previous XOR drop_bit 3 previous;
            upper = rotate_right 17 recent XOR rotate_right 19 recent XOR drop_bit 10 recent;
            word = upper + ring ! ((t + 9) mod 16) + lower + ring ! (t mod 16)
        in (word, ring[t mod 16 := word]))"

type_synonym working = "u32 \<times> u32 \<times> u32 \<times> u32 \<times> u32 \<times> u32 \<times> u32 \<times> u32"

text \<open>
  The macro of one round: the values it assigns to its fourth and its eighth variable, the other six
  keep theirs.
\<close>

definition sha256_round ::
  "u32 \<Rightarrow> nat \<Rightarrow> u32 \<Rightarrow> u32 \<Rightarrow> u32 \<Rightarrow> u32 \<Rightarrow> u32 \<Rightarrow> u32 \<Rightarrow> u32 \<Rightarrow> u32 \<Rightarrow> u32 \<times> u32" where
  "sha256_round word t a b c d e f g h =
     (let first = h + (rotate_right 6 e XOR rotate_right 11 e XOR rotate_right 25 e) +
            ((e AND f) XOR (NOT e AND g)) + SHA256_ROUND_CONSTANTS ! t + word;
          second = (rotate_right 2 a XOR rotate_right 13 a XOR rotate_right 22 a) +
            ((a AND b) XOR (a AND c) XOR (b AND c))
      in (d + first, first + second))"

definition working_of :: "u32 list \<Rightarrow> working" where
  "working_of s = (s ! 0, s ! 1, s ! 2, s ! 3, s ! 4, s ! 5, s ! 6, s ! 7)"

definition working_list :: "working \<Rightarrow> u32 list" where
  "working_list w = (case w of (a, b, c, d, e, f, g, h) \<Rightarrow> [a, b, c, d, e, f, g, h])"

text \<open>The body of the loop: eight rounds, each with the variables renamed by one place.\<close>

fun sha256_rounds :: "nat \<Rightarrow> u32 list \<times> working \<Rightarrow> u32 list \<times> working" where
  "sha256_rounds t (ring, a, b, c, d, e, f, g, h) =
     (let (word, ring) = schedule_word t ring; (d, h) = sha256_round word t a b c d e f g h;
          (word, ring) = schedule_word (t + 1) ring; (c, g) = sha256_round word (t + 1) h a b c d e f g;
          (word, ring) = schedule_word (t + 2) ring; (b, f) = sha256_round word (t + 2) g h a b c d e f;
          (word, ring) = schedule_word (t + 3) ring; (a, e) = sha256_round word (t + 3) f g h a b c d e;
          (word, ring) = schedule_word (t + 4) ring; (h, d) = sha256_round word (t + 4) e f g h a b c d;
          (word, ring) = schedule_word (t + 5) ring; (g, c) = sha256_round word (t + 5) d e f g h a b c;
          (word, ring) = schedule_word (t + 6) ring; (f, b) = sha256_round word (t + 6) c d e f g h a b;
          (word, ring) = schedule_word (t + 7) ring; (e, a) = sha256_round word (t + 7) b c d e f g h a
      in (ring, a, b, c, d, e, f, g, h))"

declare sha256_rounds.simps [simp del]

definition sha256_compress :: "u32 list \<Rightarrow> bytes \<Rightarrow> u32 list" where
  "sha256_compress state block =
     (let ring = map u32_from_be (fst (as_chunks 4 block));
          (_, w) = foldl (\<lambda>s t. sha256_rounds t s) (ring, working_of state) [0, 8, 16, 24, 32, 40, 48, 56]
      in map2 (+) state (working_list w))"

definition sh_compress :: "bytes \<Rightarrow> sha256_hasher \<Rightarrow> sha256_hasher" where
  "sh_compress block h = h\<lparr>sh_state := sha256_compress (sh_state h) block\<rparr>"

text \<open>Copying bytes into the buffer at an offset.\<close>

definition copy_into :: "bytes \<Rightarrow> nat \<Rightarrow> bytes \<Rightarrow> bytes" where
  "copy_into buffer offset bs = take offset buffer @ bs @ drop (offset + length bs) buffer"

definition sha256_fill :: "bytes \<Rightarrow> sha256_hasher \<Rightarrow> bytes \<times> sha256_hasher" where
  "sha256_fill chunk h =
     (if 0 < sh_buffered h then
        let n = min (BLOCK_BYTES - sh_buffered h) (length chunk);
            h = h\<lparr>sh_buffer := copy_into (sh_buffer h) (sh_buffered h) (take n chunk), sh_buffered := sh_buffered h + n\<rparr>
        in (drop n chunk,
            if sh_buffered h = BLOCK_BYTES then sh_compress (sh_buffer h) (h\<lparr>sh_buffered := 0\<rparr>) else h)
      else (chunk, h))"

definition sha256_blocks :: "bytes \<Rightarrow> sha256_hasher \<Rightarrow> bytes \<times> sha256_hasher" where
  "sha256_blocks chunk h =
     (if sh_buffered h = 0 then
        let (blocks, tail) = as_chunks BLOCK_BYTES chunk in (tail, foldl (\<lambda>h block. sh_compress block h) h blocks)
      else (chunk, h))"

definition sha256_update :: "sha256_hasher \<Rightarrow> bytes \<Rightarrow> sha256_hasher" where
  "sha256_update h chunk =
     (let (rest1, h1) = sha256_fill chunk h; (rest2, h2) = sha256_blocks rest1 h1 in
      h2\<lparr>sh_buffer := copy_into (sh_buffer h2) (sh_buffered h2) rest2,
         sh_buffered := sh_buffered h2 + length rest2,
         sh_message_bytes := sh_message_bytes h2 + of_nat (length chunk)\<rparr>)"

definition sha256_finish :: "sha256_hasher \<Rightarrow> bytes" where
  "sha256_finish h =
     (let message_bits = sh_message_bytes h * 8;
          buffer = (sh_buffer h)[sh_buffered h := 128];
          buffered = sh_buffered h + 1;
          (state, buffer, buffered) =
            (if LENGTH_OFFSET < buffered then
               let buffer = take buffered buffer @ replicate (BLOCK_BYTES - buffered) 0
               in (sha256_compress (sh_state h) buffer, buffer, 0)
             else (sh_state h, buffer, buffered));
          buffer = take buffered buffer @ replicate (LENGTH_OFFSET - buffered) 0 @ to_be_bytes message_bits
      in concat (map u32_to_be (sha256_compress state buffer)))"

definition sha256_digest :: "bytes \<Rightarrow> bytes" where
  "sha256_digest message = sha256_finish (sha256_update sha256_initial message)"

section \<open>The plain definition\<close>

fun schedule :: "u32 list \<Rightarrow> nat \<Rightarrow> u32" where
  "schedule m t =
     (if t < 16 then m ! t
      else
        let s0 = (\<lambda>x. rotate_right 7 x XOR rotate_right 18 x XOR drop_bit 3 x);
            s1 = (\<lambda>x. rotate_right 17 x XOR rotate_right 19 x XOR drop_bit 10 x)
        in s1 (schedule m (t - 2)) + schedule m (t - 7) + s0 (schedule m (t - 15)) + schedule m (t - 16))"

declare schedule.simps [simp del]

text \<open>A round of the standard: all eight words shift by one place.\<close>

definition big_sigma :: "nat \<Rightarrow> nat \<Rightarrow> nat \<Rightarrow> u32 \<Rightarrow> u32" where
  "big_sigma i j k x = rotate_right i x XOR rotate_right j x XOR rotate_right k x"

definition choice :: "u32 \<Rightarrow> u32 \<Rightarrow> u32 \<Rightarrow> u32" where
  "choice x y z = (x AND y) OR (NOT x AND z)"

definition majority :: "u32 \<Rightarrow> u32 \<Rightarrow> u32 \<Rightarrow> u32" where
  "majority x y z = (x AND y) OR (x AND z) OR (y AND z)"

fun reference_round :: "u32 \<Rightarrow> u32 \<Rightarrow> working \<Rightarrow> working" where
  "reference_round k word (a, b, c, d, e, f, g, h) =
     (h + big_sigma 6 11 25 e + choice e f g + k + word + (big_sigma 2 13 22 a + majority a b c),
      a, b, c, d + (h + big_sigma 6 11 25 e + choice e f g + k + word), e, f, g)"

declare reference_round.simps [simp del]

abbreviation scheduled_round :: "u32 list \<Rightarrow> working \<Rightarrow> nat \<Rightarrow> working" where
  "scheduled_round m w t \<equiv> reference_round (SHA256_ROUND_CONSTANTS ! t) (schedule m t) w"

definition reference_compress :: "u32 list \<Rightarrow> bytes \<Rightarrow> u32 list" where
  "reference_compress state block =
     (let m = map u32_from_be (chunks_of 4 16 block) in
      map2 (+) state (working_list (foldl (scheduled_round m) (working_of state) [0..<64])))"

definition full_blocks :: "bytes \<Rightarrow> bytes list" where
  "full_blocks bs = chunks_of 64 (length bs div 64) bs"

definition unfinished :: "bytes \<Rightarrow> bytes" where
  "unfinished bs = drop (length bs div 64 * 64) bs"

definition sha256_pad :: "bytes \<Rightarrow> bytes" where
  "sha256_pad m =
     m @ [128] @ replicate ((119 - length m mod 64) mod 64) 0 @ to_be_bytes (of_nat (length m) * 8)"

definition reference_sha256 :: "bytes \<Rightarrow> bytes" where
  "reference_sha256 m =
     concat (map u32_to_be (foldl reference_compress SHA256_INITIAL_STATE (full_blocks (sha256_pad m))))"

section \<open>The ring holds the schedule\<close>

definition ring_holds :: "u32 list \<Rightarrow> nat \<Rightarrow> u32 list \<Rightarrow> bool" where
  "ring_holds m n ring \<longleftrightarrow>
     length ring = 16 \<and> (\<forall>j. j < max n 16 \<and> max n 16 - 16 \<le> j \<longrightarrow> ring ! (j mod 16) = schedule m j)"

lemma ring_read:
  assumes "ring_holds m n ring" "16 \<le> n" "0 < k" "k \<le> 16"
  shows "ring ! ((n + 16 - k) mod 16) = schedule m (n - k)"
proof -
  have "(n + 16 - k) mod 16 = (n - k) mod 16"
    using assms(2,4) by (metis Nat.add_diff_assoc2 add.commute le_trans mod_add_self2)
  moreover have "n - k < max n 16 \<and> max n 16 - 16 \<le> n - k"
    using assms(2-4) by auto
  ultimately show ?thesis
    using assms(1) by (simp add: ring_holds_def)
qed

lemma schedule_word_step:
  assumes "ring_holds m n ring"
  shows "\<exists>ring'. schedule_word n ring = (schedule m n, ring') \<and> ring_holds m (Suc n) ring'"
proof (cases "n < 16")
  case True
  with assms have "ring ! n = schedule m n"
    by (auto simp: ring_holds_def dest: spec [of _ n])
  with True assms show ?thesis
    by (simp add: schedule_word_def ring_holds_def max_def)
next
  case False
  then have n: "16 \<le> n"
    by simp
  note read = ring_read [OF assms n]
  have word: "schedule_word n ring = (schedule m n, ring[n mod 16 := schedule m n])"
    using False read [of 15] read [of 2] read [of 7] read [of 16]
    by (simp add: schedule_word_def Let_def schedule.simps [of m n] add.commute [of 14 n] add.commute [of 9 n])
  have "ring_holds m (Suc n) (ring[n mod 16 := schedule m n])"
    unfolding ring_holds_def
  proof (intro conjI allI impI)
    show "length (ring[n mod 16 := schedule m n]) = 16"
      using assms by (simp add: ring_holds_def)
    fix j assume j: "j < max (Suc n) 16 \<and> max (Suc n) 16 - 16 \<le> j"
    show "ring[n mod 16 := schedule m n] ! (j mod 16) = schedule m j"
    proof (cases "j = n")
      case True
      with assms show ?thesis
        by (simp add: ring_holds_def)
    next
      case other: False
      with j n have "j < n" "n - 16 < j"
        by auto
      have "j mod 16 \<noteq> n mod 16"
      proof
        assume "j mod 16 = n mod 16"
        then have "16 dvd n - j"
          using \<open>j < n\<close> mod_eq_dvd_iff_nat [of j n 16] by simp
        then have "16 \<le> n - j"
          using \<open>j < n\<close> by (simp add: dvd_imp_le)
        with \<open>n - 16 < j\<close> n show False
          by simp
      qed
      with assms \<open>j < n\<close> \<open>n - 16 < j\<close> n show ?thesis
        by (auto simp: ring_holds_def max_def)
    qed
  qed
  with word show ?thesis
    by blast
qed

lemma length_chunks_of [simp]: "length (chunks_of width n bs) = n"
  by (induction n arbitrary: bs) auto

text \<open>One round of the source is one round of the standard, and the unrolled loop body is eight.\<close>

lemma choice_xor: "choice x y z = (x AND y) XOR (NOT x AND z)"
  by (rule bit_word_eqI) (auto simp: choice_def bit_simps)

lemma majority_xor: "majority x y z = (x AND y) XOR (x AND z) XOR (y AND z)"
  by (rule bit_word_eqI) (auto simp: majority_def bit_simps)

fun ring_round :: "u32 list \<times> working \<Rightarrow> nat \<Rightarrow> u32 list \<times> working" where
  "ring_round (ring, w) t =
     (case schedule_word t ring of (word, ring) \<Rightarrow>
        (ring, reference_round (SHA256_ROUND_CONSTANTS ! t) word w))"

lemma reference_round_macro:
  "reference_round (SHA256_ROUND_CONSTANTS ! t) word (a, b, c, d, e, f, g, h) =
     (case sha256_round word t a b c d e f g h of (d', h') \<Rightarrow> (h', a, b, c, d', e, f, g))"
  by (simp add: sha256_round_def Let_def reference_round.simps big_sigma_def choice_xor majority_xor)

lemma sha256_rounds_unroll: "sha256_rounds t s = foldl ring_round s [t..<t + 8]"
proof -
  obtain ring a b c d e f g h where s: "s = (ring, a, b, c, d, e, f, g, h)"
    by (metis surj_pair)
  have "[t..<t + 8] = [t, t + 1, t + 2, t + 3, t + 4, t + 5, t + 6, t + 7]"
    by (simp add: upt_rec)
  then show ?thesis
    unfolding s by (simp add: sha256_rounds.simps reference_round_macro Let_def split: prod.split)
qed

lemma sha256_loop:
  "foldl (\<lambda>s t. sha256_rounds t s) s [0, 8, 16, 24, 32, 40, 48, 56] = foldl ring_round s [0..<64]"
proof -
  have "[0..<64] = [0..<8] @ [8..<16] @ [16..<24] @ [24..<32] @ [32..<40] @ [40..<48] @ [48..<56] @ [56..<64]"
    by code_simp
  then show ?thesis
    by (simp add: sha256_rounds_unroll del: upt_rec_numeral)
qed

lemma ring_rounds_schedule:
  assumes "length m = 16"
  shows "\<exists>ring. foldl ring_round (m, w) [0..<n] = (ring, foldl (scheduled_round m) w [0..<n]) \<and> ring_holds m n ring"
proof (induction n)
  case 0
  from assms show ?case
    by (auto simp: ring_holds_def schedule.simps)
next
  case (Suc n)
  then obtain ring where ring: "foldl ring_round (m, w) [0..<n] = (ring, foldl (scheduled_round m) w [0..<n])"
      "ring_holds m n ring"
    by blast
  with schedule_word_step [OF ring(2)] show ?case
    by auto
qed

lemma sha256_compress_reference:
  assumes "length block = 64"
  shows "sha256_compress state block = reference_compress state block"
proof -
  let ?m = "map u32_from_be (chunks_of 4 16 block)"
  obtain ring where "foldl ring_round (?m, working_of state) [0..<64] =
      (ring, foldl (scheduled_round ?m) (working_of state) [0..<64])"
    using ring_rounds_schedule [of ?m "working_of state" 64] by auto
  with assms show ?thesis
    unfolding sha256_compress_def reference_compress_def sha256_loop by (simp add: as_chunks_def Let_def)
qed

section \<open>Streaming\<close>

lemma chunks_of_append:
  "chunks_of width (n + k) bs = chunks_of width n bs @ chunks_of width k (drop (n * width) bs)"
  by (induction n arbitrary: bs) (auto simp: add.commute)

lemma chunks_of_prefix: "n * width \<le> length xs \<Longrightarrow> chunks_of width n (xs @ ys) = chunks_of width n xs"
  by (induction n arbitrary: xs) auto

lemma length_in_chunks: "n * width \<le> length bs \<Longrightarrow> c \<in> set (chunks_of width n bs) \<Longrightarrow> length c = width"
proof (induction n arbitrary: bs)
  case (Suc n)
  from Suc.IH [of "drop width bs"] Suc.prems show ?case
    by auto
qed simp

lemma full_blocks_64: "c \<in> set (full_blocks bs) \<Longrightarrow> length c = 64"
  unfolding full_blocks_def by (rule length_in_chunks [of "length bs div 64" 64 bs]) auto

lemma length_unfinished: "length (unfinished bs) = length bs mod 64"
  by (simp add: unfinished_def modulo_nat_def)

lemma blocks_of_append: "length (m @ c) div 64 = length m div 64 + length (unfinished m @ c) div 64"
proof -
  have "length (m @ c) = length m div 64 * 64 + length (unfinished m @ c)"
    by (simp add: length_unfinished)
  then show ?thesis
    by simp
qed

lemma drop_blocks: "drop (length m div 64 * 64 + k) (m @ c) = drop k (unfinished m @ c)"
  by (simp add: unfinished_def add.commute)

lemma full_blocks_append: "full_blocks (m @ c) = full_blocks m @ full_blocks (unfinished m @ c)"
  using drop_blocks [of m 0 c]
  by (simp add: full_blocks_def blocks_of_append [of m c] chunks_of_append chunks_of_prefix del: length_append)

lemma unfinished_append: "unfinished (m @ c) = unfinished (unfinished m @ c)"
  by (simp add: unfinished_def [of "m @ c"] unfinished_def [of "unfinished m @ c"] blocks_of_append [of m c]
      add_mult_distrib drop_blocks del: length_append drop_append)

lemma full_blocks_short [simp]: "length bs < 64 \<Longrightarrow> full_blocks bs = []" "length bs < 64 \<Longrightarrow> unfinished bs = bs"
  by (simp_all add: full_blocks_def unfinished_def)

lemma full_blocks_one [simp]: "length bs = 64 \<Longrightarrow> full_blocks bs = [bs]" "length bs = 64 \<Longrightarrow> unfinished bs = []"
  by (simp_all add: full_blocks_def unfinished_def)

text \<open>The hasher has absorbed a message: its state folds the full blocks, its buffer starts with the rest.\<close>

definition absorbed :: "bytes \<Rightarrow> sha256_hasher \<Rightarrow> bool" where
  "absorbed m h \<longleftrightarrow>
     sh_state h = foldl sha256_compress SHA256_INITIAL_STATE (full_blocks m) \<and>
     sh_buffered h = length (unfinished m) \<and> take (sh_buffered h) (sh_buffer h) = unfinished m \<and>
     length (sh_buffer h) = 64"

lemma absorbed_initial: "absorbed [] sha256_initial"
  by (simp add: absorbed_def sha256_initial_def BLOCK_BYTES_def)

lemma absorbed_append:
  assumes "absorbed m h" "length (unfinished m @ c) < 64"
  shows "absorbed (m @ c) (h\<lparr>sh_buffer := copy_into (sh_buffer h) (sh_buffered h) c,
    sh_buffered := sh_buffered h + length c\<rparr>)"
  using assms unfolding absorbed_def
  by (auto simp: full_blocks_append [of m c] unfinished_append [of m c] copy_into_def)

lemma absorbed_block:
  assumes "absorbed m h" "length (unfinished m @ c) = 64"
  shows "absorbed (m @ c) (sh_compress (copy_into (sh_buffer h) (sh_buffered h) c)
    (h\<lparr>sh_buffer := copy_into (sh_buffer h) (sh_buffered h) c, sh_buffered := 0\<rparr>))"
  using assms unfolding absorbed_def sh_compress_def
  by (auto simp: full_blocks_append [of m c] unfinished_append [of m c] copy_into_def)

text \<open>Whole blocks when the buffer is empty.\<close>

lemma absorbed_blocks:
  assumes "absorbed m h" "unfinished m = []"
  shows "absorbed (m @ concat (full_blocks c)) (foldl (\<lambda>h block. sh_compress block h) h (full_blocks c)) \<and>
    unfinished (m @ concat (full_blocks c)) = []"
proof -
  have "absorbed (m @ concat bs) (foldl (\<lambda>h block. sh_compress block h) h bs) \<and> unfinished (m @ concat bs) = []"
    if "\<forall>b \<in> set bs. length b = 64" for bs
    using assms that
  proof (induction bs arbitrary: m h)
    case (Cons b bs)
    then have "absorbed (m @ b) (sh_compress b h)" "unfinished (m @ b) = []"
      by (auto simp: absorbed_def sh_compress_def full_blocks_append [of m b] unfinished_append [of m b])
    with Cons.IH [of "m @ b" "sh_compress b h"] Cons.prems show ?case
      by simp
  qed simp
  then show ?thesis
    using full_blocks_64 by blast
qed

lemma concat_chunks: "n * width \<le> length bs \<Longrightarrow> concat (chunks_of width n bs) = take (n * width) bs"
proof (induction n arbitrary: bs)
  case (Suc n)
  from Suc.IH [of "drop width bs"] Suc.prems show ?case
    by (simp add: take_add)
qed simp

lemma blocks_and_rest: "concat (full_blocks c) @ unfinished c = c"
  by (simp add: full_blocks_def unfinished_def concat_chunks)

lemma buffer_first: "h\<lparr>sh_buffered := n, sh_buffer := buffer\<rparr> = h\<lparr>sh_buffer := buffer, sh_buffered := n\<rparr>"
  by simp

lemma absorbed_message_bytes [simp]: "absorbed m (h\<lparr>sh_message_bytes := n\<rparr>) = absorbed m h"
  by (simp add: absorbed_def)

lemma message_bytes_blocks [simp]:
  "sh_message_bytes (foldl (\<lambda>h block. sh_compress block h) h bs) = sh_message_bytes h"
  by (induction bs arbitrary: h) (simp_all add: sh_compress_def)

lemma message_bytes_steps:
  "sh_message_bytes (snd (sha256_fill c h)) = sh_message_bytes h"
  "sh_message_bytes (snd (sha256_blocks c h)) = sh_message_bytes h"
  by (simp add: sha256_fill_def sh_compress_def Let_def) (simp add: sha256_blocks_def split: prod.splits)

lemma as_chunks_64: "as_chunks BLOCK_BYTES c = (full_blocks c, unfinished c)"
  by (simp add: as_chunks_def full_blocks_def unfinished_def BLOCK_BYTES_def Let_def)

lemma absorb_rest:
  assumes "absorbed m h" "unfinished m = []" "sha256_blocks c h = (r, h')"
  shows "absorbed (m @ c) (h'\<lparr>sh_buffer := copy_into (sh_buffer h') (sh_buffered h') r,
    sh_buffered := sh_buffered h' + length r\<rparr>)"
proof -
  from assms(1,2) have "sh_buffered h = 0"
    by (simp add: absorbed_def)
  with assms(3) have split: "r = unfinished c" "h' = foldl (\<lambda>h block. sh_compress block h) h (full_blocks c)"
    by (simp_all add: sha256_blocks_def as_chunks_64)
  have whole: "absorbed (m @ concat (full_blocks c)) h'" "unfinished (m @ concat (full_blocks c)) = []"
    using absorbed_blocks [OF assms(1,2)] by (simp_all add: split(2))
  moreover have "length (unfinished c) < 64"
    by (simp add: length_unfinished)
  ultimately show ?thesis
    using absorbed_append [OF whole(1), of r] by (simp add: split(1) blocks_and_rest)
qed

lemma sha256_update_absorbs:
  assumes h: "absorbed m h"
  shows "absorbed (m @ c) (sha256_update h c)"
proof -
  let ?b = "length (unfinished m)"
  have b: "sh_buffered h = ?b" "?b < 64"
    using h by (simp_all add: absorbed_def length_unfinished)
  consider "?b = 0" | "0 < ?b" "?b + length c < 64" | "0 < ?b" "64 \<le> ?b + length c"
    by linarith
  then show ?thesis
  proof cases
    case 1
    then have "sha256_fill c h = (c, h)"
      by (simp add: sha256_fill_def b)
    with 1 absorb_rest [OF h, of c] show ?thesis
      by (auto simp: sha256_update_def split: prod.splits)
  next
    case 2
    let ?h = "h\<lparr>sh_buffer := copy_into (sh_buffer h) (sh_buffered h) c, sh_buffered := sh_buffered h + length c\<rparr>"
    have "absorbed (m @ c) ?h"
      by (rule absorbed_append [OF h]) (use 2 in simp)
    moreover have "length (unfinished (m @ c) @ []) < 64"
      by (simp add: length_unfinished)
    ultimately have "absorbed (m @ c) (?h\<lparr>sh_buffer := copy_into (sh_buffer ?h) (sh_buffered ?h) [],
        sh_buffered := sh_buffered ?h + length []\<rparr>)"
      using absorbed_append [of "m @ c" ?h "[]"] by simp
    moreover have "sha256_fill c h = ([], ?h)"
      using 2 b by (simp add: sha256_fill_def BLOCK_BYTES_def Let_def)
    moreover have "sha256_blocks [] ?h = ([], ?h)"
      using 2 b by (simp add: sha256_blocks_def)
    ultimately show ?thesis
      by (simp add: sha256_update_def buffer_first)
  next
    case 3
    let ?n = "64 - ?b"
    let ?block = "copy_into (sh_buffer h) (sh_buffered h) (take ?n c)"
    let ?h = "sh_compress ?block (h\<lparr>sh_buffer := ?block, sh_buffered := 0\<rparr>)"
    have full: "length (unfinished m @ take ?n c) = 64"
      using 3 b(2) by simp
    then have "unfinished (m @ take ?n c) = []"
      by (simp add: unfinished_append [of m] del: length_append)
    moreover have "?n \<le> length c"
      using 3(2) by simp
    then have "sha256_fill c h = (drop ?n c, ?h)"
      using 3(1) b by (simp add: sha256_fill_def BLOCK_BYTES_def Let_def min_absorb1)
    ultimately show ?thesis
      using absorb_rest [OF absorbed_block [OF h full], of "drop ?n c"]
      by (auto simp: sha256_update_def append.assoc [symmetric] split: prod.splits)
  qed
qed

lemma sha256_update_bytes: "sh_message_bytes (sha256_update h c) = sh_message_bytes h + of_nat (length c)"
  using message_bytes_steps(1) [of c h] message_bytes_steps(2) [of "fst (sha256_fill c h)" "snd (sha256_fill c h)"]
  by (auto simp: sha256_update_def split: prod.splits)

section \<open>Padding\<close>

lemma length_bits [simp]: "length (to_be_bytes (x :: u64)) = 8"
  by (simp add: to_be_bytes_def)

lemma set_last: "k < length buffer \<Longrightarrow> take k buffer = xs \<Longrightarrow> take (Suc k) (buffer[k := x]) = xs @ [x]"
  by (simp add: take_Suc_conv_app_nth)

lemma foldl_compress_reference:
  "\<forall>b \<in> set bs. length b = 64 \<Longrightarrow> foldl sha256_compress s bs = foldl reference_compress s bs"
  by (induction bs arbitrary: s) (simp_all add: sha256_compress_reference)

lemma padded_blocks_short:
  assumes "length (unfinished m) < 56"
  shows "full_blocks (sha256_pad m) = full_blocks m @
    [unfinished m @ [128] @ replicate (55 - length (unfinished m)) 0 @ to_be_bytes (of_nat (length m) * 8 :: u64)]"
proof -
  have "(119 - length m mod 64) mod 64 = 55 - length (unfinished m)"
    using assms mod_add_self2 [of "55 - length m mod 64" 64] by (simp add: length_unfinished)
  with assms show ?thesis
    by (simp add: sha256_pad_def full_blocks_append [of m])
qed

lemma padded_blocks_long:
  assumes "56 \<le> length (unfinished m)"
  shows "full_blocks (sha256_pad m) = full_blocks m @
    [unfinished m @ [128] @ replicate (63 - length (unfinished m)) 0,
     replicate 56 0 @ to_be_bytes (of_nat (length m) * 8 :: u64)]"
proof -
  let ?b = "length (unfinished m)"
  have b: "?b = length m mod 64" "?b < 64"
    by (simp_all add: length_unfinished)
  let ?first = "unfinished m @ [128] @ replicate (63 - ?b) 0"
  let ?second = "replicate 56 0 @ to_be_bytes (of_nat (length m) * 8 :: u64)"
  have "(119 - length m mod 64) mod 64 = (63 - ?b) + 56"
    using assms b by simp
  then have "sha256_pad m = m @ ([128] @ replicate (63 - ?b) 0 @ ?second)"
    by (simp add: sha256_pad_def replicate_add)
  then have "full_blocks (sha256_pad m) = full_blocks m @ full_blocks (?first @ ?second)"
    by (simp only: full_blocks_append [of m] append.assoc)
  also have "full_blocks (?first @ ?second) = [?first, ?second]"
    using assms b(2) by (simp only: full_blocks_append [of ?first ?second]) simp
  finally show ?thesis .
qed

lemma sha256_finish_reference:
  assumes h: "absorbed m h" and bytes: "sh_message_bytes h = of_nat (length m)"
  shows "sha256_finish h = reference_sha256 m"
proof -
  let ?b = "length (unfinished m)"
  have b: "?b < 64"
    by (simp add: length_unfinished)
  from h have fields: "sh_state h = foldl sha256_compress SHA256_INITIAL_STATE (full_blocks m)"
      "sh_buffered h = ?b" "length (sh_buffer h) = 64" "take ?b (sh_buffer h) = unfinished m"
    by (auto simp: absorbed_def)
  have marked: "take (Suc ?b) ((sh_buffer h)[?b := 128]) = unfinished m @ [128]"
    by (rule set_last [OF _ fields(4)]) (simp add: fields(3) b)
  have reference: "reference_sha256 m = concat (map u32_to_be
      (foldl sha256_compress SHA256_INITIAL_STATE (full_blocks (sha256_pad m))))"
    unfolding reference_sha256_def using foldl_compress_reference full_blocks_64 by metis
  show ?thesis
  proof (cases "?b < 56")
    case True
    then have "\<not> 56 < Suc ?b" "56 - Suc ?b = 55 - ?b"
      by simp_all
    then show ?thesis
      unfolding reference padded_blocks_short [OF True] sha256_finish_def Let_def fields bytes
        LENGTH_OFFSET_def BLOCK_BYTES_def
      by (simp add: marked)
  next
    case False
    then have long: "56 \<le> ?b" and "56 < Suc ?b" "64 - Suc ?b = 63 - ?b"
      by simp_all
    then show ?thesis
      unfolding reference padded_blocks_long [OF long] sha256_finish_def Let_def fields bytes
        LENGTH_OFFSET_def BLOCK_BYTES_def
      by (simp add: marked)
  qed
qed

lemma absorb_chunks:
  assumes "absorbed m h" "sh_message_bytes h = of_nat (length m)"
  shows "absorbed (m @ concat cs) (foldl sha256_update h cs) \<and>
    sh_message_bytes (foldl sha256_update h cs) = of_nat (length (m @ concat cs))"
  using assms
proof (induction cs arbitrary: m h)
  case (Cons c cs)
  from Cons.IH [OF sha256_update_absorbs [OF Cons.prems(1), of c]] Cons.prems(2) show ?case
    by (simp add: sha256_update_bytes)
qed simp

theorem sha256_streaming: "sha256_finish (foldl sha256_update sha256_initial chunks) = reference_sha256 (concat chunks)"
  using absorb_chunks [OF absorbed_initial, of chunks]
  by (intro sha256_finish_reference) (simp_all add: sha256_initial_def)

lemma sha256_digest_reference: "sha256_digest m = reference_sha256 m"
  using sha256_streaming [of "[m]"] by (simp add: sha256_digest_def)

section \<open>The length of a digest\<close>

lemma length_compressed: "length s = 8 \<Longrightarrow> length (foldl sha256_compress s bs) = 8"
  by (induction bs arbitrary: s) (simp_all add: sha256_compress_def working_list_def split: prod.splits)

lemma length_u32_to_be [simp]: "length (u32_to_be w) = 4"
  by (simp add: u32_to_be_def)

lemma length_reference_sha256 [simp]: "length (reference_sha256 m) = 32"
proof -
  have "reference_sha256 m = concat (map u32_to_be
      (foldl sha256_compress SHA256_INITIAL_STATE (full_blocks (sha256_pad m))))"
    unfolding reference_sha256_def using foldl_compress_reference full_blocks_64 by metis
  moreover have "length (foldl sha256_compress SHA256_INITIAL_STATE bs) = 8" for bs
    by (rule length_compressed) (simp add: SHA256_INITIAL_STATE_def grouped_def)
  ultimately show ?thesis
    by (simp add: length_concat comp_def sum_list_triv)
qed

lemma length_sha256_digest [simp]: "length (sha256_digest m) = 32"
  by (simp add: sha256_digest_reference)

end
