(* ===== verification/Body_Identity.thy ===== *)
theory Body_Identity
  imports Codec_Envelope Sha256
begin

text \<open>
  The identities of canonical bodies: the registry of identity domains (\<open>registry.rs\<close> of
  \<open>fgit-crypto\<close>), the length-prefixed preimage that joins domain tag, schema and body, its SHA-256
  digest over the materialised preimage or over ordered parts, the checked comparison with an
  identity that arrived with a body (\<open>body_identity.rs\<close>), and the bridge that makes the construction
  the identity of the codec (\<open>bridge.rs\<close> of \<open>fgit-codec\<close>). The lemmas show that the preimage is
  injective, so that two bodies share an identity only through a collision of SHA-256.
\<close>

unbundle bit_operations_syntax

section \<open>The identity domains (registry.rs)\<close>

datatype (plugins only: code) identity_domain =
    Dom_RefTransaction | Dom_TransactionSeal | Dom_PreparedTransactionCapsule
  | Dom_RepositoryCommitRecord | Dom_RepositoryDecisionBatch | Dom_RepositoryAuthorityHead
  | Dom_RefusalRecord | Dom_RepositoryCapsule | Dom_PrincipalSnapshot
  | Dom_ObjectEnvelope | Dom_SegmentManifest | Dom_ForgeEvent
  | Dom_EvidenceRecord | Dom_Generation | Dom_GitPayloadCommitment
  | Dom_RepositorySegment | Dom_GitObjectMicrosegment | Dom_ForgeCheckpoint
  | Dom_PolicyCheckpoint | Dom_ClaimRecord | Dom_TreefsSnapshot
  | Dom_BackupExportBundle | Dom_ReleaseAsset | Dom_AtpTransferManifest
  | Dom_CiArtifact | Dom_MerkleLeaf | Dom_MerkleNode
  | Dom_AdmissionReceipt | Dom_DocumentAnchor | Dom_SignedEnvelope
  | Dom_KeyLifecycleReceipt | Dom_RestoreReport | Dom_AuthorityHistory
  | Dom_AdmissionRefState | Dom_AdmissionObjectClosure | Dom_AdmissionRefDelta
  | Dom_AtpTrustCacheKey | Dom_AdmissionPolicyDecision | Dom_AdmissionInvariantEvidence
  | Dom_ForgeEventBatch | Dom_OutboxEffectBatch | Dom_RetentionDelta
  | Dom_AdmissionRefusalEvidence | Dom_RepositoryConfiguration | Dom_RepositoryCreationAttempt
  | Dom_OutcomeIndexCheckpoint | Dom_HiddenRefPolicy | Dom_ForgeEventEvidence
  | Dom_ForgeRefIntent | Dom_DeployKeyBinding | Dom_TokenGrant
  | Dom_Session | Dom_PolicySnapshot

datatype internal_digest_algorithm = InternalSha256

definition internal_algorithm_id :: "internal_digest_algorithm \<Rightarrow> digest_algorithm_id" where
  "internal_algorithm_id algorithm = (case algorithm of InternalSha256 \<Rightarrow> DigestAlgorithmId 2)"

datatype row_status = Active | Retired

record domain_row =
  row_registry_id :: u16
  row_domain :: identity_domain
  row_tag :: string
  row_domain_tag :: ascii_slug
  row_algorithm :: internal_digest_algorithm
  row_durable_object :: "string option"
  row_derived_identity :: "string option"
  row_status :: row_status

definition pinned_row :: "u16 \<Rightarrow> identity_domain \<Rightarrow> string \<Rightarrow> string option \<Rightarrow> string \<Rightarrow> domain_row" where
  "pinned_row registry_id domain tag durable derived =
     \<lparr>row_registry_id = registry_id, row_domain = domain, row_tag = tag, row_domain_tag = AsciiSlug (bytes_of tag),
      row_algorithm = InternalSha256, row_durable_object = durable, row_derived_identity = Some derived,
      row_status = Active\<rparr>"

definition owned_row :: "u16 \<Rightarrow> identity_domain \<Rightarrow> string \<Rightarrow> string option \<Rightarrow> domain_row" where
  "owned_row registry_id domain tag durable =
     \<lparr>row_registry_id = registry_id, row_domain = domain, row_tag = tag, row_domain_tag = AsciiSlug (bytes_of tag),
      row_algorithm = InternalSha256, row_durable_object = durable, row_derived_identity = None,
      row_status = Active\<rparr>"

definition DOMAIN_REGISTRY :: "domain_row list" where
  "DOMAIN_REGISTRY =
    [pinned_row 1 Dom_RefTransaction ''frankengit/ref-txn/v2'' None ''TxId'',
     pinned_row 2 Dom_TransactionSeal ''frankengit/txn-seal/v1'' (Some ''DUR-010'') ''TransactionSealId'',
     pinned_row 3 Dom_PreparedTransactionCapsule ''frankengit/prepared-capsule/v1'' (Some ''DUR-011'') ''PreparedTxnCapsuleId'',
     pinned_row 4 Dom_RepositoryCommitRecord ''frankengit/rcr/v1'' (Some ''DUR-003'') ''RepositoryCommitId'',
     pinned_row 5 Dom_RepositoryDecisionBatch ''frankengit/decision-batch/v1'' (Some ''DUR-003'') ''RepositoryDecisionBatchId'',
     pinned_row 6 Dom_RepositoryAuthorityHead ''frankengit/authority-head/v1'' (Some ''DUR-009'') ''RepositoryAuthorityHeadId'',
     pinned_row 7 Dom_RefusalRecord ''frankengit/refusal-record/v1'' (Some ''DUR-003'') ''RefusalRecordId'',
     pinned_row 8 Dom_RepositoryCapsule ''frankengit/repository-capsule/v1'' (Some ''DUR-004'') ''RepositoryCapsuleId'',
     pinned_row 9 Dom_PrincipalSnapshot ''frankengit/principal-snapshot/v1'' None ''PrincipalSnapshotId'',
     pinned_row 10 Dom_ObjectEnvelope ''frankengit/object-envelope/v1'' (Some ''DUR-001'') ''ObjectEnvelopeId'',
     pinned_row 11 Dom_SegmentManifest ''frankengit/segment-manifest/v1'' (Some ''DUR-002'') ''SegmentManifestId'',
     pinned_row 12 Dom_ForgeEvent ''frankengit/forge-event/v1'' (Some ''DUR-012'') ''ForgeEventId'',
     pinned_row 13 Dom_EvidenceRecord ''frankengit/evidence-record/v1'' None ''EvidenceRecordId'',
     pinned_row 14 Dom_Generation ''frankengit/generation/v1'' (Some ''DUR-005'') ''GenerationId'',
     owned_row 15 Dom_GitPayloadCommitment ''frankengit/git-payload-commitment/v1'' (Some ''DUR-001''),
     owned_row 16 Dom_RepositorySegment ''frankengit/repository-segment/v1'' (Some ''DUR-002''),
     owned_row 17 Dom_GitObjectMicrosegment ''frankengit/git-object-microsegment/v1'' (Some ''DUR-016''),
     owned_row 18 Dom_ForgeCheckpoint ''frankengit/forge-checkpoint/v1'' (Some ''DUR-012''),
     owned_row 19 Dom_PolicyCheckpoint ''frankengit/policy-checkpoint/v1'' (Some ''DUR-014''),
     owned_row 20 Dom_ClaimRecord ''frankengit/claim-record/v1'' None,
     owned_row 21 Dom_TreefsSnapshot ''frankengit/treefs-snapshot/v1'' (Some ''DUR-015''),
     owned_row 22 Dom_BackupExportBundle ''frankengit/backup-export-bundle/v1'' (Some ''DUR-013''),
     owned_row 23 Dom_ReleaseAsset ''frankengit/release-asset/v1'' (Some ''DUR-017''),
     owned_row 24 Dom_AtpTransferManifest ''frankengit/atp-transfer-manifest/v1'' (Some ''DUR-008''),
     owned_row 25 Dom_CiArtifact ''frankengit/ci-artifact/v1'' (Some ''DUR-007''),
     owned_row 26 Dom_MerkleLeaf ''frankengit/merkle-leaf/v1'' None,
     owned_row 27 Dom_MerkleNode ''frankengit/merkle-node/v1'' None,
     owned_row 28 Dom_AdmissionReceipt ''frankengit/admission-receipt/v1'' None,
     owned_row 29 Dom_DocumentAnchor ''frankengit/doc-anchor/v1'' None,
     owned_row 30 Dom_SignedEnvelope ''frankengit/signed-envelope/v1'' None,
     owned_row 31 Dom_KeyLifecycleReceipt ''frankengit/key-lifecycle-receipt/v1'' None,
     owned_row 32 Dom_RestoreReport ''frankengit/restore-report/v1'' (Some ''DUR-004''),
     owned_row 33 Dom_AuthorityHistory ''frankengit/authority-history/v1'' None,
     owned_row 34 Dom_AdmissionRefState ''frankengit/ref-state/v1'' None,
     owned_row 35 Dom_AdmissionObjectClosure ''frankengit/admission-object-closure/v1'' None,
     owned_row 36 Dom_AdmissionRefDelta ''frankengit/admission-ref-delta/v1'' None,
     owned_row 37 Dom_AtpTrustCacheKey ''frankengit/atp-trust-cache-key/v1'' None,
     owned_row 38 Dom_AdmissionPolicyDecision ''frankengit/admission-policy-decision/v1'' None,
     owned_row 39 Dom_AdmissionInvariantEvidence ''frankengit/admission-invariant-evidence/v1'' None,
     owned_row 40 Dom_ForgeEventBatch ''frankengit/forge-event-batch/v1'' None,
     owned_row 41 Dom_OutboxEffectBatch ''frankengit/outbox-effect-batch/v1'' None,
     owned_row 42 Dom_RetentionDelta ''frankengit/retention-delta/v1'' None,
     owned_row 43 Dom_AdmissionRefusalEvidence ''frankengit/admission-refusal-evidence/v1'' None,
     owned_row 44 Dom_RepositoryConfiguration ''frankengit/repository-configuration/v1'' None,
     owned_row 45 Dom_RepositoryCreationAttempt ''frankengit/repository-creation-attempt/v1'' None,
     owned_row 46 Dom_OutcomeIndexCheckpoint ''frankengit/outcome-index-checkpoint/v1'' (Some ''DUR-018''),
     owned_row 47 Dom_HiddenRefPolicy ''frankengit/hidden-ref-policy/v1'' None,
     owned_row 48 Dom_ForgeEventEvidence ''frankengit/forge-event-evidence/v1'' None,
     owned_row 49 Dom_ForgeRefIntent ''frankengit/forge-ref-intent/v1'' None,
     owned_row 50 Dom_DeployKeyBinding ''frankengit/deploy-key-binding/v1'' None,
     owned_row 51 Dom_TokenGrant ''frankengit/token-grant/v1'' None,
     owned_row 52 Dom_Session ''frankengit/session/v1'' None,
     owned_row 53 Dom_PolicySnapshot ''frankengit/policy-snapshot/v1'' None]"

text \<open>The discriminant of a domain is its position in the declaration.\<close>

primrec domain_index :: "identity_domain \<Rightarrow> nat" where
  "domain_index Dom_RefTransaction = 0"
| "domain_index Dom_TransactionSeal = 1"
| "domain_index Dom_PreparedTransactionCapsule = 2"
| "domain_index Dom_RepositoryCommitRecord = 3"
| "domain_index Dom_RepositoryDecisionBatch = 4"
| "domain_index Dom_RepositoryAuthorityHead = 5"
| "domain_index Dom_RefusalRecord = 6"
| "domain_index Dom_RepositoryCapsule = 7"
| "domain_index Dom_PrincipalSnapshot = 8"
| "domain_index Dom_ObjectEnvelope = 9"
| "domain_index Dom_SegmentManifest = 10"
| "domain_index Dom_ForgeEvent = 11"
| "domain_index Dom_EvidenceRecord = 12"
| "domain_index Dom_Generation = 13"
| "domain_index Dom_GitPayloadCommitment = 14"
| "domain_index Dom_RepositorySegment = 15"
| "domain_index Dom_GitObjectMicrosegment = 16"
| "domain_index Dom_ForgeCheckpoint = 17"
| "domain_index Dom_PolicyCheckpoint = 18"
| "domain_index Dom_ClaimRecord = 19"
| "domain_index Dom_TreefsSnapshot = 20"
| "domain_index Dom_BackupExportBundle = 21"
| "domain_index Dom_ReleaseAsset = 22"
| "domain_index Dom_AtpTransferManifest = 23"
| "domain_index Dom_CiArtifact = 24"
| "domain_index Dom_MerkleLeaf = 25"
| "domain_index Dom_MerkleNode = 26"
| "domain_index Dom_AdmissionReceipt = 27"
| "domain_index Dom_DocumentAnchor = 28"
| "domain_index Dom_SignedEnvelope = 29"
| "domain_index Dom_KeyLifecycleReceipt = 30"
| "domain_index Dom_RestoreReport = 31"
| "domain_index Dom_AuthorityHistory = 32"
| "domain_index Dom_AdmissionRefState = 33"
| "domain_index Dom_AdmissionObjectClosure = 34"
| "domain_index Dom_AdmissionRefDelta = 35"
| "domain_index Dom_AtpTrustCacheKey = 36"
| "domain_index Dom_AdmissionPolicyDecision = 37"
| "domain_index Dom_AdmissionInvariantEvidence = 38"
| "domain_index Dom_ForgeEventBatch = 39"
| "domain_index Dom_OutboxEffectBatch = 40"
| "domain_index Dom_RetentionDelta = 41"
| "domain_index Dom_AdmissionRefusalEvidence = 42"
| "domain_index Dom_RepositoryConfiguration = 43"
| "domain_index Dom_RepositoryCreationAttempt = 44"
| "domain_index Dom_OutcomeIndexCheckpoint = 45"
| "domain_index Dom_HiddenRefPolicy = 46"
| "domain_index Dom_ForgeEventEvidence = 47"
| "domain_index Dom_ForgeRefIntent = 48"
| "domain_index Dom_DeployKeyBinding = 49"
| "domain_index Dom_TokenGrant = 50"
| "domain_index Dom_Session = 51"
| "domain_index Dom_PolicySnapshot = 52"

definition domain_row_of :: "identity_domain \<Rightarrow> domain_row" where
  "domain_row_of domain = DOMAIN_REGISTRY ! domain_index domain"

definition tag_of :: "identity_domain \<Rightarrow> string" where
  "tag_of domain = row_tag (domain_row_of domain)"

definition domain_tag_of :: "identity_domain \<Rightarrow> ascii_slug" where
  "domain_tag_of domain = row_domain_tag (domain_row_of domain)"

definition algorithm_of :: "identity_domain \<Rightarrow> internal_digest_algorithm" where
  "algorithm_of domain = row_algorithm (domain_row_of domain)"

text \<open>Tags are compared as byte strings; a tag that arrives as data is an \<open>ascii_slug\<close>.\<close>

definition from_tag :: "bytes \<Rightarrow> identity_domain option" where
  "from_tag tag = map_option row_domain (List.find (\<lambda>row. bytes_of (row_tag row) = tag) DOMAIN_REGISTRY)"

section \<open>Identities (body_identity.rs)\<close>

datatype unregistered_domain_tag = UnregisteredDomainTag bytes

definition resolve_domain :: "ascii_slug \<Rightarrow> unregistered_domain_tag + identity_domain" where
  "resolve_domain tag =
     (case from_tag (slug_bytes tag) of Some domain \<Rightarrow> Inr domain
      | None \<Rightarrow> Inl (UnregisteredDomainTag (slug_bytes tag)))"

text \<open>\<open>to_be_bytes\<close> at the width of the scalar.\<close>

definition be_bytes :: "('w::len) word \<Rightarrow> bytes" where
  "be_bytes v = drop (8 - LENGTH('w) div 8) (to_be_bytes (ucast v))"

definition internal_id_preimage_header :: "identity_domain \<Rightarrow> schema_id \<Rightarrow> u64 \<Rightarrow> bytes" where
  "internal_id_preimage_header domain schema body_len =
     (let tag = bytes_of (tag_of domain); family = slug_bytes (schema_family schema) in
      [of_nat (length tag)] @ tag @ [of_nat (length family)] @ family @
      be_bytes (schema_major schema) @ be_bytes (schema_minor schema) @ be_bytes body_len)"

definition internal_id_preimage :: "identity_domain \<Rightarrow> schema_id \<Rightarrow> bytes \<Rightarrow> bytes" where
  "internal_id_preimage domain schema body =
     internal_id_preimage_header domain schema (of_nat (length body)) @ body"

text \<open>
  The source adds the lengths of the parts with \<open>checked_add\<close> and panics past 64 bits, which parts that are
  in memory do not reach; \<open>parts_length_exact\<close> below shows that short of that the sum here is exact.
\<close>

definition internal_digest_over_parts :: "identity_domain \<Rightarrow> schema_id \<Rightarrow> bytes list \<Rightarrow> digest_bytes" where
  "internal_digest_over_parts domain schema parts =
     (let body_len = foldl (\<lambda>n part. n + of_nat (length part)) 0 parts in
      case algorithm_of domain of InternalSha256 \<Rightarrow>
        let hasher = sha256_update sha256_initial (internal_id_preimage_header domain schema body_len)
        in DigestBytes (sha256_finish (foldl sha256_update hasher parts)))"

definition internal_digest_value :: "identity_domain \<Rightarrow> schema_id \<Rightarrow> bytes \<Rightarrow> digest_bytes" where
  "internal_digest_value domain schema body = internal_digest_over_parts domain schema [body]"

definition internal_digest :: "internal_digest_algorithm \<Rightarrow> bytes \<Rightarrow> bytes" where
  "internal_digest algorithm preimage = (case algorithm of InternalSha256 \<Rightarrow> sha256_digest preimage)"

definition internal_object_id_of ::
  "identity_domain \<Rightarrow> schema_id \<Rightarrow> codec_version \<Rightarrow> bytes \<Rightarrow> internal_object_id" where
  "internal_object_id_of domain schema version body =
     InternalObjectId (internal_algorithm_id (algorithm_of domain)) (domain_tag_of domain) version
       (internal_digest_value domain schema body)"

definition internal_object_id_for_tag ::
  "ascii_slug \<Rightarrow> schema_id \<Rightarrow> codec_version \<Rightarrow> bytes \<Rightarrow> unregistered_domain_tag + internal_object_id" where
  "internal_object_id_for_tag tag schema version body =
     rbind (resolve_domain tag) (\<lambda>domain. Inr (internal_object_id_of domain schema version body))"

datatype internal_identity_error =
    AlgorithmMismatch internal_digest_algorithm u16
  | IdentityDomainMismatch string bytes
  | CodecVersionMismatch codec_version codec_version
  | DigestMismatch string string string

definition lowercase_hex :: "bytes \<Rightarrow> string" where
  "lowercase_hex bs =
     concat (map (\<lambda>b. [''0123456789abcdef'' ! unat (drop_bit 4 b), ''0123456789abcdef'' ! unat (b AND 15)]) bs)"

definition verify_internal_object_id ::
  "internal_object_id \<Rightarrow> identity_domain \<Rightarrow> schema_id \<Rightarrow> codec_version \<Rightarrow> bytes \<Rightarrow>
     internal_identity_error + unit" where
  "verify_internal_object_id identity domain schema version body =
     (if id_algorithm identity \<noteq> internal_algorithm_id (algorithm_of domain)
      then Inl (AlgorithmMismatch (algorithm_of domain) (algorithm_code_point (id_algorithm identity)))
      else if id_domain identity \<noteq> domain_tag_of domain
      then Inl (IdentityDomainMismatch (tag_of domain) (slug_bytes (id_domain identity)))
      else if id_codec_version identity \<noteq> version
      then Inl (CodecVersionMismatch version (id_codec_version identity))
      else
        let digest = internal_digest (algorithm_of domain) (internal_id_preimage domain schema body) in
        if digest_body (id_digest identity) = digest then Inr ()
        else Inl (DigestMismatch (tag_of domain) (lowercase_hex digest)
               (lowercase_hex (digest_body (id_digest identity)))))"

section \<open>The bridge to the codec (bridge.rs)\<close>

definition crypto_body_identity :: body_identity where
  "crypto_body_identity domain schema version body =
     map_err (\<lambda>_. IdentityDomainUnregistered domain) (internal_object_id_for_tag domain schema version body)"

section \<open>The registry is closed\<close>

lemma registry_length: "length DOMAIN_REGISTRY = 53"
  by (simp add: DOMAIN_REGISTRY_def)

lemma registry_domains: "map domain_index (map row_domain DOMAIN_REGISTRY) = [0..<53]"
  by (simp add: DOMAIN_REGISTRY_def pinned_row_def owned_row_def upt_conv_Cons)

lemma registered: "d \<in> set (map row_domain DOMAIN_REGISTRY)"
  unfolding DOMAIN_REGISTRY_def pinned_row_def owned_row_def list.map domain_row.simps
  by (cases d) (simp_all only: list.set insert_iff simp_thms)

lemma registry_tags: "distinct (map row_tag DOMAIN_REGISTRY)"
proof -
  have "distinct (map (drop 11) (map row_tag DOMAIN_REGISTRY))"
    by (simp add: DOMAIN_REGISTRY_def pinned_row_def owned_row_def)
  then show ?thesis
    by (simp only: distinct_map)
qed

text \<open>What both kinds of row fix, and the bound on the tag.\<close>

definition regular_row :: "domain_row \<Rightarrow> bool" where
  "regular_row row \<longleftrightarrow> length (row_tag row) \<le> MAX_LABEL_LEN \<and>
     row_domain_tag row = AsciiSlug (bytes_of (row_tag row)) \<and> row_algorithm row = InternalSha256"

lemma regular_rows:
  "regular_row (pinned_row i d tag durable derived) \<longleftrightarrow> length tag \<le> MAX_LABEL_LEN"
  "regular_row (owned_row i d tag durable) \<longleftrightarrow> length tag \<le> MAX_LABEL_LEN"
  by (simp_all add: regular_row_def pinned_row_def owned_row_def)

lemma registry_facts: "row \<in> set DOMAIN_REGISTRY \<Longrightarrow> regular_row row"
proof -
  have "list_all regular_row DOMAIN_REGISTRY"
    unfolding DOMAIN_REGISTRY_def by (simp add: regular_rows MAX_LABEL_LEN_def)
  then show "row \<in> set DOMAIN_REGISTRY \<Longrightarrow> ?thesis"
    by (simp add: list_all_iff)
qed

lemma registry_row: "row_domain (domain_row_of d) = d \<and> domain_row_of d \<in> set DOMAIN_REGISTRY"
proof -
  obtain j where j: "j < 53" "d = row_domain (DOMAIN_REGISTRY ! j)"
    using registered [of d] by (auto simp: in_set_conv_nth registry_length)
  from registry_domains have "map domain_index (map row_domain DOMAIN_REGISTRY) ! j = [0..<53] ! j"
    by simp
  with j show ?thesis
    by (simp add: domain_row_of_def registry_length)
qed

lemma domain_facts:
  "length (tag_of d) \<le> MAX_LABEL_LEN" "domain_tag_of d = AsciiSlug (bytes_of (tag_of d))" "algorithm_of d = InternalSha256"
  using registry_facts registry_row [of d] by (simp_all add: tag_of_def domain_tag_of_def algorithm_of_def regular_row_def)

lemma inj_byte_of_char: "inj (of_char :: char \<Rightarrow> u8)"
proof (rule injI)
  fix c d :: char
  have nat: "unat (of_char c :: u8) = of_char c" for c
  proof -
    have "take_bit LENGTH(8) (of_char c :: nat) = of_char c"
      using nat_of_char_less_256 [of c] by (intro take_bit_nat_eq_self) simp
    then have "unat (of_nat (of_char c) :: u8) = of_char c"
      by (simp only: unsigned_of_nat of_nat_id)
    then show ?thesis
      by (simp only: of_nat_of_char)
  qed
  assume "(of_char c :: u8) = of_char d"
  with nat [of c] nat [of d] have "of_char c = (of_char d :: nat)"
    by (simp only:)
  then show "c = d"
    by (simp only: of_char_eq_iff)
qed

lemma bytes_of_inject [simp]: "bytes_of s = bytes_of t \<longleftrightarrow> s = t"
  by (simp add: bytes_of_def inj_map_eq_map [OF inj_byte_of_char])

lemma find_distinct:
  assumes "distinct (map f xs)" "x \<in> set xs"
  shows "List.find (\<lambda>y. f y = f x) xs = Some x"
  using assms by (induction xs) auto

lemma tag_of_inject [simp]: "tag_of d = tag_of e \<longleftrightarrow> d = e"
proof
  assume "tag_of d = tag_of e"
  then have "domain_row_of d = domain_row_of e"
    using registry_tags registry_row by (auto simp: tag_of_def distinct_map inj_on_def)
  then show "d = e"
    using registry_row by metis
qed simp

lemma domain_tag_of_inject [simp]: "domain_tag_of d = domain_tag_of e \<longleftrightarrow> d = e"
  by (simp add: domain_facts(2))

lemma from_tag_iff: "from_tag tag = Some d \<longleftrightarrow> tag = bytes_of (tag_of d)"
proof
  assume "from_tag tag = Some d"
  then obtain row where row: "row \<in> set DOMAIN_REGISTRY" "bytes_of (row_tag row) = tag" "row_domain row = d"
    by (auto simp: from_tag_def find_Some_iff in_set_conv_nth)
  then obtain j where "j < 53" "row = DOMAIN_REGISTRY ! j"
    by (auto simp: in_set_conv_nth registry_length)
  moreover from this row(3) have "domain_index d = j"
    using arg_cong [OF registry_domains, of "\<lambda>xs. xs ! j"] by (simp add: registry_length)
  ultimately show "tag = bytes_of (tag_of d)"
    using row(2) by (simp add: tag_of_def domain_row_of_def)
next
  assume "tag = bytes_of (tag_of d)"
  then show "from_tag tag = Some d"
    using find_distinct [OF registry_tags, of "domain_row_of d"] registry_row [of d]
    by (simp add: from_tag_def tag_of_def)
qed

section \<open>The preimage is injective\<close>

lemma length_be_bytes [simp]: "length (be_bytes (v :: u16)) = 2" "length (be_bytes (n :: u64)) = 8"
  "length (be_bytes (k :: u32)) = 4"
  by (simp_all add: be_bytes_def)

lemma be_bytes_inverse:
  assumes "LENGTH('w::len) = 8 * k" "k \<le> 8"
  shows "unat (from_be_bytes (replicate (8 - k) 0 @ be_bytes (v :: 'w word))) = unat v"
proof -
  have "unat v < 2 ^ LENGTH('w)"
    by (rule unsigned_less)
  also have "(2 :: nat) ^ LENGTH('w) = 256 ^ k"
    by (simp add: assms(1) power_mult)
  finally have v: "unat v < 256 ^ k" .
  also have "(256 :: nat) ^ k \<le> 256 ^ 8"
    using assms(2) by (intro power_increasing) simp_all
  finally have "unat (ucast v :: u64) = unat v"
    by (simp add: unsigned_ucast_eq take_bit_nat_eq_self)
  with v be_bytes_round_trip [OF assms(2), of "ucast v"] show ?thesis
    using assms by (simp add: be_bytes_def)
qed

lemma be_bytes_inject [simp]:
  "be_bytes (v :: u16) = be_bytes w \<longleftrightarrow> v = w" "be_bytes (x :: u32) = be_bytes y \<longleftrightarrow> x = y"
proof -
  show "be_bytes v = be_bytes w \<longleftrightarrow> v = w"
    using be_bytes_inverse [where 'w = 16 and k = 2, of v] be_bytes_inverse [where 'w = 16 and k = 2, of w]
    by (auto intro: word_unat_eq_iff [THEN iffD2])
  show "be_bytes x = be_bytes y \<longleftrightarrow> x = y"
    using be_bytes_inverse [where 'w = 32 and k = 4, of x] be_bytes_inverse [where 'w = 32 and k = 4, of y]
    by (auto intro: word_unat_eq_iff [THEN iffD2])
qed

text \<open>A string behind its length in one byte.\<close>

lemma length_prefix_inject:
  assumes "length xs < 256" "length ys < 256"
  shows "[of_nat (length xs) :: u8] @ xs @ s = [of_nat (length ys)] @ ys @ t \<longleftrightarrow> xs = ys \<and> s = t"
proof -
  have "(of_nat (length xs) :: u8) = of_nat (length ys) \<longleftrightarrow> length xs = length ys"
    using assms by (simp add: word_of_nat_eq_iff take_bit_nat_eq_self)
  then show ?thesis
    by auto
qed

definition short_family :: "schema_id \<Rightarrow> bool" where
  "short_family schema \<longleftrightarrow> length (slug_bytes (schema_family schema)) \<le> MAX_LABEL_LEN"

lemma preimage_inject:
  assumes "short_family s" "short_family t"
  shows "internal_id_preimage d s b = internal_id_preimage e t c \<longleftrightarrow> d = e \<and> s = t \<and> b = c"
proof -
  have bounds: "length (bytes_of (tag_of d)) < 256" "length (bytes_of (tag_of e)) < 256"
      "length (slug_bytes (schema_family s)) < 256" "length (slug_bytes (schema_family t)) < 256"
    using assms domain_facts(1) [of d] domain_facts(1) [of e] by (simp_all add: short_family_def MAX_LABEL_LEN_def)
  have "internal_id_preimage d s b = internal_id_preimage e t c \<longleftrightarrow>
      d = e \<and> slug_bytes (schema_family s) = slug_bytes (schema_family t) \<and> schema_major s = schema_major t \<and>
      schema_minor s = schema_minor t \<and> b = c"
    unfolding internal_id_preimage_def internal_id_preimage_header_def Let_def append_assoc
      length_prefix_inject [OF bounds(1,2)] length_prefix_inject [OF bounds(3,4)]
    by auto
  also have "\<dots> \<longleftrightarrow> d = e \<and> s = t \<and> b = c"
    by (metis ascii_slug.expand schema_id.expand)
  finally show ?thesis .
qed

section \<open>Digests of bodies\<close>

lemma parts_length: "foldl (\<lambda>n part. n + of_nat (length part)) (of_nat k :: u64) parts = of_nat (k + length (concat parts))"
proof (induction parts arbitrary: k)
  case (Cons part parts)
  from Cons.IH [of "k + length part"] show ?case
    by simp
qed simp

lemma parts_length_exact:
  "length (concat parts) < 2 ^ 64 \<Longrightarrow>
     unat (foldl (\<lambda>n part. n + of_nat (length part)) (0 :: u64) parts) = length (concat parts)"
  using parts_length [of 0 parts] by (simp add: unat_of_nat)

lemma internal_digest_over_parts_reference:
  "internal_digest_over_parts domain schema parts =
     DigestBytes (sha256_digest (internal_id_preimage domain schema (concat parts)))"
proof -
  let ?header = "internal_id_preimage_header domain schema (of_nat (length (concat parts)))"
  have "sha256_finish (foldl sha256_update (sha256_update sha256_initial ?header) parts) =
      reference_sha256 (concat (?header # parts))"
    using sha256_streaming [of "?header # parts"] by simp
  then show ?thesis
    using parts_length [of 0 parts]
    by (simp add: internal_digest_over_parts_def domain_facts(3) sha256_digest_reference internal_id_preimage_def)
qed

lemma internal_digest_value_reference:
  "internal_digest_value domain schema body = DigestBytes (sha256_digest (internal_id_preimage domain schema body))"
  by (simp add: internal_digest_value_def internal_digest_over_parts_reference)

lemma verify_internal_object_id_iff:
  "verify_internal_object_id identity domain schema version body = Inr () \<longleftrightarrow>
     identity = internal_object_id_of domain schema version body"
  by (cases identity)
    (auto simp: verify_internal_object_id_def internal_object_id_of_def internal_digest_value_reference
      internal_digest_def domain_facts(3) Let_def intro: digest_bytes.expand)

text \<open>Two messages with one digest.\<close>

definition sha256_collision :: "bytes \<Rightarrow> bytes \<Rightarrow> bool" where
  "sha256_collision m n \<longleftrightarrow> m \<noteq> n \<and> sha256_digest m = sha256_digest n"

lemma same_digest:
  assumes "internal_digest_over_parts d s parts = internal_digest_over_parts e t parts'" "short_family s" "short_family t"
    "\<not> sha256_collision (internal_id_preimage d s (concat parts)) (internal_id_preimage e t (concat parts'))"
  shows "d = e \<and> s = t \<and> concat parts = concat parts'"
  using assms by (auto simp: internal_digest_over_parts_reference sha256_collision_def preimage_inject)

section \<open>Identities of frames\<close>

definition frame_preimage :: "bytes \<Rightarrow> decode_limits \<Rightarrow> bytes" where
  "frame_preimage frame limits =
     (case split_frame frame limits of Inl _ \<Rightarrow> []
      | Inr (header, payload) \<Rightarrow>
          (case from_tag (slug_bytes (fh_domain header)) of None \<Rightarrow> []
           | Some domain \<Rightarrow> internal_id_preimage domain (fh_schema header) payload))"

lemma frame_identity_iff:
  "body_id_of_frame crypto_body_identity frame limits = Inr identity \<longleftrightarrow>
     (\<exists>header payload domain. split_frame frame limits = Inr (header, payload) \<and>
        fh_domain header = domain_tag_of domain \<and>
        identity = internal_object_id_of domain (fh_schema header) (CodecVersion CODEC_MAJOR (fh_codec_minor header)) payload)"
proof -
  have tag: "from_tag (slug_bytes t) = Some d \<longleftrightarrow> t = domain_tag_of d" for t d
    by (cases t) (simp add: from_tag_iff domain_facts(2))
  have "crypto_body_identity t s v b = Inr identity \<longleftrightarrow> (\<exists>d. t = domain_tag_of d \<and> identity = internal_object_id_of d s v b)"
    for t s v b
  proof (cases "from_tag (slug_bytes t)")
    case None
    with tag [of t] have "t \<noteq> domain_tag_of d" for d
      by simp
    with None show ?thesis
      by (simp add: crypto_body_identity_def internal_object_id_for_tag_def resolve_domain_def map_err_def)
  next
    case (Some d)
    with tag [of t d] have "t = domain_tag_of d"
      by simp
    with Some show ?thesis
      by (auto simp: crypto_body_identity_def internal_object_id_for_tag_def resolve_domain_def map_err_def)
  qed
  then show ?thesis
    by (auto simp: body_id_of_frame_def)
qed

lemma split_frame_short: "split_frame frame limits = Inr (header, payload) \<Longrightarrow> short_family (fh_schema header)"
  by (auto simp: split_frame_iff adm_header_def adm_schema_id_def adm_slug_def short_family_def slug_wf_def)

lemma frames_of_one_identity:
  assumes "body_id_of_frame crypto_body_identity f l = Inr identity"
    "body_id_of_frame crypto_body_identity g k = Inr identity"
    "\<not> sha256_collision (frame_preimage f l) (frame_preimage g k)"
  shows "f = g"
proof -
  from assms(1) obtain h p d where f: "split_frame f l = Inr (h, p)" "fh_domain h = domain_tag_of d"
      "identity = internal_object_id_of d (fh_schema h) (CodecVersion CODEC_MAJOR (fh_codec_minor h)) p"
    by (auto simp: frame_identity_iff)
  from assms(2) obtain i q e where g: "split_frame g k = Inr (i, q)" "fh_domain i = domain_tag_of e"
      "identity = internal_object_id_of e (fh_schema i) (CodecVersion CODEC_MAJOR (fh_codec_minor i)) q"
    by (auto simp: frame_identity_iff)
  have "from_tag (slug_bytes (fh_domain h)) = Some d" "from_tag (slug_bytes (fh_domain i)) = Some e"
    using f(2) g(2) by (simp_all add: from_tag_iff domain_facts(2))
  with f(1) g(1) have preimages: "frame_preimage f l = internal_id_preimage d (fh_schema h) p"
      "frame_preimage g k = internal_id_preimage e (fh_schema i) q"
    by (simp_all add: frame_preimage_def)
  from f(3) g(3) have "fh_codec_minor h = fh_codec_minor i"
      "sha256_digest (frame_preimage f l) = sha256_digest (frame_preimage g k)"
    by (auto simp: internal_object_id_of_def internal_digest_value_reference preimages)
  moreover from this(2) assms(3) have "d = e \<and> fh_schema h = fh_schema i \<and> p = q"
    using preimage_inject [OF split_frame_short [OF f(1)] split_frame_short [OF g(1)]]
    by (simp add: sha256_collision_def preimages)
  ultimately have "(h, p) = (i, q)"
    using f(2) g(2) by (cases h; cases i) simp
  with f(1) g(1) show ?thesis
    by (auto simp: split_frame_iff)
qed

end
