(* ===== verification/Merkle_Soundness.thy ===== *)
theory Merkle_Soundness
  imports Merkle
begin

text \<open>
  What a verified Merkle path establishes. The levels of the construction are read as a binary tree
  over the leaf bodies. A path that climbs to the digest of the tree follows the tree down to a leaf
  with the claimed body, or one of the hashed preimages of the tree collides under SHA-256 with one
  of the path; both sets of preimages are computed from the tree and the path. Paths whose claimed
  positions are first, last or adjacent reach leaves that are first, last or adjacent.
\<close>

section \<open>Trees\<close>

datatype merkle_tree = Tip bytes | Fork merkle_tree merkle_tree

fun tree_digest :: "schema_id \<Rightarrow> merkle_tree \<Rightarrow> digest_bytes" where
  "tree_digest schema (Tip body) = merkle_leaf schema [body]"
| "tree_digest schema (Fork l r) = merkle_node schema (tree_digest schema l) (tree_digest schema r)"

fun frontier :: "merkle_tree \<Rightarrow> bytes list" where
  "frontier (Tip body) = [body]"
| "frontier (Fork l r) = frontier l @ frontier r"

fun pair_trees :: "merkle_tree list \<Rightarrow> merkle_tree list" where
  "pair_trees (l # r # ts) = Fork l r # pair_trees ts"
| "pair_trees ts = ts"

lemma length_pair_trees [simp]: "length (pair_trees ts) = Suc (length ts) div 2"
  by (induction ts rule: pair_trees.induct) simp_all

function join_trees :: "merkle_tree list \<Rightarrow> merkle_tree" where
  "join_trees ts = (if 1 < length ts then join_trees (pair_trees ts) else hd ts)"
  by auto
termination
  by (relation "measure length") auto

declare join_trees.simps [simp del]

definition tree_of :: "bytes list \<Rightarrow> merkle_tree" where
  "tree_of bodies = join_trees (map Tip bodies)"

lemma frontier_not_Nil [simp]: "frontier t \<noteq> []"
  by (induction t) simp_all

lemma pair_trees_digest: "map (tree_digest schema) (pair_trees ts) = next_level schema (map (tree_digest schema) ts)"
  by (induction ts rule: pair_trees.induct) simp_all

lemma pair_trees_frontier: "concat (map frontier (pair_trees ts)) = concat (map frontier ts)"
  by (induction ts rule: pair_trees.induct) simp_all

lemma join_trees_correct:
  assumes "ts \<noteq> []"
  shows "tree_digest schema (join_trees ts) = merkle_root schema (map (tree_digest schema) ts) \<and>
    frontier (join_trees ts) = concat (map frontier ts)"
  using assms
proof (induction ts rule: measure_induct_rule [where f = length])
  case (less ts)
  show ?case
  proof (cases "1 < length ts")
    case True
    then have "length (pair_trees ts) < length ts" "pair_trees ts \<noteq> []"
      by (auto simp flip: length_0_conv)
    moreover have "join_trees ts = join_trees (pair_trees ts)"
      using True by (subst join_trees.simps) simp
    ultimately show ?thesis
      using less.IH [of "pair_trees ts"] True merkle_root_next [of "map (tree_digest schema) ts" schema]
      by (simp add: pair_trees_digest pair_trees_frontier)
  next
    case False
    with less.prems obtain t where "ts = [t]"
      by (cases ts) auto
    then show ?thesis
      by (simp add: join_trees.simps)
  qed
qed

lemma tree_of_digest:
  "bodies \<noteq> [] \<Longrightarrow> tree_digest schema (tree_of bodies) = merkle_root schema (map (\<lambda>b. merkle_leaf schema [b]) bodies)"
  using join_trees_correct [of "map Tip bodies" schema] by (simp add: tree_of_def comp_def)

lemma tree_of_frontier: "bodies \<noteq> [] \<Longrightarrow> frontier (tree_of bodies) = bodies"
  using join_trees_correct [of "map Tip bodies"] by (simp add: tree_of_def comp_def)

section \<open>Walking down\<close>

fun follow :: "merkle_tree \<Rightarrow> bool list \<Rightarrow> merkle_tree option" where
  "follow t [] = Some t"
| "follow (Fork l r) (left # ds) = follow (if left then l else r) ds"
| "follow (Tip _) (_ # _) = None"

lemma follow_append: "follow t (ds @ es) = (case follow t ds of None \<Rightarrow> None | Some u \<Rightarrow> follow u es)"
  by (induction t ds rule: follow.induct) (cases es; simp)+

lemma follow_first: "follow t (replicate n True) = Some (Tip b) \<Longrightarrow> hd (frontier t) = b"
  by (induction n arbitrary: t) (auto elim: follow.elims)

lemma follow_last: "follow t (replicate n False) = Some (Tip b) \<Longrightarrow> last (frontier t) = b"
  by (induction n arbitrary: t) (auto elim: follow.elims)

lemma follow_frontier: "follow t ds = Some u \<Longrightarrow> \<exists>xs ys. frontier t = xs @ frontier u @ ys"
proof (induction t ds rule: follow.induct)
  case (2 l r left ds)
  then obtain xs ys where "frontier (if left then l else r) = xs @ frontier u @ ys"
    by auto
  then have "frontier (Fork l r) =
      (if left then [] else frontier l) @ (xs @ frontier u @ ys) @ (if left then frontier r else [])"
    by (cases left) simp_all
  then show ?case
    by (metis append.assoc)
qed (auto intro: exI [of _ "[]"])

lemma follow_adjacent:
  assumes "follow t (ds @ True # replicate a False) = Some (Tip x)" "follow t (ds @ False # replicate b True) = Some (Tip y)"
  shows "\<exists>xs ys. frontier t = xs @ x # y # ys"
proof -
  from assms obtain u where u: "follow t ds = Some u"
      "follow u (True # replicate a False) = Some (Tip x)" "follow u (False # replicate b True) = Some (Tip y)"
    by (auto simp: follow_append split: option.splits)
  then obtain l r where lr: "u = Fork l r" "follow l (replicate a False) = Some (Tip x)" "follow r (replicate b True) = Some (Tip y)"
    by (cases u) auto
  then have "last (frontier l) = x" "hd (frontier r) = y"
    by (auto dest: follow_first follow_last)
  then have "frontier l = butlast (frontier l) @ [x]" "frontier r = y # tl (frontier r)"
    by (metis append_butlast_last_id frontier_not_Nil, metis list.collapse frontier_not_Nil)
  with follow_frontier [OF u(1)] lr(1) show ?thesis
    by (metis append.assoc append_Cons append_Nil frontier.simps(2))
qed

section \<open>The directions of a claimed position\<close>

function directions :: "nat \<Rightarrow> nat \<Rightarrow> bool list" where
  "directions position width =
     (if 1 < width then
        (if promoted position width then [] else [even position]) @ directions (position div 2) (Suc width div 2)
      else [])"
  by auto
termination
  by (relation "measure snd") auto

declare directions.simps [simp del]

lemma directions_step:
  "1 < width \<Longrightarrow> directions position width =
     (if promoted position width then [] else [even position]) @ directions (position div 2) (Suc width div 2)"
  "\<not> 1 < width \<Longrightarrow> directions position width = []"
  by (subst directions.simps, simp)+

lemma replicate_snoc: "replicate n x @ [x] = x # replicate n x"
  by (induction n) simp_all

lemma directions_first: "0 < width \<Longrightarrow> directions 0 width = replicate (length (directions 0 width)) True"
proof (induction width rule: less_induct)
  case (less width)
  show ?case
  proof (cases "1 < width")
    case True
    then have "directions 0 width = True # directions 0 (Suc width div 2)"
      by (simp add: directions_step(1) promoted_def)
    with less.IH [of "Suc width div 2"] True show ?thesis
      by simp
  qed (simp add: directions_step)
qed

lemma directions_last: "0 < width \<Longrightarrow> \<forall>d \<in> set (directions (width - 1) width). d = False"
proof (induction width rule: less_induct)
  case (less width)
  show ?case
  proof (cases "1 < width")
    case True
    have "(width - 1) div 2 = Suc width div 2 - 1"
      using True by (cases width) auto
    then have "directions (width - 1) width =
        (if odd width then [] else [False]) @ directions (Suc width div 2 - 1) (Suc width div 2)"
      using True by (subst directions_step(1)) (auto simp: promoted_def mod2_eq_if)
    moreover have "\<forall>d \<in> set (directions (Suc width div 2 - 1) (Suc width div 2)). d = False"
      by (rule less.IH) (use True in auto)
    ultimately show ?thesis
      by (auto simp only: set_append list.set split: if_splits)
  qed (simp add: directions_step)
qed

lemma directions_adjacent:
  "Suc i < width \<Longrightarrow> \<exists>ds a b. directions i width = replicate a False @ True # ds \<and>
     directions (Suc i) width = replicate b True @ False # ds"
proof (induction width arbitrary: i rule: less_induct)
  case (less width)
  then have step: "directions j width =
      (if promoted j width then [] else [even j]) @ directions (j div 2) (Suc width div 2)" for j
    by (simp add: directions_step)
  have not_last: "\<not> promoted i width"
    using less.prems by (auto simp: promoted_def)
  show ?case
  proof (cases "even i")
    case True
    then have "\<not> promoted (Suc i) width" "Suc i div 2 = i div 2"
      unfolding promoted_def by presburger+
    with True not_last have "directions i width = replicate 0 False @ True # directions (i div 2) (Suc width div 2)"
        "directions (Suc i) width = replicate 0 True @ False # directions (i div 2) (Suc width div 2)"
      by (simp_all add: step [of i] step [of "Suc i"])
    then show ?thesis
      by blast
  next
    case False
    then have half: "Suc i div 2 = Suc (i div 2)" "Suc (i div 2) < Suc width div 2"
      using less.prems by presburger+
    have "Suc width div 2 < width"
      using less.prems by presburger
    from less.IH [OF this half(2)] obtain ds a b where ds: "directions (i div 2) (Suc width div 2) = replicate a False @ True # ds"
        "directions (Suc (i div 2)) (Suc width div 2) = replicate b True @ False # ds"
      by auto
    have "directions i width = replicate (Suc a) False @ True # ds"
      using False not_last by (simp add: step [of i] ds)
    moreover have "directions (Suc i) width =
        replicate (if promoted (Suc i) width then b else Suc b) True @ False # ds"
      using False by (simp add: step [of "Suc i"] half(1) ds)
    ultimately show ?thesis
      by blast
  qed
qed

section \<open>Climbing\<close>

fun climb_path :: "schema_id \<Rightarrow> digest_bytes \<Rightarrow> (bool \<times> digest_bytes) list \<Rightarrow> digest_bytes" where
  "climb_path schema computed [] = computed"
| "climb_path schema computed ((left, sibling) # path) =
     climb_path schema (if left then merkle_node schema computed sibling else merkle_node schema sibling computed) path"

lemma climb_path_append: "climb_path schema computed (p @ q) = climb_path schema (climb_path schema computed p) q"
  by (induction schema computed p rule: climb_path.induct) simp_all

lemma merkle_climb_path:
  "merkle_climb schema computed position width offered =
     (if length offered < length (directions position width) then None
      else Some (climb_path schema computed (zip (directions position width) offered),
                 drop (length (directions position width)) offered))"
proof (induction schema computed position width offered rule: merkle_climb.induct)
  case (1 schema computed position width offered)
  show ?case
  proof (cases "1 < width")
    case True
    note step = merkle_climb.simps [of schema computed position width offered]
    note down = directions_step(1) [OF True, of position]
    show ?thesis
    proof (cases "promoted position width")
      case promoted: True
      show ?thesis
        unfolding step down using True promoted 1(1) [OF True promoted] by simp
    next
      case False
      show ?thesis
      proof (cases offered)
        case Nil
        then show ?thesis
          unfolding step down using True False by simp
      next
        case (Cons sibling offered')
        then show ?thesis
          unfolding step down using True False 1(2) [OF True False Cons] by simp
      qed
    qed
  next
    case False
    then show ?thesis
      by (simp add: directions_step(2) merkle_climb.simps [of schema computed position width offered])
  qed
qed

definition path_of :: "merkle_path \<Rightarrow> (bool \<times> digest_bytes) list" where
  "path_of p = zip (directions (mp_index p) (mp_leaf_count p)) (mp_siblings p)"

lemma verify_merkle_proof_path:
  "verify_merkle_proof schema root leaf p \<longleftrightarrow>
     mp_index p < mp_leaf_count p \<and>
     length (mp_siblings p) = length (directions (mp_index p) (mp_leaf_count p)) \<and>
     climb_path schema leaf (path_of p) = root"
  by (auto simp: verify_merkle_proof_def merkle_root_from_proof_def merkle_climb_path path_of_def)

lemma path_of_directions:
  "length (mp_siblings p) = length (directions (mp_index p) (mp_leaf_count p)) \<Longrightarrow>
     map fst (path_of p) = directions (mp_index p) (mp_leaf_count p)"
  by (simp add: path_of_def)

section \<open>Preimages\<close>

fun tree_preimages :: "schema_id \<Rightarrow> merkle_tree \<Rightarrow> bytes list" where
  "tree_preimages schema (Tip body) = [internal_id_preimage Dom_MerkleLeaf schema body]"
| "tree_preimages schema (Fork l r) =
     internal_id_preimage Dom_MerkleNode schema
       (digest_body (tree_digest schema l) @ digest_body (tree_digest schema r)) #
     tree_preimages schema l @ tree_preimages schema r"

fun path_preimages :: "schema_id \<Rightarrow> digest_bytes \<Rightarrow> (bool \<times> digest_bytes) list \<Rightarrow> bytes list" where
  "path_preimages schema computed [] = []"
| "path_preimages schema computed ((left, sibling) # path) =
     internal_id_preimage Dom_MerkleNode schema
       (if left then digest_body computed @ digest_body sibling else digest_body sibling @ digest_body computed) #
     path_preimages schema
       (if left then merkle_node schema computed sibling else merkle_node schema sibling computed) path"

lemma path_preimages_append:
  "path_preimages schema computed (p @ q) =
     path_preimages schema computed p @ path_preimages schema (climb_path schema computed p) q"
  by (induction schema computed p rule: climb_path.induct) simp_all

definition colliding :: "bytes list \<Rightarrow> bytes list \<Rightarrow> bool" where
  "colliding ms ns \<longleftrightarrow> (\<exists>m \<in> set ms. \<exists>n \<in> set ns. sha256_collision m n)"

lemma colliding_mono: "colliding ms ns \<Longrightarrow> set ms \<subseteq> set ms' \<Longrightarrow> set ns \<subseteq> set ns' \<Longrightarrow> colliding ms' ns'"
  by (auto simp: colliding_def)

lemma not_colliding:
  "\<not> colliding ms ns \<Longrightarrow> m \<in> set ms \<Longrightarrow> n \<in> set ns \<Longrightarrow> sha256_digest m = sha256_digest n \<Longrightarrow> m = n"
  by (auto simp: colliding_def sha256_collision_def)

lemma length_node [simp]: "length (digest_body (merkle_node schema l r)) = 32"
  by (simp add: merkle_node_def internal_digest_over_parts_reference)

lemma length_leaf [simp]: "length (digest_body (merkle_leaf schema parts)) = 32"
  by (simp add: merkle_leaf_def internal_digest_over_parts_reference)

lemma length_tree_digest [simp]: "length (digest_body (tree_digest schema t)) = 32"
  by (cases t) simp_all

lemma length_climb_path: "length (digest_body c) = 32 \<Longrightarrow> length (digest_body (climb_path schema c p)) = 32"
  by (induction schema c p rule: climb_path.induct) simp_all

lemma digest_preimages:
  "merkle_leaf schema [b] = DigestBytes (sha256_digest (internal_id_preimage Dom_MerkleLeaf schema b))"
  "merkle_node schema l r =
     DigestBytes (sha256_digest (internal_id_preimage Dom_MerkleNode schema (digest_body l @ digest_body r)))"
  "empty_merkle_root schema = DigestBytes (sha256_digest (internal_id_preimage Dom_MerkleNode schema []))"
  by (simp_all add: merkle_leaf_def merkle_node_def empty_merkle_root_def internal_digest_over_parts_reference)

section \<open>Soundness\<close>

lemma climb_path_sound:
  assumes schema: "short_family schema"
    and "\<not> colliding (tree_preimages schema t)
        (internal_id_preimage Dom_MerkleLeaf schema b # path_preimages schema (merkle_leaf schema [b]) path)"
    and "climb_path schema (merkle_leaf schema [b]) path = tree_digest schema t"
  shows "follow t (rev (map fst path)) = Some (Tip b)"
  using assms(2,3)
proof (induction path arbitrary: t rule: rev_induct)
  case Nil
  show ?case
  proof (cases t)
    case (Tip b')
    with Nil not_colliding [OF Nil(1)] have "internal_id_preimage Dom_MerkleLeaf schema b' = internal_id_preimage Dom_MerkleLeaf schema b"
      by (simp add: digest_preimages)
    with Tip show ?thesis
      by (simp add: preimage_inject [OF schema schema])
  next
    case (Fork l r)
    with Nil not_colliding [OF Nil(1)] have "internal_id_preimage Dom_MerkleNode schema
        (digest_body (tree_digest schema l) @ digest_body (tree_digest schema r)) = internal_id_preimage Dom_MerkleLeaf schema b"
      by (simp add: digest_preimages)
    then show ?thesis
      by (simp add: preimage_inject [OF schema schema])
  qed
next
  case (snoc step path)
  obtain left sibling where step: "step = (left, sibling)"
    by fastforce
  let ?c = "climb_path schema (merkle_leaf schema [b]) path"
  let ?body = "if left then digest_body ?c @ digest_body sibling else digest_body sibling @ digest_body ?c"
  have c: "length (digest_body ?c) = 32"
    by (rule length_climb_path) simp
  have digest: "sha256_digest (internal_id_preimage Dom_MerkleNode schema ?body) = digest_body (tree_digest schema t)"
    using arg_cong [OF snoc.prems(2), of digest_body] by (auto simp: climb_path_append step digest_preimages(2))
  have offered: "internal_id_preimage Dom_MerkleNode schema ?body \<in> set (internal_id_preimage Dom_MerkleLeaf schema b #
      path_preimages schema (merkle_leaf schema [b]) (path @ [step]))"
    by (simp add: path_preimages_append step)
  note equal = not_colliding [OF snoc.prems(1) _ offered]
  show ?case
  proof (cases t)
    case (Tip b')
    with equal [of "internal_id_preimage Dom_MerkleLeaf schema b'"] digest show ?thesis
      by (simp add: digest_preimages(1) preimage_inject [OF schema schema])
  next
    case (Fork l r)
    let ?child = "if left then l else r"
    let ?forked = "digest_body (tree_digest schema l) @ digest_body (tree_digest schema r)"
    have "internal_id_preimage Dom_MerkleNode schema ?forked = internal_id_preimage Dom_MerkleNode schema ?body"
      by (rule equal) (use Fork digest in \<open>simp_all only: tree_preimages.simps tree_digest.simps digest_preimages(2)
        digest_bytes.sel list.set insert_iff simp_thms\<close>)
    then have "?forked = ?body"
      by (simp only: preimage_inject [OF schema schema] simp_thms)
    then have "digest_body ?c = digest_body (tree_digest schema ?child)"
      using c length_tree_digest [of schema l] length_tree_digest [of schema r]
      by (cases left) (auto simp: append_eq_append_conv dest: arg_cong [of _ _ length])
    then have "?c = tree_digest schema ?child"
      by (rule digest_bytes.expand)
    moreover have "\<not> colliding (tree_preimages schema ?child)
        (internal_id_preimage Dom_MerkleLeaf schema b # path_preimages schema (merkle_leaf schema [b]) path)"
      using snoc.prems(1) Fork by (auto simp: path_preimages_append elim!: contrapos_nn colliding_mono)
    ultimately have "follow ?child (rev (map fst path)) = Some (Tip b)"
      by (rule snoc.IH [rotated])
    with Fork step show ?thesis
      by simp
  qed
qed

text \<open>A digest fixes the tree: the preimage at the top is the same, and so are the subtrees.\<close>

lemma top_preimage:
  "tree_digest schema t = DigestBytes (sha256_digest (hd (tree_preimages schema t))) \<and>
     hd (tree_preimages schema t) \<in> set (tree_preimages schema t)"
  by (cases t) (simp_all add: digest_preimages)

lemma same_top:
  assumes "\<not> colliding (tree_preimages schema t) (tree_preimages schema u)" "tree_digest schema t = tree_digest schema u"
  shows "hd (tree_preimages schema t) = hd (tree_preimages schema u)"
  by (rule not_colliding [OF assms(1)]) (use assms(2) top_preimage [of schema t] top_preimage [of schema u] in simp_all)

lemma tree_digest_inject:
  assumes schema: "short_family schema"
    and "\<not> colliding (tree_preimages schema t) (tree_preimages schema u)" "tree_digest schema t = tree_digest schema u"
  shows "t = u"
  using assms(2,3)
proof (induction t arbitrary: u)
  case (Tip b)
  from same_top [OF Tip] show ?case
    by (cases u) (simp_all add: preimage_inject [OF schema schema])
next
  case (Fork l r)
  note top = same_top [OF Fork.prems]
  show ?case
  proof (cases u)
    case (Tip b)
    with top show ?thesis
      by (simp add: preimage_inject [OF schema schema])
  next
    case u: (Fork l' r')
    with top have "tree_digest schema l = tree_digest schema l'" "tree_digest schema r = tree_digest schema r'"
      by (auto simp: preimage_inject [OF schema schema] append_eq_append_conv intro: digest_bytes.expand)
    moreover have "\<not> colliding (tree_preimages schema l) (tree_preimages schema l')"
        "\<not> colliding (tree_preimages schema r) (tree_preimages schema r')"
      using Fork.prems(1) u by (auto elim!: contrapos_nn colliding_mono)
    ultimately show ?thesis
      using Fork.IH u by simp
  qed
qed

section \<open>Roots over leaf bodies\<close>

abbreviation leaf_root :: "schema_id \<Rightarrow> bytes list \<Rightarrow> digest_bytes" where
  "leaf_root schema bodies \<equiv> merkle_root schema (map (\<lambda>b. merkle_leaf schema [b]) bodies)"

definition root_preimages :: "schema_id \<Rightarrow> bytes list \<Rightarrow> bytes list" where
  "root_preimages schema bodies =
     (if bodies = [] then [internal_id_preimage Dom_MerkleNode schema []] else tree_preimages schema (tree_of bodies))"

definition proof_preimages :: "schema_id \<Rightarrow> bytes \<Rightarrow> merkle_path \<Rightarrow> bytes list" where
  "proof_preimages schema body p =
     internal_id_preimage Dom_MerkleLeaf schema body # path_preimages schema (merkle_leaf schema [body]) (path_of p)"

lemma empty_root_sound:
  assumes schema: "short_family schema"
    and nc: "\<not> colliding [internal_id_preimage Dom_MerkleNode schema []]
      (internal_id_preimage Dom_MerkleLeaf schema b # path_preimages schema (merkle_leaf schema [b]) path)"
  shows "climb_path schema (merkle_leaf schema [b]) path \<noteq> empty_merkle_root schema"
proof (cases path rule: rev_cases)
  case Nil
  with not_colliding [OF nc, of "internal_id_preimage Dom_MerkleNode schema []" "internal_id_preimage Dom_MerkleLeaf schema b"]
  show ?thesis
    by (auto simp: digest_preimages preimage_inject [OF schema schema])
next
  case (snoc path' step)
  let ?c = "climb_path schema (merkle_leaf schema [b]) path'"
  have c: "length (digest_body ?c) = 32"
    by (rule length_climb_path) simp
  obtain left sibling where step: "step = (left, sibling)"
    by fastforce
  let ?body = "if left then digest_body ?c @ digest_body sibling else digest_body sibling @ digest_body ?c"
  have climb: "climb_path schema (merkle_leaf schema [b]) path = DigestBytes (sha256_digest (internal_id_preimage Dom_MerkleNode schema ?body))"
      "internal_id_preimage Dom_MerkleNode schema ?body \<in> set (path_preimages schema (merkle_leaf schema [b]) path)"
    by (simp_all add: snoc step climb_path_append path_preimages_append digest_preimages(2))
  with c not_colliding [OF nc, of "internal_id_preimage Dom_MerkleNode schema []"
      "internal_id_preimage Dom_MerkleNode schema ?body"]
  show ?thesis
    by (auto simp: digest_preimages(3) preimage_inject [OF schema schema] split: if_splits)
qed

lemma verified_path:
  assumes schema: "short_family schema"
    and verified: "verify_merkle_proof schema (leaf_root schema bodies) (merkle_leaf schema [b]) p"
    and nc: "\<not> colliding (root_preimages schema bodies) (proof_preimages schema b p)"
  shows "bodies \<noteq> [] \<and> follow (tree_of bodies) (rev (directions (mp_index p) (mp_leaf_count p))) = Some (Tip b)"
proof -
  from verified have climb: "climb_path schema (merkle_leaf schema [b]) (path_of p) = leaf_root schema bodies"
      "map fst (path_of p) = directions (mp_index p) (mp_leaf_count p)"
    by (simp_all add: verify_merkle_proof_path path_of_directions)
  have "bodies \<noteq> []"
  proof
    assume "bodies = []"
    with climb(1) nc empty_root_sound [OF schema, of b "path_of p"] show False
      by (simp add: root_preimages_def proof_preimages_def merkle_root_def)
  qed
  with climb nc climb_path_sound [OF schema, of "tree_of bodies" b "path_of p"] show ?thesis
    by (simp add: root_preimages_def proof_preimages_def tree_of_digest)
qed

lemma leaf_root_inject:
  assumes schema: "short_family schema" and same: "leaf_root schema bs = leaf_root schema cs"
    and nc: "\<not> colliding (root_preimages schema bs) (root_preimages schema cs)"
  shows "bs = cs"
proof -
  let ?e = "internal_id_preimage Dom_MerkleNode schema []"
  have empty: "tree_digest schema t \<noteq> empty_merkle_root schema"
    if "\<not> sha256_collision ?e (hd (tree_preimages schema t)) \<or> \<not> sha256_collision (hd (tree_preimages schema t)) ?e" for t
  proof
    assume "tree_digest schema t = empty_merkle_root schema"
    with that top_preimage [of schema t] have "hd (tree_preimages schema t) = ?e"
      by (auto simp: sha256_collision_def digest_preimages(3))
    then show False
      by (cases t) (auto simp: preimage_inject [OF schema schema] dest: arg_cong [of _ _ length])
  qed
  show ?thesis
  proof (cases "bs = [] \<or> cs = []")
    case True
    then show ?thesis
      using same nc empty [of "tree_of bs"] empty [of "tree_of cs"]
        top_preimage [of schema "tree_of bs"] top_preimage [of schema "tree_of cs"]
      by (cases "bs = []"; cases "cs = []")
        (auto simp: root_preimages_def tree_of_digest merkle_root_def colliding_def)
  next
    case False
    with same nc have "tree_of bs = tree_of cs"
      by (intro tree_digest_inject [OF schema]) (simp_all add: root_preimages_def tree_of_digest)
    with False show ?thesis
      using tree_of_frontier by metis
  qed
qed

section \<open>Sorted leaves\<close>

text \<open>
  What a layout promises: its schema has a short family, and a leaf body determines the entry among
  the admitted ones. Entries are listed in the strict order of a key.
\<close>

locale sorted_leaves =
  fixes schema :: schema_id and body :: "'e \<Rightarrow> bytes" and key :: "'e \<Rightarrow> 'k::linorder" and adm :: "'e \<Rightarrow> bool"
  assumes short: "short_family schema"
    and inject: "adm x \<Longrightarrow> adm y \<Longrightarrow> body x = body y \<Longrightarrow> x = y"
begin

lemma verified_leaf:
  assumes "verify_merkle_proof schema (leaf_root schema (map body es)) (merkle_leaf schema [body e]) p"
    "\<not> colliding (root_preimages schema (map body es)) (proof_preimages schema (body e) p)"
  shows "es \<noteq> [] \<and> frontier (tree_of (map body es)) = map body es \<and>
    follow (tree_of (map body es)) (rev (directions (mp_index p) (mp_leaf_count p))) = Some (Tip (body e)) \<and>
    mp_index p < mp_leaf_count p"
  using verified_path [OF short assms] assms(1) by (simp add: tree_of_frontier verify_merkle_proof_path)

lemma verified_member:
  assumes "verify_merkle_proof schema (leaf_root schema (map body es)) (merkle_leaf schema [body e]) p"
    "\<not> colliding (root_preimages schema (map body es)) (proof_preimages schema (body e) p)"
    "\<forall>x \<in> set es. adm x" "adm e"
  shows "e \<in> set es"
proof -
  note v = verified_leaf [OF assms(1,2)]
  have "\<exists>xs ys. frontier (tree_of (map body es)) = xs @ frontier (Tip (body e)) @ ys"
    by (rule follow_frontier) (use v in blast)
  with v obtain xs ys where "map body es = xs @ body e # ys"
    by auto
  then have "body e \<in> body ` set es"
    by (metis in_set_conv_decomp set_map)
  with assms(3,4) inject show ?thesis
    by auto
qed

lemma verified_first:
  assumes "verify_merkle_proof schema (leaf_root schema (map body es)) (merkle_leaf schema [body e]) p"
    "\<not> colliding (root_preimages schema (map body es)) (proof_preimages schema (body e) p)"
    "\<forall>x \<in> set es. adm x" "adm e" "mp_index p = 0"
  shows "es \<noteq> [] \<and> hd es = e"
proof -
  note v = verified_leaf [OF assms(1,2)]
  with directions_first [of "mp_leaf_count p"] assms(5) obtain n where "directions (mp_index p) (mp_leaf_count p) = replicate n True"
    by auto
  with v have "hd (map body es) = body e"
    using follow_first [of "tree_of (map body es)" n "body e"] by (simp add: rev_replicate)
  with v assms(3,4) inject [of "hd es" e] show ?thesis
    by (simp add: hd_map)
qed

lemma verified_last:
  assumes "verify_merkle_proof schema (leaf_root schema (map body es)) (merkle_leaf schema [body e]) p"
    "\<not> colliding (root_preimages schema (map body es)) (proof_preimages schema (body e) p)"
    "\<forall>x \<in> set es. adm x" "adm e" "Suc (mp_index p) = mp_leaf_count p"
  shows "es \<noteq> [] \<and> last es = e"
proof -
  note v = verified_leaf [OF assms(1,2)]
  have "mp_index p = mp_leaf_count p - 1"
    using assms(5) by simp
  with directions_last [of "mp_leaf_count p"] v obtain n where "directions (mp_index p) (mp_leaf_count p) = replicate n False"
    by (metis gr_zeroI less_nat_zero_code replicate_length_same)
  with v have "last (map body es) = body e"
    using follow_last [of "tree_of (map body es)" n "body e"] by (simp add: rev_replicate)
  with v assms(3,4) inject [of "last es" e] show ?thesis
    by (simp add: last_map)
qed

lemma verified_adjacent:
  assumes "verify_merkle_proof schema (leaf_root schema (map body es)) (merkle_leaf schema [body e]) p"
    "\<not> colliding (root_preimages schema (map body es)) (proof_preimages schema (body e) p)"
    "verify_merkle_proof schema (leaf_root schema (map body es)) (merkle_leaf schema [body f]) q"
    "\<not> colliding (root_preimages schema (map body es)) (proof_preimages schema (body f) q)"
    "\<forall>x \<in> set es. adm x" "adm e" "adm f" "mp_leaf_count p = mp_leaf_count q" "mp_index q = Suc (mp_index p)"
  shows "\<exists>xs ys. es = xs @ e # f # ys"
proof -
  note v = verified_leaf [OF assms(1,2)] and w = verified_leaf [OF assms(3,4)]
  from w assms(8,9) directions_adjacent [of "mp_index p" "mp_leaf_count p"] obtain ds a b where
      "directions (mp_index p) (mp_leaf_count p) = replicate a False @ True # ds"
      "directions (mp_index q) (mp_leaf_count q) = replicate b True @ False # ds"
    by auto
  with v w have "\<exists>xs ys. map body es = xs @ body e # body f # ys"
    using follow_adjacent [of "tree_of (map body es)" "rev ds" a "body e" b "body f"] by (simp add: rev_replicate)
  then obtain xs ys e' f' where split: "es = xs @ e' # f' # ys" "body e' = body e" "body f' = body f"
    by (auto simp: map_eq_append_conv map_eq_Cons_conv)
  with assms(5-7) inject [of e' e] inject [of f' f] show ?thesis
    by auto
qed

lemma root_inject:
  assumes "leaf_root schema (map body es) = leaf_root schema (map body fs)"
    "\<not> colliding (root_preimages schema (map body es)) (root_preimages schema (map body fs))"
    "\<forall>x \<in> set es. adm x" "\<forall>x \<in> set fs. adm x"
  shows "es = fs"
proof -
  have "map body es = map body fs"
    by (rule leaf_root_inject [OF short assms(1,2)])
  then show ?thesis
    by (rule map_inj_on) (unfold inj_on_def, use assms(3,4) inject in blast)
qed

end

end
