(* ===== verification/Layout_Proofs.thy ===== *)
theory Layout_Proofs
  imports Merkle_Soundness
begin

text \<open>
  The two authenticated layouts of \<open>merkle.rs\<close>: the ref state, with leaves sorted by name, and the
  object closure, with leaves sorted by object identity. Each has a root, membership proofs and
  proofs of absence by the neighbours a key would have stood between, and a verifier that sees only
  the root. The lemmas show that the built proofs verify and that a verified proof is true of the
  entries under the root, unless two hashed preimages collide.
\<close>

section \<open>Slices\<close>

text \<open>\<open>Iterator::position\<close>, \<open>slice::partition_point\<close> on a partitioned slice, and \<open>usize::checked_add(1)\<close>.\<close>

fun position :: "('a \<Rightarrow> bool) \<Rightarrow> 'a list \<Rightarrow> nat option" where
  "position P [] = None"
| "position P (x # xs) = (if P x then Some 0 else map_option Suc (position P xs))"

definition partition_point :: "('a \<Rightarrow> bool) \<Rightarrow> 'a list \<Rightarrow> nat" where
  "partition_point P xs = length (takeWhile P xs)"

definition usize_succ :: "nat \<Rightarrow> nat option" where
  "usize_succ n = (if n < 2 ^ 64 - 1 then Some (Suc n) else None)"

section \<open>The ref state\<close>

definition ref_state_schema :: schema_id where
  "ref_state_schema = SchemaId (AsciiSlug (bytes_of ''ref-state-merkle'')) 1 0"

definition ref_state_leaf :: "ref_name \<Rightarrow> git_oid \<Rightarrow> digest_bytes" where
  "ref_state_leaf name oid =
     merkle_leaf ref_state_schema
       [be_bytes (of_nat (length (ref_bytes name)) :: u32), ref_bytes name,
        be_bytes (hash_code_point (oid_algorithm oid)), oid_bytes oid]"

definition sorted_ref_state_entries ::
  "(ref_name \<times> git_oid) list \<Rightarrow> merkle_refusal + (ref_name \<times> git_oid) list" where
  "sorted_ref_state_entries entries =
     (let ordered = sort_key (\<lambda>e. ref_bytes (fst e)) entries in
      if \<not> distinct_adj (map (\<lambda>e. ref_bytes (fst e)) ordered) then Inl DuplicateRefName else Inr ordered)"

definition ordered_ref_state_leaves :: "(ref_name \<times> git_oid) list \<Rightarrow> merkle_refusal + digest_bytes list" where
  "ordered_ref_state_leaves entries =
     rbind (sorted_ref_state_entries entries) (\<lambda>ordered. Inr (map (\<lambda>(name, oid). ref_state_leaf name oid) ordered))"

definition ref_state_merkle_root :: "(ref_name \<times> git_oid) list \<Rightarrow> merkle_refusal + digest" where
  "ref_state_merkle_root entries =
     rbind (ordered_ref_state_leaves entries) (\<lambda>leaves.
       Inr (Digest (internal_algorithm_id (algorithm_of Dom_MerkleNode)) (merkle_root ref_state_schema leaves)))"

definition ref_state_membership_proof ::
  "(ref_name \<times> git_oid) list \<Rightarrow> ref_name \<Rightarrow> merkle_refusal + git_oid \<times> merkle_path" where
  "ref_state_membership_proof entries name =
     rbind (sorted_ref_state_entries entries) (\<lambda>ordered.
     rbind (or_raise RefNotPresent (position (\<lambda>(candidate, _). ref_bytes candidate = ref_bytes name) ordered)) (\<lambda>index.
     rbind (merkle_proof ref_state_schema (map (\<lambda>(name, oid). ref_state_leaf name oid) ordered) index) (\<lambda>path.
       Inr (snd (ordered ! index), path))))"

definition verify_ref_state_membership :: "digest \<Rightarrow> ref_name \<Rightarrow> git_oid \<Rightarrow> merkle_path \<Rightarrow> bool" where
  "verify_ref_state_membership root name oid path =
     (if digest_algorithm root \<noteq> internal_algorithm_id (algorithm_of Dom_MerkleNode) then False
      else verify_merkle_proof ref_state_schema (digest_value root) (ref_state_leaf name oid) path)"

definition verify_ref_state_membership_under ::
  "root_layout_version \<Rightarrow> digest \<Rightarrow> ref_name \<Rightarrow> git_oid \<Rightarrow> merkle_path \<Rightarrow> merkle_refusal + bool" where
  "verify_ref_state_membership_under version root name oid path =
     (if \<not> admits_ref_state_membership_proof version then Inl (LayoutAdmitsNoProof version)
      else Inr (verify_ref_state_membership root name oid path))"

record ref_state_neighbour =
  rn_name :: ref_name
  rn_oid :: git_oid
  rn_proof :: merkle_path

datatype ref_state_non_membership =
    RefEmptyState
  | RefBeforeFirst ref_state_neighbour
  | RefBetween ref_state_neighbour ref_state_neighbour
  | RefAfterLast ref_state_neighbour

definition ref_state_neighbour_at ::
  "(ref_name \<times> git_oid) list \<Rightarrow> nat \<Rightarrow> merkle_refusal + ref_state_neighbour" where
  "ref_state_neighbour_at ordered index =
     (let (candidate, oid) = ordered ! index in
      rbind (merkle_proof ref_state_schema (map (\<lambda>(name, oid). ref_state_leaf name oid) ordered) index) (\<lambda>path.
        Inr \<lparr>rn_name = candidate, rn_oid = oid, rn_proof = path\<rparr>))"

definition ref_state_non_membership_proof ::
  "(ref_name \<times> git_oid) list \<Rightarrow> ref_name \<Rightarrow> merkle_refusal + ref_state_non_membership" where
  "ref_state_non_membership_proof entries name =
     rbind (sorted_ref_state_entries entries) (\<lambda>ordered.
       if ordered = [] then Inr RefEmptyState
       else
         let insertion = partition_point (\<lambda>(candidate, _). ref_bytes candidate < ref_bytes name) ordered in
         if insertion < length ordered \<and> ref_bytes (fst (ordered ! insertion)) = ref_bytes name then Inl RefIsPresent
         else if insertion = 0
         then rbind (ref_state_neighbour_at ordered 0) (\<lambda>first. Inr (RefBeforeFirst first))
         else if insertion = length ordered
         then rbind (ref_state_neighbour_at ordered (length ordered - 1)) (\<lambda>final. Inr (RefAfterLast final))
         else
           rbind (ref_state_neighbour_at ordered (insertion - 1)) (\<lambda>predecessor.
           rbind (ref_state_neighbour_at ordered insertion) (\<lambda>successor.
             Inr (RefBetween predecessor successor))))"

definition verify_ref_state_non_membership :: "digest \<Rightarrow> ref_name \<Rightarrow> ref_state_non_membership \<Rightarrow> bool" where
  "verify_ref_state_non_membership root name claim =
     (if digest_algorithm root \<noteq> internal_algorithm_id (algorithm_of Dom_MerkleNode) then False
      else
        let holds = (\<lambda>n. verify_ref_state_membership root (rn_name n) (rn_oid n) (rn_proof n)) in
        case claim of
          RefEmptyState \<Rightarrow> digest_value root = empty_merkle_root ref_state_schema
        | RefBeforeFirst first \<Rightarrow>
            mp_index (rn_proof first) = 0 \<and> ref_bytes name < ref_bytes (rn_name first) \<and> holds first
        | RefAfterLast final \<Rightarrow>
            usize_succ (mp_index (rn_proof final)) = Some (mp_leaf_count (rn_proof final)) \<and>
            ref_bytes (rn_name final) < ref_bytes name \<and> holds final
        | RefBetween predecessor successor \<Rightarrow>
            mp_leaf_count (rn_proof predecessor) = mp_leaf_count (rn_proof successor) \<and>
            usize_succ (mp_index (rn_proof predecessor)) = Some (mp_index (rn_proof successor)) \<and>
            ref_bytes (rn_name predecessor) < ref_bytes name \<and> ref_bytes name < ref_bytes (rn_name successor) \<and>
            holds predecessor \<and> holds successor)"

definition verify_ref_state_non_membership_under ::
  "root_layout_version \<Rightarrow> digest \<Rightarrow> ref_name \<Rightarrow> ref_state_non_membership \<Rightarrow> merkle_refusal + bool" where
  "verify_ref_state_non_membership_under version root name claim =
     (if \<not> admits_ref_state_membership_proof version then Inl (LayoutAdmitsNoProof version)
      else Inr (verify_ref_state_non_membership root name claim))"

section \<open>The object closure\<close>

definition object_closure_schema :: schema_id where
  "object_closure_schema = SchemaId (AsciiSlug (bytes_of ''object-closure-merkle'')) 1 0"

definition object_closure_leaf :: "git_oid \<Rightarrow> digest_bytes" where
  "object_closure_leaf oid =
     merkle_leaf object_closure_schema [be_bytes (hash_code_point (oid_algorithm oid)), oid_bytes oid]"

definition sorted_object_closure_entries :: "git_oid list \<Rightarrow> merkle_refusal + git_oid list" where
  "sorted_object_closure_entries objects =
     (let ordered = sort objects in
      if \<not> distinct_adj ordered then Inl DuplicateObjectOid else Inr ordered)"

definition object_closure_merkle_root :: "git_oid list \<Rightarrow> merkle_refusal + digest" where
  "object_closure_merkle_root objects =
     rbind (sorted_object_closure_entries objects) (\<lambda>ordered.
       Inr (Digest (internal_algorithm_id (algorithm_of Dom_MerkleNode))
         (merkle_root object_closure_schema (map object_closure_leaf ordered))))"

definition object_closure_membership_proof :: "git_oid list \<Rightarrow> git_oid \<Rightarrow> merkle_refusal + merkle_path" where
  "object_closure_membership_proof objects oid =
     rbind (sorted_object_closure_entries objects) (\<lambda>ordered.
     rbind (or_raise ObjectNotPresent (position (\<lambda>candidate. candidate = oid) ordered)) (\<lambda>index.
       merkle_proof object_closure_schema (map object_closure_leaf ordered) index))"

definition verify_object_closure_membership :: "digest \<Rightarrow> git_oid \<Rightarrow> merkle_path \<Rightarrow> bool" where
  "verify_object_closure_membership root oid path =
     (if digest_algorithm root \<noteq> internal_algorithm_id (algorithm_of Dom_MerkleNode) then False
      else verify_merkle_proof object_closure_schema (digest_value root) (object_closure_leaf oid) path)"

definition verify_object_closure_membership_under ::
  "root_layout_version \<Rightarrow> digest \<Rightarrow> git_oid \<Rightarrow> merkle_path \<Rightarrow> merkle_refusal + bool" where
  "verify_object_closure_membership_under version root oid path =
     (if \<not> admits_object_closure_membership_proof version then Inl (LayoutAdmitsNoProof version)
      else Inr (verify_object_closure_membership root oid path))"

record object_closure_neighbour =
  on_oid :: git_oid
  on_proof :: merkle_path

datatype object_closure_non_membership =
    EmptyClosure
  | ObjectBeforeFirst object_closure_neighbour
  | ObjectBetween object_closure_neighbour object_closure_neighbour
  | ObjectAfterLast object_closure_neighbour

definition object_closure_neighbour_at :: "git_oid list \<Rightarrow> nat \<Rightarrow> merkle_refusal + object_closure_neighbour" where
  "object_closure_neighbour_at ordered index =
     rbind (merkle_proof object_closure_schema (map object_closure_leaf ordered) index) (\<lambda>path.
       Inr \<lparr>on_oid = ordered ! index, on_proof = path\<rparr>)"

definition object_closure_non_membership_proof ::
  "git_oid list \<Rightarrow> git_oid \<Rightarrow> merkle_refusal + object_closure_non_membership" where
  "object_closure_non_membership_proof objects oid =
     rbind (sorted_object_closure_entries objects) (\<lambda>ordered.
       if ordered = [] then Inr EmptyClosure
       else
         let insertion = partition_point (\<lambda>candidate. candidate < oid) ordered in
         if insertion < length ordered \<and> ordered ! insertion = oid then Inl ObjectIsPresent
         else if insertion = 0
         then rbind (object_closure_neighbour_at ordered 0) (\<lambda>first. Inr (ObjectBeforeFirst first))
         else if insertion = length ordered
         then rbind (object_closure_neighbour_at ordered (length ordered - 1)) (\<lambda>final. Inr (ObjectAfterLast final))
         else
           rbind (object_closure_neighbour_at ordered (insertion - 1)) (\<lambda>predecessor.
           rbind (object_closure_neighbour_at ordered insertion) (\<lambda>successor.
             Inr (ObjectBetween predecessor successor))))"

definition verify_object_closure_non_membership :: "digest \<Rightarrow> git_oid \<Rightarrow> object_closure_non_membership \<Rightarrow> bool" where
  "verify_object_closure_non_membership root oid claim =
     (if digest_algorithm root \<noteq> internal_algorithm_id (algorithm_of Dom_MerkleNode) then False
      else
        let holds = (\<lambda>n. verify_object_closure_membership root (on_oid n) (on_proof n)) in
        case claim of
          EmptyClosure \<Rightarrow> digest_value root = empty_merkle_root object_closure_schema
        | ObjectBeforeFirst first \<Rightarrow> mp_index (on_proof first) = 0 \<and> oid < on_oid first \<and> holds first
        | ObjectAfterLast final \<Rightarrow>
            usize_succ (mp_index (on_proof final)) = Some (mp_leaf_count (on_proof final)) \<and>
            on_oid final < oid \<and> holds final
        | ObjectBetween predecessor successor \<Rightarrow>
            mp_leaf_count (on_proof predecessor) = mp_leaf_count (on_proof successor) \<and>
            usize_succ (mp_index (on_proof predecessor)) = Some (mp_index (on_proof successor)) \<and>
            on_oid predecessor < oid \<and> oid < on_oid successor \<and> holds predecessor \<and> holds successor)"

definition verify_object_closure_non_membership_under ::
  "root_layout_version \<Rightarrow> digest \<Rightarrow> git_oid \<Rightarrow> object_closure_non_membership \<Rightarrow> merkle_refusal + bool" where
  "verify_object_closure_non_membership_under version root oid claim =
     (if \<not> admits_object_closure_membership_proof version then Inl (LayoutAdmitsNoProof version)
      else Inr (verify_object_closure_non_membership root oid claim))"

section \<open>Sorted slices\<close>

lemma sorted_distinct_adj: "sorted xs \<Longrightarrow> distinct_adj xs \<longleftrightarrow> distinct xs"
proof (induction xs rule: induct_list012)
  case (3 x y zs)
  then show ?case
    by (auto simp: order.antisym)
qed simp_all

lemma sorted_entries_iff:
  "sorted_ref_state_entries entries = Inr ordered \<longleftrightarrow>
     ordered = sort_key (\<lambda>e. ref_bytes (fst e)) entries \<and> distinct (map fst entries)"
proof -
  let ?key = "\<lambda>e :: ref_name \<times> git_oid. ref_bytes (fst e)"
  have "mset (map ?key (sort_key ?key entries)) = mset (map ?key entries)"
    by simp
  then have "distinct (map ?key (sort_key ?key entries)) \<longleftrightarrow> distinct (map ?key entries)"
    using mset_eq_imp_distinct_iff by blast
  moreover have "distinct (map ?key entries) \<longleftrightarrow> distinct (map fst entries)"
    using distinct_map [of ref_bytes "map fst entries"] by (auto simp: comp_def inj_on_def intro: ref_name.expand)
  moreover have "distinct_adj (map ?key (sort_key ?key entries)) \<longleftrightarrow> distinct (map ?key (sort_key ?key entries))"
    by (rule sorted_distinct_adj) simp
  ultimately show ?thesis
    by (auto simp: sorted_ref_state_entries_def Let_def)
qed

lemma sorted_objects_iff:
  "sorted_object_closure_entries objects = Inr ordered \<longleftrightarrow> ordered = sort objects \<and> distinct objects"
  by (auto simp: sorted_object_closure_entries_def Let_def sorted_distinct_adj)

lemma sorted_wrt_keys: "sorted (map key xs) \<Longrightarrow> distinct (map key xs) \<Longrightarrow> sorted_wrt (<) (map key xs)"
  by (simp add: strict_sorted_iff)

lemma position_Some: "position P xs = Some i \<Longrightarrow> i < length xs \<and> P (xs ! i)"
  by (induction xs arbitrary: i) (auto split: if_splits)

lemma position_total: "x \<in> set xs \<Longrightarrow> P x \<Longrightarrow> \<exists>i. position P xs = Some i"
  by (induction xs) auto

lemma merkle_proof_built:
  assumes "i < length leaves"
  obtains p where "merkle_proof schema leaves i = Inr p" "mp_index p = i" "mp_leaf_count p = length leaves"
    "verify_merkle_proof schema (merkle_root schema leaves) (leaves ! i) p"
proof -
  let ?p = "\<lparr>mp_index = i, mp_leaf_count = length leaves, mp_siblings = merkle_proof_loop schema leaves i []\<rparr>"
  from assms have "merkle_proof schema leaves i = Inr ?p"
    by (auto simp: merkle_proof_def)
  with merkle_proof_verifies [OF this] that show ?thesis
    by simp
qed

section \<open>Absence among sorted leaves\<close>

context sorted_leaves
begin

lemma absent_before:
  assumes "verify_merkle_proof schema (leaf_root schema (map body es)) (merkle_leaf schema [body e]) p"
    "\<not> colliding (root_preimages schema (map body es)) (proof_preimages schema (body e) p)"
    "\<forall>x \<in> set es. adm x" "adm e" "mp_index p = 0" "sorted_wrt (<) (map key es)" "k < key e"
  shows "k \<notin> key ` set es"
proof -
  from verified_first [OF assms(1-5)] obtain es' where "es = e # es'"
    by (cases es) auto
  with assms(6,7) show ?thesis
    by auto
qed

lemma absent_after:
  assumes "verify_merkle_proof schema (leaf_root schema (map body es)) (merkle_leaf schema [body e]) p"
    "\<not> colliding (root_preimages schema (map body es)) (proof_preimages schema (body e) p)"
    "\<forall>x \<in> set es. adm x" "adm e" "Suc (mp_index p) = mp_leaf_count p" "sorted_wrt (<) (map key es)" "key e < k"
  shows "k \<notin> key ` set es"
proof -
  from verified_last [OF assms(1-5)] obtain es' where "es = es' @ [e]"
    by (cases es rule: rev_cases) auto
  with assms(6,7) show ?thesis
    by (auto simp: sorted_wrt_append)
qed

lemma absent_between:
  assumes "verify_merkle_proof schema (leaf_root schema (map body es)) (merkle_leaf schema [body e]) p"
    "\<not> colliding (root_preimages schema (map body es)) (proof_preimages schema (body e) p)"
    "verify_merkle_proof schema (leaf_root schema (map body es)) (merkle_leaf schema [body f]) q"
    "\<not> colliding (root_preimages schema (map body es)) (proof_preimages schema (body f) q)"
    "\<forall>x \<in> set es. adm x" "adm e" "adm f" "mp_leaf_count p = mp_leaf_count q" "mp_index q = Suc (mp_index p)"
    "sorted_wrt (<) (map key es)" "key e < k" "k < key f"
  shows "k \<notin> key ` set es"
proof -
  from verified_adjacent [OF assms(1-9)] obtain xs ys where "es = xs @ e # f # ys"
    by blast
  with assms(10-12) show ?thesis
    by (auto simp: sorted_wrt_append)
qed

end

section \<open>The layouts keep the contract\<close>

definition ref_body :: "ref_name \<times> git_oid \<Rightarrow> bytes" where
  "ref_body e =
     be_bytes (of_nat (length (ref_bytes (fst e))) :: u32) @ ref_bytes (fst e) @
     be_bytes (hash_code_point (oid_algorithm (snd e))) @ oid_bytes (snd e)"

definition object_body :: "git_oid \<Rightarrow> bytes" where
  "object_body oid = be_bytes (hash_code_point (oid_algorithm oid)) @ oid_bytes oid"

lemma merkle_leaf_concat: "merkle_leaf schema parts = merkle_leaf schema [concat parts]"
  by (simp add: merkle_leaf_def internal_digest_over_parts_reference)

lemma ref_state_leaf_body: "ref_state_leaf name oid = merkle_leaf ref_state_schema [ref_body (name, oid)]"
  unfolding ref_state_leaf_def by (subst merkle_leaf_concat) (simp add: ref_body_def)

lemma object_closure_leaf_body: "object_closure_leaf oid = merkle_leaf object_closure_schema [object_body oid]"
  unfolding object_closure_leaf_def by (subst merkle_leaf_concat) (simp add: object_body_def)

lemma object_body_inject: "object_body x = object_body y \<Longrightarrow> x = y"
  by (cases x; cases y) (auto simp: object_body_def)

interpretation closure_leaves: sorted_leaves object_closure_schema object_body "\<lambda>oid. oid" "\<lambda>_. True"
  by unfold_locales (auto simp: object_closure_schema_def short_family_def MAX_LABEL_LEN_def intro: object_body_inject)

abbreviation short_name :: "ref_name \<Rightarrow> bool" where
  "short_name name \<equiv> length (ref_bytes name) \<le> MAX_REF_NAME_LEN"

lemma ref_body_inject:
  assumes "short_name (fst x)" "short_name (fst y)" "ref_body x = ref_body y"
  shows "x = y"
proof -
  from assms(3) have "(of_nat (length (ref_bytes (fst x))) :: u32) = of_nat (length (ref_bytes (fst y)))"
      and rest: "ref_bytes (fst x) @ object_body (snd x) = ref_bytes (fst y) @ object_body (snd y)"
    by (auto simp: ref_body_def object_body_def append_eq_append_conv)
  then have "length (ref_bytes (fst x)) = length (ref_bytes (fst y))"
    using assms(1,2) by (simp add: MAX_REF_NAME_LEN_def word_of_nat_eq_iff take_bit_nat_eq_self)
  with rest have "ref_bytes (fst x) = ref_bytes (fst y)" "object_body (snd x) = object_body (snd y)"
    by simp_all
  then show ?thesis
    using object_body_inject by (metis prod.expand ref_name.expand)
qed

interpretation ref_leaves: sorted_leaves ref_state_schema ref_body "\<lambda>e. ref_bytes (fst e)" "\<lambda>e. short_name (fst e)"
  by unfold_locales
    (simp add: ref_state_schema_def short_family_def MAX_LABEL_LEN_def, erule (2) ref_body_inject)

section \<open>Ref states\<close>

abbreviation sorted_refs :: "(ref_name \<times> git_oid) list \<Rightarrow> (ref_name \<times> git_oid) list" where
  "sorted_refs entries \<equiv> sort_key (\<lambda>e. ref_bytes (fst e)) entries"

definition ref_root_preimages :: "(ref_name \<times> git_oid) list \<Rightarrow> bytes list" where
  "ref_root_preimages entries = root_preimages ref_state_schema (map ref_body (sorted_refs entries))"

definition ref_proof_preimages :: "ref_name \<Rightarrow> git_oid \<Rightarrow> merkle_path \<Rightarrow> bytes list" where
  "ref_proof_preimages name oid path = proof_preimages ref_state_schema (ref_body (name, oid)) path"

definition ref_neighbours :: "ref_state_non_membership \<Rightarrow> ref_state_neighbour list" where
  "ref_neighbours claim =
     (case claim of RefEmptyState \<Rightarrow> [] | RefBeforeFirst n \<Rightarrow> [n] | RefAfterLast n \<Rightarrow> [n] | RefBetween m n \<Rightarrow> [m, n])"

definition ref_claim_preimages :: "ref_state_non_membership \<Rightarrow> bytes list" where
  "ref_claim_preimages claim =
     internal_id_preimage Dom_MerkleNode ref_state_schema [] #
     concat (map (\<lambda>n. ref_proof_preimages (rn_name n) (rn_oid n) (rn_proof n)) (ref_neighbours claim))"

abbreviation short_names :: "(ref_name \<times> git_oid) list \<Rightarrow> bool" where
  "short_names entries \<equiv> \<forall>e \<in> set entries. short_name (fst e)"

lemma ref_root_iff:
  "ref_state_merkle_root entries = Inr root \<longleftrightarrow>
     distinct (map fst entries) \<and>
     root = Digest (internal_algorithm_id InternalSha256) (leaf_root ref_state_schema (map ref_body (sorted_refs entries)))"
proof -
  have leaves: "map (\<lambda>(name, oid). ref_state_leaf name oid) xs =
      map (\<lambda>b. merkle_leaf ref_state_schema [b]) (map ref_body xs)" for xs
    by (auto simp: ref_state_leaf_body)
  show ?thesis
    by (auto simp: ref_state_merkle_root_def ordered_ref_state_leaves_def sorted_entries_iff leaves domain_facts(3))
qed

lemma ref_sorted_wrt: "distinct (map fst entries) \<Longrightarrow> sorted_wrt (<) (map (\<lambda>e. ref_bytes (fst e)) (sorted_refs entries))"
proof (rule sorted_wrt_keys)
  assume "distinct (map fst entries)"
  then have "sorted_ref_state_entries entries = Inr (sorted_refs entries)"
    by (simp add: sorted_entries_iff)
  then have "distinct_adj (map (\<lambda>e. ref_bytes (fst e)) (sorted_refs entries))"
    by (simp add: sorted_ref_state_entries_def Let_def split: if_splits)
  then show "distinct (map (\<lambda>e. ref_bytes (fst e)) (sorted_refs entries))"
    by (simp add: sorted_distinct_adj)
qed simp

lemma ref_membership_sound:
  assumes "ref_state_merkle_root entries = Inr root" "verify_ref_state_membership root name oid path"
    "short_names entries" "short_name name"
    "\<not> colliding (ref_root_preimages entries) (ref_proof_preimages name oid path)"
  shows "(name, oid) \<in> set entries"
  using assms ref_leaves.verified_member [of "sorted_refs entries" "(name, oid)" path]
  by (auto simp: ref_root_iff verify_ref_state_membership_def ref_state_leaf_body ref_root_preimages_def
      ref_proof_preimages_def split: if_splits)

lemma ref_root_commits:
  assumes "ref_state_merkle_root es = Inr root" "ref_state_merkle_root fs = Inr root" "short_names es" "short_names fs"
    "\<not> colliding (ref_root_preimages es) (ref_root_preimages fs)"
  shows "mset es = mset fs"
proof -
  have "sorted_refs es = sorted_refs fs"
    using assms by (intro ref_leaves.root_inject) (auto simp: ref_root_iff ref_root_preimages_def)
  then show ?thesis
    by (metis mset_sort)
qed

lemma ref_absence_sound:
  assumes root: "ref_state_merkle_root entries = Inr root" and verified: "verify_ref_state_non_membership root name claim"
    and short: "short_names entries" "\<forall>n \<in> set (ref_neighbours claim). short_name (rn_name n)"
    and nc: "\<not> colliding (ref_root_preimages entries) (ref_claim_preimages claim)"
  shows "name \<notin> fst ` set entries"
proof -
  let ?es = "sorted_refs entries"
  let ?key = "\<lambda>e :: ref_name \<times> git_oid. ref_bytes (fst e)"
  from root have r: "digest_value root = leaf_root ref_state_schema (map ref_body ?es)" "sorted_wrt (<) (map ?key ?es)"
    by (auto simp: ref_root_iff dest: ref_sorted_wrt)
  have es: "\<forall>e \<in> set ?es. short_name (fst e)"
    using short(1) by simp
  have nc': "\<not> colliding (root_preimages ref_state_schema (map ref_body ?es))
      (proof_preimages ref_state_schema (ref_body (rn_name n, rn_oid n)) (rn_proof n))" if "n \<in> set (ref_neighbours claim)" for n
    using nc that by (auto simp: ref_root_preimages_def ref_claim_preimages_def ref_proof_preimages_def elim!: contrapos_nn colliding_mono)
  have holds: "verify_ref_state_membership root (rn_name n) (rn_oid n) (rn_proof n) \<Longrightarrow>
      verify_merkle_proof ref_state_schema (leaf_root ref_state_schema (map ref_body ?es))
        (merkle_leaf ref_state_schema [ref_body (rn_name n, rn_oid n)]) (rn_proof n)" for n
    by (simp add: verify_ref_state_membership_def ref_state_leaf_body r(1) split: if_splits)
  have "?key (name, undefined) \<notin> ?key ` set ?es"
  proof (cases claim)
    case RefEmptyState
    with verified have "leaf_root ref_state_schema (map ref_body ?es) = leaf_root ref_state_schema []"
      by (simp add: verify_ref_state_non_membership_def r(1) merkle_root_def split: if_splits)
    moreover have "\<not> colliding (root_preimages ref_state_schema (map ref_body ?es)) (root_preimages ref_state_schema [])"
      using nc by (auto simp: ref_root_preimages_def ref_claim_preimages_def root_preimages_def elim!: contrapos_nn colliding_mono)
    ultimately have "?es = []"
      using leaf_root_inject [OF ref_leaves.short] by blast
    then show ?thesis
      by simp
  next
    case (RefBeforeFirst n)
    with verified short(2) show ?thesis
      by (intro ref_leaves.absent_before [OF holds nc' es _ _ r(2)])
        (auto simp: verify_ref_state_non_membership_def ref_neighbours_def Let_def split: if_splits)
  next
    case (RefAfterLast n)
    with verified short(2) show ?thesis
      by (intro ref_leaves.absent_after [OF holds nc' es _ _ r(2)])
        (auto simp: verify_ref_state_non_membership_def ref_neighbours_def Let_def usize_succ_def split: if_splits)
  next
    case (RefBetween m n)
    with verified short(2) show ?thesis
      by (intro ref_leaves.absent_between [OF holds [of m] nc' [of m] holds [of n] nc' [of n] es _ _ _ _ r(2)])
        (auto simp: verify_ref_state_non_membership_def ref_neighbours_def Let_def usize_succ_def split: if_splits)
  qed
  then show ?thesis
    by auto
qed

text \<open>Where an absent key would stand.\<close>

lemma insertion_place:
  fixes key :: "'e \<Rightarrow> 'k::linorder"
  assumes i: "i = partition_point (\<lambda>x. key x < k) xs" and "xs \<noteq> []" and absent: "k \<notin> key ` set xs"
  obtains (before) "i = 0" "0 < length xs" "k < key (xs ! 0)"
    | (after) "0 < i" "i = length xs" "length xs - 1 < length xs" "key (xs ! (length xs - 1)) < k"
    | (between) "0 < i" "i < length xs" "i - 1 < length xs" "key (xs ! (i - 1)) < k" "k < key (xs ! i)"
proof -
  have "i \<le> length xs"
    by (simp add: i partition_point_def length_takeWhile_le)
  moreover have "key (xs ! (i - 1)) < k" if "0 < i"
  proof -
    from that have "i - 1 < length (takeWhile (\<lambda>x. key x < k) xs)"
      by (simp add: i partition_point_def)
    then show ?thesis
      by (metis nth_mem set_takeWhileD takeWhile_nth)
  qed
  moreover have "k < key (xs ! i)" if "i < length xs"
  proof -
    have "\<not> key (xs ! i) < k"
      using that nth_length_takeWhile [of "\<lambda>x. key x < k" xs] by (simp add: i partition_point_def)
    moreover have "key (xs ! i) \<noteq> k"
      using that absent by auto
    ultimately show ?thesis
      by simp
  qed
  ultimately show thesis
    using that \<open>xs \<noteq> []\<close> by (cases "i = 0"; cases "i = length xs") auto
qed

lemma ref_neighbour_built:
  assumes "i < length ordered"
  obtains n where "ref_state_neighbour_at ordered i = Inr n" "(rn_name n, rn_oid n) = ordered ! i"
    "mp_index (rn_proof n) = i" "mp_leaf_count (rn_proof n) = length ordered"
    "verify_ref_state_membership (Digest (internal_algorithm_id InternalSha256)
       (leaf_root ref_state_schema (map ref_body ordered))) (rn_name n) (rn_oid n) (rn_proof n)"
proof -
  let ?leaves = "map (\<lambda>(name, oid). ref_state_leaf name oid) ordered"
  obtain name oid where entry: "ordered ! i = (name, oid)"
    by fastforce
  from assms obtain p where p: "merkle_proof ref_state_schema ?leaves i = Inr p" "mp_index p = i" "mp_leaf_count p = length ordered"
      "verify_merkle_proof ref_state_schema (merkle_root ref_state_schema ?leaves) (?leaves ! i) p"
    using merkle_proof_built [of i ?leaves ref_state_schema] by (metis length_map)
  have leaves: "map (\<lambda>b. merkle_leaf ref_state_schema [b]) (map ref_body ordered) = ?leaves"
    by (auto simp: ref_state_leaf_body)
  with p assms entry that [unfolded leaves, of "\<lparr>rn_name = name, rn_oid = oid, rn_proof = p\<rparr>"] show ?thesis
    by (simp add: ref_state_neighbour_at_def verify_ref_state_membership_def domain_facts(3))
qed

lemma ref_absence_complete:
  assumes root: "ref_state_merkle_root entries = Inr root" and absent: "name \<notin> fst ` set entries"
    and fits: "length entries < 2 ^ 64"
  obtains claim where "ref_state_non_membership_proof entries name = Inr claim" "verify_ref_state_non_membership root name claim"
proof -
  let ?es = "sorted_refs entries"
  let ?root = "Digest (internal_algorithm_id InternalSha256) (leaf_root ref_state_schema (map ref_body ?es))"
  let ?below = "\<lambda>(candidate, _ :: git_oid). ref_bytes candidate < ref_bytes name"
  define i where "i = partition_point ?below ?es"
  have i: "i = partition_point (\<lambda>e. ref_bytes (fst e) < ref_bytes name) ?es"
    by (simp add: i_def case_prod_beta')
  have absent': "ref_bytes name \<notin> (\<lambda>e. ref_bytes (fst e)) ` set ?es"
    using absent by (auto dest!: ref_name.expand)
  from root have r: "root = ?root" "sorted_ref_state_entries entries = Inr ?es"
    by (simp_all add: ref_root_iff sorted_entries_iff)
  have here: "\<not> (i < length ?es \<and> ref_bytes (fst (?es ! i)) = ref_bytes name)"
  proof
    assume "i < length ?es \<and> ref_bytes (fst (?es ! i)) = ref_bytes name"
    then have "ref_bytes name = ref_bytes (fst (?es ! i))" "?es ! i \<in> set ?es"
      by (auto simp del: length_sort set_sort)
    then have "ref_bytes name \<in> (\<lambda>e. ref_bytes (fst e)) ` set ?es"
      by (rule image_eqI)
    with absent' show False
      by contradiction
  qed
  note step = ref_state_non_membership_proof_def [of entries name] r(2) i_def [symmetric] Let_def
  note check = verify_ref_state_non_membership_def r(1) domain_facts(3)
  show thesis
  proof (cases "?es = []")
    case True
    then show thesis
      by (intro that [of RefEmptyState]) (simp_all add: step check merkle_root_def)
  next
    case False
    from i False absent' show thesis
    proof (cases rule: insertion_place)
      case before
      from ref_neighbour_built [OF before(2)] obtain n where "ref_state_neighbour_at ?es 0 = Inr n"
          "(rn_name n, rn_oid n) = ?es ! 0" "mp_index (rn_proof n) = 0"
          "verify_ref_state_membership ?root (rn_name n) (rn_oid n) (rn_proof n)"
        by metis
      moreover from this(2) before(3) have "ref_bytes name < ref_bytes (rn_name n)"
        by (metis fst_conv)
      ultimately show thesis
        using before(1) False here by (intro that [of "RefBeforeFirst n"]) (simp_all add: step check)
    next
      case after
      from ref_neighbour_built [OF after(3)] obtain n where "ref_state_neighbour_at ?es (length ?es - 1) = Inr n"
          "(rn_name n, rn_oid n) = ?es ! (length ?es - 1)" "mp_index (rn_proof n) = length ?es - 1"
          "mp_leaf_count (rn_proof n) = length ?es" "verify_ref_state_membership ?root (rn_name n) (rn_oid n) (rn_proof n)"
        by metis
      moreover from this(2) after(4) have "ref_bytes (rn_name n) < ref_bytes name"
        by (metis fst_conv)
      ultimately show thesis
        using after False here fits by (intro that [of "RefAfterLast n"]) (simp_all add: step check usize_succ_def)
    next
      case between
      from ref_neighbour_built [OF between(3)] obtain m where "ref_state_neighbour_at ?es (i - 1) = Inr m"
          and m: "(rn_name m, rn_oid m) = ?es ! (i - 1)" "mp_index (rn_proof m) = i - 1"
          "mp_leaf_count (rn_proof m) = length ?es" "verify_ref_state_membership ?root (rn_name m) (rn_oid m) (rn_proof m)"
        by metis
      moreover from ref_neighbour_built [OF between(2)] obtain n where "ref_state_neighbour_at ?es i = Inr n"
          and n: "(rn_name n, rn_oid n) = ?es ! i" "mp_index (rn_proof n) = i"
          "mp_leaf_count (rn_proof n) = length ?es" "verify_ref_state_membership ?root (rn_name n) (rn_oid n) (rn_proof n)"
        by metis
      moreover from between(4,5) m(1) n(1) have "ref_bytes (rn_name m) < ref_bytes name" "ref_bytes name < ref_bytes (rn_name n)"
        by (metis fst_conv)+
      ultimately show thesis
        using between False here fits by (intro that [of "RefBetween m n"]) (auto simp: step check usize_succ_def)
    qed
  qed
qed

lemma ref_membership_complete:
  assumes root: "ref_state_merkle_root entries = Inr root" and entry: "(name, oid) \<in> set entries"
  obtains path where "ref_state_membership_proof entries name = Inr (oid, path)" "verify_ref_state_membership root name oid path"
proof -
  let ?es = "sorted_refs entries"
  let ?same = "\<lambda>(candidate, _ :: git_oid). ref_bytes candidate = ref_bytes name"
  from root have r: "root = Digest (internal_algorithm_id InternalSha256) (leaf_root ref_state_schema (map ref_body ?es))"
      "sorted_ref_state_entries entries = Inr ?es" "distinct (map fst entries)"
    by (simp_all add: ref_root_iff sorted_entries_iff)
  obtain i where i: "position ?same ?es = Some i"
    using position_total [of "(name, oid)" ?es ?same] entry by auto
  then have index: "i < length ?es" "?same (?es ! i)"
    using position_Some [OF i] by simp_all
  then have "fst (?es ! i) = name" "?es ! i \<in> set entries"
    by (auto intro: ref_name.expand simp del: length_sort dest: nth_mem)
  with entry r(3) have found: "?es ! i = (name, oid)"
    by (metis eq_key_imp_eq_value prod.collapse)
  from ref_neighbour_built [OF index(1)] obtain n where n: "ref_state_neighbour_at ?es i = Inr n"
      "(rn_name n, rn_oid n) = ?es ! i" "verify_ref_state_membership root (rn_name n) (rn_oid n) (rn_proof n)"
    unfolding r(1) by metis
  then have "merkle_proof ref_state_schema (map (\<lambda>(name, oid). ref_state_leaf name oid) ?es) i = Inr (rn_proof n)"
    by (cases n) (auto simp: ref_state_neighbour_at_def found)
  with i found n(2,3) r(2) that [of "rn_proof n"] show thesis
    by (simp add: ref_state_membership_proof_def or_raise_def)
qed

section \<open>Object closures\<close>

definition closure_root_preimages :: "git_oid list \<Rightarrow> bytes list" where
  "closure_root_preimages objects = root_preimages object_closure_schema (map object_body (sort objects))"

definition closure_proof_preimages :: "git_oid \<Rightarrow> merkle_path \<Rightarrow> bytes list" where
  "closure_proof_preimages oid path = proof_preimages object_closure_schema (object_body oid) path"

definition closure_neighbours :: "object_closure_non_membership \<Rightarrow> object_closure_neighbour list" where
  "closure_neighbours claim =
     (case claim of EmptyClosure \<Rightarrow> [] | ObjectBeforeFirst n \<Rightarrow> [n] | ObjectAfterLast n \<Rightarrow> [n] | ObjectBetween m n \<Rightarrow> [m, n])"

definition closure_claim_preimages :: "object_closure_non_membership \<Rightarrow> bytes list" where
  "closure_claim_preimages claim =
     internal_id_preimage Dom_MerkleNode object_closure_schema [] #
     concat (map (\<lambda>n. closure_proof_preimages (on_oid n) (on_proof n)) (closure_neighbours claim))"

lemma closure_leaves_map:
  "map object_closure_leaf xs = map (\<lambda>b. merkle_leaf object_closure_schema [b]) (map object_body xs)"
  by (simp add: object_closure_leaf_body)

lemma closure_root_iff:
  "object_closure_merkle_root objects = Inr root \<longleftrightarrow>
     distinct objects \<and>
     root = Digest (internal_algorithm_id InternalSha256) (leaf_root object_closure_schema (map object_body (sort objects)))"
  by (auto simp: object_closure_merkle_root_def sorted_objects_iff closure_leaves_map domain_facts(3) simp del: map_map)

lemma closure_membership_sound:
  assumes "object_closure_merkle_root objects = Inr root" "verify_object_closure_membership root oid path"
    "\<not> colliding (closure_root_preimages objects) (closure_proof_preimages oid path)"
  shows "oid \<in> set objects"
  using assms closure_leaves.verified_member [of "sort objects" oid path]
  by (auto simp: closure_root_iff verify_object_closure_membership_def object_closure_leaf_body closure_root_preimages_def
      closure_proof_preimages_def split: if_splits)

lemma closure_absence_sound:
  assumes root: "object_closure_merkle_root objects = Inr root"
    and verified: "verify_object_closure_non_membership root oid claim"
    and nc: "\<not> colliding (closure_root_preimages objects) (closure_claim_preimages claim)"
  shows "oid \<notin> set objects"
proof -
  let ?es = "sort objects"
  from root have r: "digest_value root = leaf_root object_closure_schema (map object_body ?es)"
      "sorted_wrt (<) (map (\<lambda>oid. oid) ?es)"
    by (auto simp: closure_root_iff strict_sorted_iff)
  have nc': "\<not> colliding (root_preimages object_closure_schema (map object_body ?es))
      (proof_preimages object_closure_schema (object_body (on_oid n)) (on_proof n))" if "n \<in> set (closure_neighbours claim)" for n
    using nc that by (auto simp: closure_root_preimages_def closure_claim_preimages_def closure_proof_preimages_def
        elim!: contrapos_nn colliding_mono)
  have holds: "verify_object_closure_membership root (on_oid n) (on_proof n) \<Longrightarrow>
      verify_merkle_proof object_closure_schema (leaf_root object_closure_schema (map object_body ?es))
        (merkle_leaf object_closure_schema [object_body (on_oid n)]) (on_proof n)" for n
    by (simp add: verify_object_closure_membership_def object_closure_leaf_body r(1) split: if_splits)
  have all: "\<forall>x \<in> set ?es. True"
    by simp
  have "oid \<notin> (\<lambda>oid. oid) ` set ?es"
  proof (cases claim)
    case EmptyClosure
    with verified have "leaf_root object_closure_schema (map object_body ?es) = leaf_root object_closure_schema []"
      by (simp add: verify_object_closure_non_membership_def r(1) merkle_root_def split: if_splits)
    moreover have "\<not> colliding (root_preimages object_closure_schema (map object_body ?es)) (root_preimages object_closure_schema [])"
      using nc by (auto simp: closure_root_preimages_def closure_claim_preimages_def root_preimages_def
          elim!: contrapos_nn colliding_mono)
    ultimately have "map object_body ?es = []"
      by (rule leaf_root_inject [OF closure_leaves.short])
    then show ?thesis
      by simp
  next
    case (ObjectBeforeFirst n)
    with verified show ?thesis
      by (intro closure_leaves.absent_before [OF holds nc' all _ _ r(2)])
        (auto simp: verify_object_closure_non_membership_def closure_neighbours_def Let_def split: if_splits)
  next
    case (ObjectAfterLast n)
    with verified show ?thesis
      by (intro closure_leaves.absent_after [OF holds nc' all _ _ r(2)])
        (auto simp: verify_object_closure_non_membership_def closure_neighbours_def Let_def usize_succ_def split: if_splits)
  next
    case (ObjectBetween m n)
    with verified show ?thesis
      by (intro closure_leaves.absent_between [OF holds [of m] nc' [of m] holds [of n] nc' [of n] all _ _ _ _ r(2)])
        (auto simp: verify_object_closure_non_membership_def closure_neighbours_def Let_def usize_succ_def split: if_splits)
  qed
  then show ?thesis
    by simp
qed

lemma closure_neighbour_built:
  assumes "i < length ordered"
  obtains n where "object_closure_neighbour_at ordered i = Inr n" "on_oid n = ordered ! i"
    "mp_index (on_proof n) = i" "mp_leaf_count (on_proof n) = length ordered"
    "verify_object_closure_membership (Digest (internal_algorithm_id InternalSha256)
       (leaf_root object_closure_schema (map object_body ordered))) (on_oid n) (on_proof n)"
proof -
  let ?leaves = "map object_closure_leaf ordered"
  from assms obtain p where "merkle_proof object_closure_schema ?leaves i = Inr p" "mp_index p = i" "mp_leaf_count p = length ordered"
      "verify_merkle_proof object_closure_schema (merkle_root object_closure_schema ?leaves) (?leaves ! i) p"
    using merkle_proof_built [of i ?leaves object_closure_schema] by (metis length_map)
  with assms that [unfolded closure_leaves_map [symmetric], of "\<lparr>on_oid = ordered ! i, on_proof = p\<rparr>"] show ?thesis
    by (simp add: object_closure_neighbour_at_def verify_object_closure_membership_def domain_facts(3))
qed

lemma closure_membership_complete:
  assumes root: "object_closure_merkle_root objects = Inr root" and entry: "oid \<in> set objects"
  obtains path where "object_closure_membership_proof objects oid = Inr path" "verify_object_closure_membership root oid path"
proof -
  let ?es = "sort objects"
  from root have r: "root = Digest (internal_algorithm_id InternalSha256) (leaf_root object_closure_schema (map object_body ?es))"
      "sorted_object_closure_entries objects = Inr ?es"
    by (simp_all add: closure_root_iff sorted_objects_iff)
  obtain i where i: "position (\<lambda>candidate. candidate = oid) ?es = Some i"
    using position_total [of oid ?es "\<lambda>candidate. candidate = oid"] entry by auto
  then have index: "i < length ?es" "?es ! i = oid"
    using position_Some [OF i] by simp_all
  from closure_neighbour_built [OF index(1)] obtain n where n: "object_closure_neighbour_at ?es i = Inr n"
      "on_oid n = ?es ! i" "verify_object_closure_membership root (on_oid n) (on_proof n)"
    unfolding r(1) by metis
  then have "merkle_proof object_closure_schema (map object_closure_leaf ?es) i = Inr (on_proof n)"
    by (cases n) (auto simp: object_closure_neighbour_at_def)
  with i index n(2,3) r(2) that [of "on_proof n"] show thesis
    by (simp add: object_closure_membership_proof_def or_raise_def)
qed

lemma closure_absence_complete:
  assumes root: "object_closure_merkle_root objects = Inr root" and absent: "oid \<notin> set objects"
    and fits: "length objects < 2 ^ 64"
  obtains claim where "object_closure_non_membership_proof objects oid = Inr claim"
    "verify_object_closure_non_membership root oid claim"
proof -
  let ?es = "sort objects"
  let ?root = "Digest (internal_algorithm_id InternalSha256) (leaf_root object_closure_schema (map object_body ?es))"
  define i where "i = partition_point (\<lambda>candidate. candidate < oid) ?es"
  have absent': "oid \<notin> (\<lambda>oid. oid) ` set ?es"
    using absent by simp
  from root have r: "root = ?root" "sorted_object_closure_entries objects = Inr ?es"
    by (simp_all add: closure_root_iff sorted_objects_iff)
  have here: "\<not> (i < length ?es \<and> ?es ! i = oid)"
    using absent by (metis nth_mem set_sort)
  note step = object_closure_non_membership_proof_def [of objects oid] r(2) i_def [symmetric] Let_def
  note check = verify_object_closure_non_membership_def r(1) domain_facts(3)
  show thesis
  proof (cases "?es = []")
    case True
    then show thesis
      by (intro that [of EmptyClosure]) (simp_all add: step check merkle_root_def)
  next
    case False
    from i_def False absent' show thesis
    proof (cases rule: insertion_place)
      case before
      from closure_neighbour_built [OF before(2)] obtain n where "object_closure_neighbour_at ?es 0 = Inr n"
          "on_oid n = ?es ! 0" "mp_index (on_proof n) = 0" "verify_object_closure_membership ?root (on_oid n) (on_proof n)"
        by metis
      with before(1,3) False here show thesis
        by (intro that [of "ObjectBeforeFirst n"]) (simp_all add: step check)
    next
      case after
      from closure_neighbour_built [OF after(3)] obtain n where "object_closure_neighbour_at ?es (length ?es - 1) = Inr n"
          "on_oid n = ?es ! (length ?es - 1)" "mp_index (on_proof n) = length ?es - 1"
          "mp_leaf_count (on_proof n) = length ?es" "verify_object_closure_membership ?root (on_oid n) (on_proof n)"
        by metis
      with after False here fits show thesis
        by (intro that [of "ObjectAfterLast n"]) (simp_all add: step check usize_succ_def)
    next
      case between
      from closure_neighbour_built [OF between(3)] obtain m where "object_closure_neighbour_at ?es (i - 1) = Inr m"
          "on_oid m = ?es ! (i - 1)" "mp_index (on_proof m) = i - 1" "mp_leaf_count (on_proof m) = length ?es"
          "verify_object_closure_membership ?root (on_oid m) (on_proof m)"
        by metis
      moreover from closure_neighbour_built [OF between(2)] obtain n where "object_closure_neighbour_at ?es i = Inr n"
          "on_oid n = ?es ! i" "mp_index (on_proof n) = i" "mp_leaf_count (on_proof n) = length ?es"
          "verify_object_closure_membership ?root (on_oid n) (on_proof n)"
        by metis
      ultimately show thesis
        using between False here fits by (intro that [of "ObjectBetween m n"]) (auto simp: step check usize_succ_def)
    qed
  qed
qed

end
