(* ===== verification/Identity_Properties.thy ===== *)
theory Identity_Properties
  imports Codec_Properties Layout_Proofs
begin

text \<open>
  The properties of SHA-256, of body identities and of the Merkle layouts.
\<close>

section \<open>Lemmas\<close>

lemma resolve_domain_iff: "resolve_domain tag = Inr domain \<longleftrightarrow> tag = domain_tag_of domain"
  using from_tag_iff [of "slug_bytes tag" domain]
  by (cases tag) (auto simp: resolve_domain_def domain_facts(2) split: option.splits)

lemma published_tags:
  "tag_of Dom_TransactionSeal = ''frankengit/txn-seal/v1''"
  "tag_of Dom_RepositoryCommitRecord = ''frankengit/rcr/v1''"
  "tag_of Dom_RepositoryDecisionBatch = ''frankengit/decision-batch/v1''"
  "tag_of Dom_RepositoryAuthorityHead = ''frankengit/authority-head/v1''"
  "tag_of Dom_RefusalRecord = ''frankengit/refusal-record/v1''"
  "tag_of Dom_RepositoryConfiguration = ''frankengit/repository-configuration/v1''"
  "tag_of Dom_RepositoryCreationAttempt = ''frankengit/repository-creation-attempt/v1''"
  "tag_of Dom_HiddenRefPolicy = ''frankengit/hidden-ref-policy/v1''"
  "tag_of Dom_SignedEnvelope = ''frankengit/signed-envelope/v1''"
  by (simp_all add: tag_of_def domain_row_of_def DOMAIN_REGISTRY_def pinned_row_def owned_row_def)

lemma resolve_domain_refuses:
  "resolve_domain tag = Inl e \<longleftrightarrow> tag \<notin> range domain_tag_of \<and> e = UnregisteredDomainTag (slug_bytes tag)"
proof (cases "resolve_domain tag")
  case (Inl e')
  then have "e' = UnregisteredDomainTag (slug_bytes tag)"
    by (auto simp: resolve_domain_def split: option.splits)
  with Inl show ?thesis
    using resolve_domain_iff by force
next
  case (Inr domain)
  then have "tag = domain_tag_of domain"
    by (simp add: resolve_domain_iff)
  with Inr show ?thesis
    by simp
qed

lemma evidence_domain_refused:
  "resolve_domain (slug ''frankengit/statistical-evidence/v1'') =
     Inl (UnregisteredDomainTag (bytes_of ''frankengit/statistical-evidence/v1''))"
  by code_simp

lemma published_domain: "tag_of domain = tag \<Longrightarrow> resolve_domain (slug tag) = Inr domain"
  by (simp add: resolve_domain_iff domain_facts(2))

lemma registered_body_id:
  "resolve_domain (body_DOMAIN B) = Inr domain \<Longrightarrow> canonical_body_bytes B x = Inr payload \<Longrightarrow>
     \<exists>identity. body_id crypto_body_identity B x = Inr identity"
  by (simp add: body_id_def crypto_body_identity_def internal_object_id_for_tag_def map_err_def)

lemma sample_head_id: "\<exists>identity. body_id crypto_body_identity repository_authority_head_body_schema sample_head = Inr identity"
proof -
  have "resolve_domain (body_DOMAIN repository_authority_head_body_schema) = Inr Dom_RepositoryAuthorityHead"
    unfolding repository_authority_head_body_schema_def canonical_body.select_convs
    by (rule published_domain) (rule published_tags)
  moreover obtain payload where "canonical_body_bytes repository_authority_head_body_schema sample_head = Inr payload"
    using sample_head_decodes by (auto simp: head_body.decode_iff)
  ultimately show ?thesis
    by (rule registered_body_id)
qed

text \<open>A state with two refs, out of order.\<close>

definition sample_ref :: "string \<Rightarrow> ref_name" where
  "sample_ref short = RefName (bytes_of (''refs/heads/'' @ short))"

definition sample_refs :: "(ref_name \<times> git_oid) list" where
  "sample_refs = [(sample_ref ''topic'', Sha1 (replicate 20 2)), (sample_ref ''main'', Sha1 (replicate 20 1))]"

lemma sample_refs_facts:
  "distinct (map fst sample_refs)" "length sample_refs < 2 ^ 64" "sorted_refs (rev sample_refs) = sorted_refs sample_refs"
  "\<forall>e \<in> set sample_refs. length (ref_bytes (fst e)) \<le> MAX_REF_NAME_LEN"
  "map_of sample_refs (sample_ref ''main'') = Some (Sha1 (replicate 20 1))"
  "sample_ref ''next'' \<notin> fst ` set sample_refs"
  by (simp_all add: sample_refs_def sample_ref_def MAX_REF_NAME_LEN_def)

lemma sample_root: "\<exists>root. ref_state_merkle_root sample_refs = Inr root \<and> ref_state_merkle_root (rev sample_refs) = Inr root"
  by (simp add: ref_root_iff sample_refs_facts flip: rev_map)

text \<open>The neighbours a proof of absence exhibits are entries of the state.\<close>

lemma neighbour_entry:
  "ref_state_neighbour_at ordered i = Inr n \<Longrightarrow> i < length ordered \<Longrightarrow> rn_name n \<in> fst ` set ordered"
  by (auto simp: ref_state_neighbour_at_def split: prod.splits) (metis fst_conv imageI nth_mem)

lemma absence_neighbours:
  assumes "ref_state_non_membership_proof entries name = Inr claim"
  shows "\<forall>n \<in> set (ref_neighbours claim). rn_name n \<in> fst ` set entries"
proof -
  let ?es = "sorted_refs entries"
  define i where "i = partition_point (\<lambda>(candidate, _). ref_bytes candidate < ref_bytes name) ?es"
  have "i \<le> length ?es"
    unfolding i_def partition_point_def by (rule length_takeWhile_le)
  have entry: "rn_name n \<in> fst ` set entries" if "ref_state_neighbour_at ?es j = Inr n" "j < length ?es" for j n
    using neighbour_entry [OF that] by simp
  from assms have "sorted_ref_state_entries entries = Inr ?es"
    by (auto simp: ref_state_non_membership_proof_def sorted_entries_iff)
  with assms \<open>i \<le> length ?es\<close> show ?thesis
    by (auto simp: ref_state_non_membership_proof_def Let_def ref_neighbours_def simp flip: i_def split: if_splits
        simp del: length_sort dest!: entry) force+
qed

section \<open>Digests and identities\<close>

text \<open>
  C29: However a message is cut into chunks, feeding them one after the other to the streaming hasher and
  finishing it gives SHA-256 of the whole message as the plain definition computes it: padding, the full
  message schedule and the fold over the blocks.
\<close>

theorem hashing_is_streamed:
  "sha256_finish (foldl sha256_update sha256_initial chunks) = reference_sha256 (concat chunks)"
  by (rule sha256_streaming)

text \<open>
  C30: The checked comparison accepts an identity for a body precisely when it is the one computed for that
  domain, schema, codec version and body, although the check hashes the materialised preimage and the
  computation streams it.
\<close>

theorem identities_are_checked:
  "verify_internal_object_id identity domain schema version body = Inr () \<longleftrightarrow>
     identity = internal_object_id_of domain schema version body"
  by (rule verify_internal_object_id_iff)

text \<open>
  C31: The twelve bodies of the codec's schema, configuration and attestation modules, the two later minor
  versions of the configuration included, are each in a registered identity domain, so that they can be
  named. A tag resolves exactly to the domain it is the tag of, no two domains share a tag, and a tag of no
  domain is refused with itself: so is that of the statistical evidence body, which declares a domain the
  registry does not have.
\<close>

theorem codec_domains_are_registered:
  "resolve_domain (body_DOMAIN transaction_seal_body_schema) = Inr Dom_TransactionSeal \<and>
   resolve_domain (body_DOMAIN commit_record_body_schema) = Inr Dom_RepositoryCommitRecord \<and>
   resolve_domain (body_DOMAIN decision_batch_body_schema) = Inr Dom_RepositoryDecisionBatch \<and>
   resolve_domain (body_DOMAIN repository_authority_head_body_schema) = Inr Dom_RepositoryAuthorityHead \<and>
   resolve_domain (body_DOMAIN refusal_record_body_schema) = Inr Dom_RefusalRecord \<and>
   resolve_domain (body_DOMAIN repository_configuration_body_schema) = Inr Dom_RepositoryConfiguration \<and>
   resolve_domain (body_DOMAIN creation_attempt_body_schema) = Inr Dom_RepositoryCreationAttempt \<and>
   resolve_domain (body_DOMAIN hidden_ref_policy_body_schema) = Inr Dom_HiddenRefPolicy \<and>
   resolve_domain (body_DOMAIN incarnation_configuration_body_schema) = Inr Dom_RepositoryConfiguration \<and>
   resolve_domain (body_DOMAIN incarnation_configuration_body_v2_1_schema) = Inr Dom_RepositoryConfiguration \<and>
   resolve_domain (body_DOMAIN incarnation_configuration_body_v2_2_schema) = Inr Dom_RepositoryConfiguration \<and>
   resolve_domain (body_DOMAIN signed_envelope_body_schema) = Inr Dom_SignedEnvelope \<and>
   (resolve_domain tag = Inr domain \<longleftrightarrow> tag = domain_tag_of domain) \<and>
   (domain_tag_of domain = domain_tag_of other \<longleftrightarrow> domain = other) \<and>
   (resolve_domain tag = Inl e \<longleftrightarrow> tag \<notin> range domain_tag_of \<and> e = UnregisteredDomainTag (slug_bytes tag)) \<and>
   resolve_domain (slug ''frankengit/statistical-evidence/v1'') =
     Inl (UnregisteredDomainTag (bytes_of ''frankengit/statistical-evidence/v1''))"
  unfolding transaction_seal_body_schema_def commit_record_body_schema_def decision_batch_body_schema_def
    repository_authority_head_body_schema_def refusal_record_body_schema_def repository_configuration_body_schema_def
    incarnation_configuration_body_schema_def incarnation_configuration_body_v2_1_schema_def
    incarnation_configuration_body_v2_2_schema_def creation_attempt_body_schema_def hidden_ref_policy_body_schema_def
    signed_envelope_body_schema_def canonical_body.select_convs
  by (intro conjI resolve_domain_iff resolve_domain_refuses evidence_domain_refused domain_tag_of_inject
      published_domain published_tags)

text \<open>
  C32: An identity names one frame and, read as an authority head, one head. If two frames that decode to
  heads have bodies of one identity, the frames and the heads are the same, or the preimages hashed for
  the two frames are a collision of SHA-256.
\<close>

theorem identity_names_one_head:
  assumes "decode_body repository_authority_head_body_schema f limits = Inr x"
    "decode_body repository_authority_head_body_schema g limits = Inr y"
    "body_id crypto_body_identity repository_authority_head_body_schema x = Inr identity"
    "body_id crypto_body_identity repository_authority_head_body_schema y = Inr identity"
  shows "f = g \<and> x = y \<or> sha256_collision (frame_preimage f limits) (frame_preimage g limits)"
proof -
  have "body_id_of_frame crypto_body_identity f limits = Inr identity"
      "body_id_of_frame crypto_body_identity g limits = Inr identity"
    using assms head_body.frame_identity [of f limits x crypto_body_identity]
      head_body.frame_identity [of g limits y crypto_body_identity] by simp_all
  with frames_of_one_identity [of f limits identity g limits] assms(1,2) show ?thesis
    by auto
qed

theorem identity_names_one_head_witness:
  "\<exists>identity. body_id crypto_body_identity repository_authority_head_body_schema sample_head = Inr identity \<and>
     (sample_head_frame = sample_head_frame \<and> sample_head = sample_head \<or>
      sha256_collision (frame_preimage sample_head_frame limits_DEFAULT) (frame_preimage sample_head_frame limits_DEFAULT))"
proof -
  from sample_head_id obtain identity where
      i: "body_id crypto_body_identity repository_authority_head_body_schema sample_head = Inr identity"
    by blast
  with identity_names_one_head [OF sample_head_decodes sample_head_decodes i i] show ?thesis
    by blast
qed

section \<open>Ref states\<close>

text \<open>
  C33: The root of a ref state commits to the whole state: two lists of entries with one root hold the same
  entries, or two of the preimages hashed for them collide.
\<close>

theorem ref_root_commits_to_the_state:
  assumes "ref_state_merkle_root es = Inr root" "ref_state_merkle_root fs = Inr root"
    "\<forall>e \<in> set es. length (ref_bytes (fst e)) \<le> MAX_REF_NAME_LEN"
    "\<forall>e \<in> set fs. length (ref_bytes (fst e)) \<le> MAX_REF_NAME_LEN"
  shows "mset es = mset fs \<or> colliding (ref_root_preimages es) (ref_root_preimages fs)"
  using ref_root_commits [OF assms] by blast

theorem ref_root_commits_to_the_state_witness:
  "\<exists>root. ref_state_merkle_root sample_refs = Inr root \<and> ref_state_merkle_root (rev sample_refs) = Inr root \<and>
     (mset sample_refs = mset (rev sample_refs) \<or>
      colliding (ref_root_preimages sample_refs) (ref_root_preimages (rev sample_refs)))"
proof -
  from sample_root obtain root where "ref_state_merkle_root sample_refs = Inr root"
      "ref_state_merkle_root (rev sample_refs) = Inr root"
    by blast
  moreover from ref_root_commits_to_the_state [OF this] sample_refs_facts(4)
  have "mset sample_refs = mset (rev sample_refs) \<or>
      colliding (ref_root_preimages sample_refs) (ref_root_preimages (rev sample_refs))"
    by simp
  ultimately show ?thesis
    by blast
qed

text \<open>
  C34: A membership proof that verifies is true: the state under the root maps the name to that object, or
  a preimage of the tree collides with one of the proof.
\<close>

theorem verified_refs_are_present:
  assumes "ref_state_merkle_root entries = Inr root" "verify_ref_state_membership root name oid path"
    "\<forall>e \<in> set entries. length (ref_bytes (fst e)) \<le> MAX_REF_NAME_LEN" "length (ref_bytes name) \<le> MAX_REF_NAME_LEN"
  shows "map_of entries name = Some oid \<or> colliding (ref_root_preimages entries) (ref_proof_preimages name oid path)"
  using ref_membership_sound [OF assms] assms(1) by (auto simp: ref_root_iff)

theorem verified_refs_are_present_witness:
  "\<exists>root path. ref_state_merkle_root sample_refs = Inr root \<and>
     verify_ref_state_membership root (sample_ref ''main'') (Sha1 (replicate 20 1)) path \<and>
     (map_of sample_refs (sample_ref ''main'') = Some (Sha1 (replicate 20 1)) \<or>
      colliding (ref_root_preimages sample_refs)
        (ref_proof_preimages (sample_ref ''main'') (Sha1 (replicate 20 1)) path))"
proof -
  from sample_root obtain root where root: "ref_state_merkle_root sample_refs = Inr root"
    by blast
  from ref_membership_complete [OF root map_of_SomeD [OF sample_refs_facts(5)]] obtain path where
      path: "verify_ref_state_membership root (sample_ref ''main'') (Sha1 (replicate 20 1)) path"
    by metis
  have "length (ref_bytes (sample_ref ''main'')) \<le> MAX_REF_NAME_LEN"
    by (simp add: sample_ref_def MAX_REF_NAME_LEN_def)
  from verified_refs_are_present [OF root path sample_refs_facts(4) this] root path show ?thesis
    by blast
qed

text \<open>
  C35: A proof of absence that verifies is true: the state under the root has no such name, or a preimage
  of the tree collides with one of the neighbours' proofs. The indices and leaf counts in the proofs are
  claims of whoever built them, and may be false.
\<close>

theorem verified_absences_are_true:
  assumes "ref_state_merkle_root entries = Inr root" "verify_ref_state_non_membership root name claim"
    "\<forall>e \<in> set entries. length (ref_bytes (fst e)) \<le> MAX_REF_NAME_LEN"
    "\<forall>n \<in> set (ref_neighbours claim). length (ref_bytes (rn_name n)) \<le> MAX_REF_NAME_LEN"
  shows "map_of entries name = None \<or> colliding (ref_root_preimages entries) (ref_claim_preimages claim)"
  using ref_absence_sound [OF assms] by (auto simp: map_of_eq_None_iff)

theorem verified_absences_are_true_witness:
  "\<exists>root claim. ref_state_merkle_root sample_refs = Inr root \<and>
     verify_ref_state_non_membership root (sample_ref ''next'') claim \<and>
     (map_of sample_refs (sample_ref ''next'') = None \<or>
      colliding (ref_root_preimages sample_refs) (ref_claim_preimages claim))"
proof -
  from sample_root obtain root where root: "ref_state_merkle_root sample_refs = Inr root"
    by blast
  from ref_absence_complete [OF root sample_refs_facts(6,2)] obtain claim where
      built: "ref_state_non_membership_proof sample_refs (sample_ref ''next'') = Inr claim"
      and verified: "verify_ref_state_non_membership root (sample_ref ''next'') claim"
    by metis
  have "\<forall>n \<in> set (ref_neighbours claim). rn_name n \<in> fst ` set sample_refs"
    by (rule absence_neighbours [OF built])
  with sample_refs_facts(4) have "\<forall>n \<in> set (ref_neighbours claim). length (ref_bytes (rn_name n)) \<le> MAX_REF_NAME_LEN"
    by force
  from verified_absences_are_true [OF root verified sample_refs_facts(4) this] root verified show ?thesis
    by blast
qed

text \<open>
  C36: Every question about a ref has an answer that verifies. A state without duplicate names has a root,
  and for each name the prover returns either the object and a membership proof the verifier accepts
  under that root, or a proof of absence it accepts, according to what the state holds.
\<close>

theorem every_ref_query_is_answered:
  assumes "distinct (map fst entries)" "length entries < 2 ^ 64" "admits_ref_state_membership_proof version"
  shows "\<exists>root. ref_state_merkle_root entries = Inr root \<and>
    (\<forall>name. case map_of entries name of
       Some oid \<Rightarrow> \<exists>path. ref_state_membership_proof entries name = Inr (oid, path) \<and>
         verify_ref_state_membership_under version root name oid path = Inr True
     | None \<Rightarrow> \<exists>claim. ref_state_non_membership_proof entries name = Inr claim \<and>
         verify_ref_state_non_membership_under version root name claim = Inr True)"
proof -
  from assms(1) obtain root where root: "ref_state_merkle_root entries = Inr root"
    by (simp add: ref_root_iff)
  have "\<exists>path. ref_state_membership_proof entries name = Inr (oid, path) \<and>
      verify_ref_state_membership_under version root name oid path = Inr True" if "map_of entries name = Some oid" for name oid
    using ref_membership_complete [OF root map_of_SomeD [OF that]] assms(3)
    by (metis (full_types) verify_ref_state_membership_under_def)
  moreover have "\<exists>claim. ref_state_non_membership_proof entries name = Inr claim \<and>
      verify_ref_state_non_membership_under version root name claim = Inr True" if "map_of entries name = None" for name
    using ref_absence_complete [OF root _ assms(2), of name] that assms(3)
    by (metis (full_types) map_of_eq_None_iff verify_ref_state_non_membership_under_def)
  ultimately show ?thesis
    using root by (auto split: option.splits)
qed

theorem every_ref_query_is_answered_witness:
  "\<exists>root path claim. ref_state_merkle_root sample_refs = Inr root \<and>
     ref_state_membership_proof sample_refs (sample_ref ''main'') = Inr (Sha1 (replicate 20 1), path) \<and>
     verify_ref_state_membership_under RefStateMerkleV1 root (sample_ref ''main'') (Sha1 (replicate 20 1)) path = Inr True \<and>
     ref_state_non_membership_proof sample_refs (sample_ref ''next'') = Inr claim \<and>
     verify_ref_state_non_membership_under RefStateMerkleV1 root (sample_ref ''next'') claim = Inr True"
proof -
  have absent: "map_of sample_refs (sample_ref ''next'') = None"
    using sample_refs_facts(6) by (simp add: map_of_eq_None_iff)
  have "admits_ref_state_membership_proof RefStateMerkleV1"
    by simp
  from every_ref_query_is_answered [OF sample_refs_facts(1,2) this] obtain root where
      root: "ref_state_merkle_root sample_refs = Inr root" and
      answers: "\<forall>name. case map_of sample_refs name of
         Some oid \<Rightarrow> \<exists>path. ref_state_membership_proof sample_refs name = Inr (oid, path) \<and>
           verify_ref_state_membership_under RefStateMerkleV1 root name oid path = Inr True
       | None \<Rightarrow> \<exists>claim. ref_state_non_membership_proof sample_refs name = Inr claim \<and>
           verify_ref_state_non_membership_under RefStateMerkleV1 root name claim = Inr True"
    by blast
  from spec [OF answers, of "sample_ref ''main''"] spec [OF answers, of "sample_ref ''next''"] root show ?thesis
    unfolding sample_refs_facts(5) absent option.case by blast
qed

section \<open>Object closures\<close>

definition sample_objects :: "git_oid list" where
  "sample_objects = [Sha1 (replicate 20 2), Sha1 (replicate 20 1)]"

lemma sample_objects_facts:
  "distinct sample_objects" "length sample_objects < 2 ^ 64" "Sha1 (replicate 20 1) \<in> set sample_objects"
  "Sha1 (replicate 20 3) \<notin> set sample_objects"
  by (simp_all add: sample_objects_def)

text \<open>
  C37: The object closure is authenticated in both directions. A closure without duplicates has a root.
  Under it a verified membership proof names an object of the closure and a verified proof of absence
  one that is not in it, or a preimage of the tree collides with one of the proof; and for every object
  the prover returns a proof that verifies, only under the layout that commits to a closure, while the
  two earlier layouts refuse the question.
\<close>

theorem closures_are_authenticated:
  assumes "distinct objects" "length objects < 2 ^ 64"
  shows "\<exists>root. object_closure_merkle_root objects = Inr root \<and>
    (\<forall>oid path claim.
       (verify_object_closure_membership root oid path \<longrightarrow>
          oid \<in> set objects \<or> colliding (closure_root_preimages objects) (closure_proof_preimages oid path)) \<and>
       (verify_object_closure_non_membership root oid claim \<longrightarrow>
          oid \<notin> set objects \<or> colliding (closure_root_preimages objects) (closure_claim_preimages claim))) \<and>
    (\<forall>oid. if oid \<in> set objects
       then \<exists>path. object_closure_membership_proof objects oid = Inr path \<and>
         (\<forall>version. verify_object_closure_membership_under version root oid path =
            (if version = RefStateAndObjectClosureMerkleV1 then Inr True else Inl (LayoutAdmitsNoProof version)))
       else \<exists>claim. object_closure_non_membership_proof objects oid = Inr claim \<and>
         (\<forall>version. verify_object_closure_non_membership_under version root oid claim =
            (if version = RefStateAndObjectClosureMerkleV1 then Inr True else Inl (LayoutAdmitsNoProof version))))"
proof -
  from assms(1) obtain root where root: "object_closure_merkle_root objects = Inr root"
    by (simp add: closure_root_iff)
  have layout: "admits_object_closure_membership_proof version \<longleftrightarrow> version = RefStateAndObjectClosureMerkleV1" for version
    by (cases version) simp_all
  have "\<exists>path. object_closure_membership_proof objects oid = Inr path \<and> verify_object_closure_membership root oid path"
    if "oid \<in> set objects" for oid
    using closure_membership_complete [OF root that] by metis
  moreover have "\<exists>claim. object_closure_non_membership_proof objects oid = Inr claim \<and>
      verify_object_closure_non_membership root oid claim" if "oid \<notin> set objects" for oid
    using closure_absence_complete [OF root that assms(2)] by metis
  ultimately have "if oid \<in> set objects
       then \<exists>path. object_closure_membership_proof objects oid = Inr path \<and>
         (\<forall>version. verify_object_closure_membership_under version root oid path =
            (if version = RefStateAndObjectClosureMerkleV1 then Inr True else Inl (LayoutAdmitsNoProof version)))
       else \<exists>claim. object_closure_non_membership_proof objects oid = Inr claim \<and>
         (\<forall>version. verify_object_closure_non_membership_under version root oid claim =
            (if version = RefStateAndObjectClosureMerkleV1 then Inr True else Inl (LayoutAdmitsNoProof version)))" for oid
    by (fastforce simp: verify_object_closure_membership_under_def verify_object_closure_non_membership_under_def layout)
  with root closure_membership_sound [OF root] closure_absence_sound [OF root] show ?thesis
    by blast
qed

theorem closures_are_authenticated_witness:
  "\<exists>root path. object_closure_merkle_root sample_objects = Inr root \<and>
     object_closure_membership_proof sample_objects (Sha1 (replicate 20 1)) = Inr path \<and>
     verify_object_closure_membership_under RefStateAndObjectClosureMerkleV1 root (Sha1 (replicate 20 1)) path = Inr True \<and>
     verify_object_closure_membership_under RefStateMerkleV1 root (Sha1 (replicate 20 1)) path =
       Inl (LayoutAdmitsNoProof RefStateMerkleV1)"
  using closures_are_authenticated [OF sample_objects_facts(1,2)] sample_objects_facts(3)
  by (metis (full_types) root_layout_version.distinct(5))

section \<open>Positions\<close>

text \<open>
  C38: A verified path does not fix the position it claims. The third of three leaves verifies, under the
  root of the three, as the second leaf of a tree of two, with the digest of the first two as its
  sibling.
\<close>

theorem positions_are_not_authenticated:
  "verify_merkle_proof schema (merkle_root schema [a, b, c]) c
     \<lparr>mp_index = 1, mp_leaf_count = 2, mp_siblings = [merkle_node schema a b]\<rparr>"
  by (simp add: verify_merkle_proof_def merkle_root_from_proof_def merkle_climb.simps promoted_def
      merkle_root_def merkle_root_loop.simps)

end
