(* ===== verification/Spec2Isabelle.thy ===== *)
theory Spec2Isabelle
  imports Progress Object_Admission Scenarios Identity_Properties
begin

text \<open>
  A verification development for the canonical core of FrankenGit.

  \<^bold>\<open>The program.\<close> A repository is published through a chain of authority heads. Clients seal requests
  made of typed intents (ref updates, forge events, retention changes, outbox requests). A sealed
  request is prepared against the current head: its intents are folded to net effects, checked
  against the policy and recorded in a capsule together with what the fold read. Capsules are decided
  in batches, a batch is staged under a candidate head, and a compare-and-swap of the head publishes
  it. Heads, batches, commit records and seals have one canonical byte form each, in frames that name
  their schema; a body is named by the SHA-256 of a preimage that contains its domain and schema, and
  refs and object closures are committed to by Merkle roots with proofs of presence and absence.

  \<^bold>\<open>Shared theories.\<close>
  \<^item> \<open>Prelude\<close>: the machine types, results as sums with \<open>rbind\<close> for the \<open>?\<close> of the sources, checked and
    saturating arithmetic, early-return loops.
  \<^item> \<open>BTree_Map\<close>: \<open>BTreeMap\<close> and \<open>BTreeSet\<close> of the standard library as strictly sorted association lists;
    the locale \<open>ordered_map\<close> is what the clients rely on.
  \<^item> \<open>Big_Endian\<close>: \<open>to_be_bytes\<close>, \<open>from_be_bytes\<close> and zigzag.

  \<^bold>\<open>Value types\<close>, \<open>crates/fgit-types/src\<close>.
  \<^item> \<open>Identities\<close>: \<open>error.rs\<close>, \<open>label.rs\<close>, \<open>hash.rs\<close>, \<open>numeric.rs\<close>, \<open>identity.rs\<close>, \<open>native.rs\<close>. A validating
    constructor is a function to a sum; the order on identities is an instance of \<open>linorder\<close>.
  \<^item> \<open>Vocabulary\<close>: \<open>vocabulary.rs\<close>, and \<open>refusal.rs\<close> of \<open>fgit-reference\<close>. The locale \<open>code_table\<close> makes each
    decoder the inverse of its encoder.
  \<^item> \<open>Ref_Names\<close>: \<open>refs.rs\<close> and \<open>ref_write_scope.rs\<close>, and \<open>refs.rs\<close> of \<open>fgit-reference\<close>.

  \<^bold>\<open>The repository machine\<close>, \<open>crates/fgit-reference/src\<close>.
  \<^item> \<open>Intents\<close>: \<open>intent.rs\<close>. \<open>Net_Effects\<close>: \<open>effect.rs\<close>, the reference folder. \<open>Capsules\<close>: \<open>capsule.rs\<close>.
    \<open>Decision_Batches\<close>: \<open>decision.rs\<close>. \<open>Repo_Roots\<close> and \<open>Repo_State\<close>: \<open>state.rs\<close>, the state as the record
    \<open>repository_state\<close> with the source's fields and its three executable invariant checks.
  \<^item> \<open>Transitions\<close>: \<open>transition.rs\<close>, one function per transition (\<open>seal\<close>, \<open>stage_objects\<close>, \<open>prepare\<close>,
    \<open>decide_against\<close>, \<open>stage\<close>, \<open>compare_and_swap\<close>, \<open>publish_configuration\<close>) from a state and an input to a breach or a new
    state with an outcome. \<open>Machine\<close>: \<open>machine.rs\<close>, the function \<open>step\<close>, runs as an inductive relation, and
    the locales \<open>machine_invariant\<close> and \<open>machine_monotone\<close>.
  \<^item> \<open>Scenarios\<close>: concrete runs, evaluated by the simplifier, at which the theorems are instantiated.

  What the lemmas show: \<open>Fold_Correctness\<close>, that the folded effects are those of the intents one after
  the other (locale \<open>net_effect_folder\<close>, the contract of the trait); \<open>Witness_Soundness\<close>, that recorded
  reads suffice to commit against other roots than those prepared against; \<open>Evaluations\<close>, that the
  policy check is the policy; \<open>Ancestry\<close>, that the fast-forward walk is reachability;
  \<open>Canonical_History\<close> and \<open>Serial_History\<close>, the invariants of the head chain, of batches and of the
  published history; \<open>Permanence\<close> and \<open>Sealing\<close>, what no run loses; \<open>Object_Admission\<close>, which objects
  roots may name; \<open>Progress\<close>, that a sealed transaction can always be decided and is prepared a bounded
  number of times. Their properties, C1 to C15, C39 and C40, are in this theory.

  \<^bold>\<open>The canonical codec\<close>, \<open>crates/fgit-codec/src\<close>.
  \<^item> \<open>Codec_Core\<close>: \<open>error.rs\<close>, \<open>bounds.rs\<close> and the primitives of \<open>writer.rs\<close> and \<open>reader.rs\<close>. A writer maps a value
    and the bytes so far to a refusal or more bytes, a reader maps a decoder state to a refusal or a
    value and the next state. \<open>Codec_Laws\<close>: the locale \<open>canonical_codec\<close> (a reader accepts exactly what the
    writer wrote) and the rules that compose codecs; \<open>Codec_Collections\<close>, \<open>Codec_Values\<close> and
    \<open>Codec_Fields\<close>: sets and maps, the value types, records field by field.
  \<^item> \<open>Codec_Frame\<close>: \<open>wire.rs\<close>; the trait \<open>CanonicalBody\<close> is the record \<open>canonical_body\<close>, and the locale
    \<open>framed_body\<close> proves framing once for every body. \<open>Codec_Schemas\<close>: all bodies of \<open>schema.rs\<close> and
    \<open>repository_configuration.rs\<close>, and \<open>layout.rs\<close> of \<open>fgit-types\<close>. \<open>Codec_Envelope\<close>: \<open>attest.rs\<close>.
  \<^item> \<open>Codec_Properties\<close>: C16 to C28, among them one frame per body, no confusion between schemas,
    preservation of later minor versions, and bounds before allocation.

  \<^bold>\<open>Identities and proofs\<close>, \<open>crates/fgit-crypto/src\<close>.
  \<^item> \<open>Sha256\<close>: the streaming hasher of \<open>hashing.rs\<close>, with its ring schedule and unrolled rounds, and the plain
    definition it implements, which has rounds of its own; the tables of constants are checked against
    the roots of primes that define them.
  \<^item> \<open>Body_Identity\<close>: the domain table of \<open>registry.rs\<close>, the preimages and identities of \<open>body_identity.rs\<close>,
    and \<open>bridge.rs\<close> of \<open>fgit-codec\<close>, which makes them the identity the codec is given.
  \<^item> \<open>Merkle\<close> and \<open>Layout_Proofs\<close>: \<open>merkle.rs\<close>. \<open>Merkle_Soundness\<close> reads the levels as a binary tree; the
    locale \<open>sorted_leaves\<close> carries soundness and completeness to the two layouts.
  \<^item> \<open>Identity_Properties\<close>: C29 to C38. SHA-256 is computed, never assumed to be injective: a theorem
    that needs collision resistance concludes its claim or that two preimages collide, both taken from
    lists computed from the given bodies and proofs.

  \<^bold>\<open>Bounds and assumptions.\<close> Every loop is a total function and nothing runs on fuel: the walk of the
  head chain stops because it checks that generations decrease, the ancestry walk because visited
  objects are not visited again, the levels of a Merkle tree because they shrink. Counters and code
  points are words of their width, with checked or saturating arithmetic as in the sources. Offsets,
  lengths and indices are \<open>usize\<close> in the sources and natural numbers here; where a sum could leave 64 bits
  the check is written out (\<open>usize_succ\<close>), and the theorems that need it assume fewer than \<open>2 ^ 64\<close> elements.
  The one sum that wraps where the sources panic, the length of a hashed body, is exact below \<open>2 ^ 64\<close> bytes
  (\<open>parts_length_exact\<close>).
  The identities the machine's inputs carry are arbitrary values, as in the sources, where the caller
  derives them; the ledger of identities decides whether one is fresh. C7 assumes that every object
  handed to quarantine has the identity it declares, and C8 shows what happens when it does not. C14
  includes what the machine does when a configuration no longer supports the schema of a sealed request:
  it rejects the retry. C31 covers the bodies of the modelled codec files only; other crates declare
  bodies in domains the registry does not have, and resolution refuses them.

  \<^bold>\<open>Not modelled.\<close> The textual forms (\<open>Display\<close>, \<open>Debug\<close>, vocabulary names) and the golden corpora and test
  drivers. SHA-1 with its collision screening, signatures, key derivation and key lifecycle in
  \<open>fgit-crypto\<close>, which rest on packages outside this repository. The outbox bodies and the delivery
  fixture, which are built on \<open>fgit-resource\<close>. The crates above the core (object storage, packs, wire
  protocols, nodes, runtimes, command line): they do I/O, concurrency and storage through packages
  that are not part of the sources, and use the core through the operations modelled here. The
  modelled crates contain no threads: concurrency between clients is the order of the machine's inputs,
  and runs range over all orders.
\<close>

section \<open>The published history\<close>

text \<open>
  C1: in every reachable state, however seals, preparations, stagings, configuration changes and
  competing head swaps interleaved, the published commits are a serial execution: each record
  carries the effects its sealed request folds to against exactly the roots its predecessors left,
  under a policy that was published and authorises them, and replaying all records from the empty
  repository gives the head's roots.
\<close>

theorem history_is_serial:
  assumes "reachable c s"
  shows "serial s roots_default (st_commits s) \<and>
    replay roots_default (st_commits s) = Inr (content (st_roots s))"
  using canonical_wf_reachable [OF assms] serial_wf_reachable [OF assms]
  by (simp add: canonical_wf_def history_wf_def serial_wf_def)

theorem history_is_serial_witness:
  "map rcr_tx_id (st_commits published_state) = [ident 1] \<and>
   serial published_state roots_default (st_commits published_state)"
  using history_is_serial [OF reached_reachable] published_state_history by auto

text \<open>
  C2: a decision is final. Along any run the published decisions and commit records only grow at
  the end, and a transaction that has an outcome, committed or refused, keeps exactly that outcome.
\<close>

theorem decisions_are_final:
  assumes "reachable c s" "run any_input s t"
  shows "prefix (st_decisions s) (st_decisions t) \<and> prefix (st_commits s) (st_commits t) \<and>
    (outcome_of s tx = Some outcome \<longrightarrow> outcome_of t tx = Some outcome)"
  using permanence.climbs [OF assms(2,1)] by (simp add: permanent_def)

theorem decisions_are_final_witness:
  "outcome_of (after published_state [seal_input 3 (test_request 3 [])]) (ident 1)
     = Some (Committed (ident 1))"
proof -
  have "outcome_of published_state (ident 1) = Some (Committed (ident 1))"
    by code_simp
  then show ?thesis
    using decisions_are_final [OF reached_reachable after_any] by blast
qed

text \<open>
  C3: every transaction is decided at most once, and the outcome index of the head is exactly the
  list of published decisions; the commit records are those of the decisions that committed, in
  the same order.
\<close>

theorem transactions_decided_once:
  assumes "reachable c s"
  shows "distinct (map dec_tx_id (st_decisions s)) \<and>
    outcome_of s tx = map_of (map outcome_entry (st_decisions s)) tx \<and>
    map record_pair (st_commits s) = List.map_filter committed_pair (st_decisions s)"
  using canonical_wf_reachable [OF assms] outcome_of_decisions [of s tx]
  by (simp add: canonical_wf_def history_wf_def)

theorem transactions_decided_once_witness:
  "map outcome_entry (st_decisions published_state)
     = [(ident 1, Committed (ident 1)), (ident 2, Refused ExpectedOldRefMismatch (ident 2))] \<and>
   distinct (map dec_tx_id (st_decisions published_state)) \<and>
   outcome_of published_state (ident 2)
     = map_of (map outcome_entry (st_decisions published_state)) (ident 2)"
  using transactions_decided_once [OF reached_reachable] published_state_history by blast

text \<open>
  C4: in every reachable state the executable check of the head chain succeeds: following the
  predecessors from the head reaches a head without predecessor, every generation being the
  successor of the one before, in as many steps as the head's generation says.
\<close>

theorem head_chain_always_continuous:
  assumes "reachable c s"
  shows "assert_head_chain_continuous s = Inr ()"
  using canonical_wf_reachable [OF assms] by (simp add: canonical_wf_def chain_wf_continuous)

theorem head_chain_always_continuous_witness:
  "st_decisions published_state \<noteq> [] \<and> assert_head_chain_continuous published_state = Inr ()"
  using head_chain_always_continuous [OF reached_reachable] published_state_history by auto

text \<open>
  C5: in every reachable state the executable check of the sequences succeeds: the published
  decisions, refusals included, carry the decision sequences 1, 2, 3, ... and the commit records
  carry the repository sequences 1, 2, 3, ..., both without a gap.
\<close>

theorem sequences_always_gap_free:
  assumes "reachable c s"
  shows "assert_sequences_gap_free s = Inr ()"
  using canonical_wf_reachable [OF assms] by (simp add: canonical_wf_def history_wf_gap_free)

theorem sequences_always_gap_free_witness:
  "st_decisions published_state \<noteq> [] \<and> assert_sequences_gap_free published_state = Inr ()"
  using sequences_always_gap_free [OF reached_reachable] published_state_history by auto

text \<open>
  C6: what the repository promises to keep is kept along any run: a legal hold stays in the
  retention roots, a committed outbox binding keeps its payload, a forge stream never moves back,
  and the policy epoch never decreases.
\<close>

theorem promises_are_kept:
  assumes "reachable c s" "run any_input s t"
  shows "(root \<in> bs_set (root_retention (st_roots s)) \<and> root_class root = LegalHold \<longrightarrow>
      root \<in> bs_set (root_retention (st_roots t))) \<and>
    (bt_get (root_outbox (st_roots s)) key = Some payload \<longrightarrow>
      bt_get (root_outbox (st_roots t)) key = Some payload) \<and>
    position_get (position_of (root_forge_positions (st_roots s)) stream)
      \<le> position_get (position_of (root_forge_positions (st_roots t)) stream) \<and>
    pol_epoch (st_policy s) \<le> pol_epoch (st_policy t)"
  using permanence.climbs [OF assms(2,1)]
  by (simp add: permanent_def roots_le_def) (metis domI map_le_def)

theorem promises_are_kept_witness:
  "(RetentionRoot (oid 1) LegalHold) \<in> bs_set (root_retention (st_roots
     (after (reached holding_trace)
        [seal_input 4 drop_hold, prepare_input 4 drop_hold, stage_input 4 [4], cas_input 3 3 4])))"
proof -
  have "bt_contains (root_retention (st_roots (reached holding_trace)))
      (RetentionRoot (oid 1) LegalHold)"
    by code_simp
  then show ?thesis
    using promises_are_kept [OF reached_reachable after_any] by auto
qed

section \<open>Objects and quarantine\<close>

text \<open>
  C7: when every object handed to a quarantine hashes to the identity it declares, no reachable
  state has a canonical reference, retention root or commit that names an object which was not
  admitted: the executable no-escape check succeeds.
\<close>

theorem no_quarantine_escape:
  assumes "run verified_input (genesis c) s"
  shows "assert_no_quarantine_escape s = Inr ()"
  using objects_wf_run [OF assms] by (rule objects_wf_no_escape)

theorem no_quarantine_escape_witness:
  "bt_entries (root_refs (st_roots published_state)) = [(main_ref, oid 1)] \<and>
   assert_no_quarantine_escape published_state = Inr ()"
proof -
  have "list_all verified_input (staging_trace @ [cas_input 0 1 1])"
    by code_simp
  then show ?thesis
    using no_quarantine_escape [OF reached_run] published_state_history by auto
qed

text \<open>
  C8: the condition of the preceding property is needed. A quarantine slot may be overwritten after
  the preparation has checked it, by an object whose contents do not hash to the declared
  identity; the head swap then promotes nothing, the batch is published all the same, and the
  branch names an object the repository never admitted.
\<close>

theorem overwritten_quarantine_escapes:
  "\<exists>s. reachable test_genesis s \<and>
     bt_get (root_refs (st_roots s)) main_ref = Some (oid 1) \<and> \<not> bt_contains (st_objects s) (oid 1) \<and>
     assert_no_quarantine_escape s \<noteq> Inr ()"
proof (intro exI conjI)
  show "reachable test_genesis (reached escape_trace)"
    by (rule reached_reachable)
qed code_simp+

section \<open>Preparation: folding, witnesses, policy\<close>

text \<open>
  C9: a conflict witness is sound. Whatever else changed between the basis and the roots a batch is
  decided against, if the reads the witness recorded still hold there, folding the request against
  the new roots gives the very report, outcome and intent map, of its preparation.
\<close>

theorem recorded_reads_suffice:
  assumes "refined_reads_hold (build_witness s request granularity) roots"
  shows "fold_request (basis_of roots) request = fold_request (basis_of (st_roots s)) request"
  using build_witness_recorded assms by (blast intro: witness_sound)

theorem recorded_reads_suffice_witness:
  "fold_request (basis_of (st_roots published_state)) delete_dev
     = fold_request (basis_of (st_roots (genesis test_genesis))) delete_dev"
proof -
  have "refined_reads_hold (build_witness (genesis test_genesis) delete_dev Refined) (st_roots published_state)"
    by code_simp
  then show ?thesis
    by (rule recorded_reads_suffice)
qed

text \<open>
  C10: the net effects are the effect of the request. When folding succeeds, applying the folded
  effects to the roots succeeds and gives the roots that running the intents one after the other
  gives; effects on different targets are all there and nothing else changes.
\<close>

theorem net_effects_replay_intents:
  assumes "report_outcome (fold_request (basis_of roots) request) = Folded e"
  shows "apply_effects roots e
    = Inr (install_scratch roots (run_intents (basis_of roots) (addressed_intents request)))"
  using assms by (rule reference.applies)

theorem net_effects_replay_intents_witness:
  "\<exists>e. report_outcome (fold_request (basis_of roots_default) create_main) = Folded e \<and>
     apply_effects roots_default e = Inr (install_scratch roots_default
       (run_intents (basis_of roots_default) (addressed_intents create_main)))"
proof (cases "report_outcome (fold_request (basis_of roots_default) create_main)")
  case (Folded e)
  then show ?thesis
    using net_effects_replay_intents by blast
next
  case (Aborted code address)
  moreover have "\<not> (case report_outcome (fold_request (basis_of roots_default) create_main) of
      Aborted code address \<Rightarrow> True | _ \<Rightarrow> False)"
    by code_simp
  ultimately show ?thesis
    by simp
qed

text \<open>
  C11: the intent map accounts for every intent. It lists the intent addresses of the request in
  order, one entry each; an aborted fold marks every intent aborted; a folded one has a surviving
  intent for exactly the targets the net effects change.
\<close>

theorem intent_map_accounts_for_every_intent:
  "map mapping_address (report_mappings (fold_request b request)) = map fst (addressed_intents request) \<and>
   is_total_for (fold_request b request) request \<and>
   (case report_outcome (fold_request b request) of
      Aborted code address \<Rightarrow>
        mapping_disposition ` set (report_mappings (fold_request b request)) \<subseteq> {TransactionAborted}
    | Folded e \<Rightarrow>
        {target. Surviving target \<in> mapping_disposition ` set (report_mappings (fold_request b request))}
          = {target. target_changed e target})"
  using reference.addresses [of b request] reference.aborts [of b request] reference.survivors [of b request]
  by (auto simp: intent_addresses_def reference.total split: fold_outcome.splits)

text \<open>
  C12: the policy check, a chain of early returns over reference, forge and retention effects,
  admits exactly the effects of the declarative policy: writable scopes, protection against
  deletion and non-fast-forward updates, forge capability, events backed by their reference
  effect, and legal holds added only by capability and never removed.
\<close>

theorem policy_check_is_the_policy:
  "evaluate_policy s request e view = None \<longleftrightarrow> policy_admits s request e view"
  by (rule evaluate_policy_None_iff)

text \<open>
  C13: the fast-forward test is ancestry: the stack walk over quarantined and canonical objects, and
  the one over the canonical objects, decide the reflexive transitive closure of the parent
  relation, on incomplete and cyclic object maps too.
\<close>

theorem fast_forward_is_ancestry:
  "(reachable_in view tip candidate \<longleftrightarrow> (tip, candidate) \<in> (parent_of (\<lambda>ps. ps) view)\<^sup>*) \<and>
   (is_reachable s tip candidate \<longleftrightarrow> (tip, candidate) \<in> (parent_of obj_parents (st_objects s))\<^sup>*)"
  by (simp add: reachable_in_iff is_reachable_iff)

section \<open>Sealing\<close>

text \<open>
  C14: sealing is idempotent for good. Once a request is sealed, a request with the same stable fields
  presented in any later state, under whatever seal identity, changes nothing. It returns the identity
  of the first seal if the policy of that state supports its schema; otherwise it is rejected as a
  request of an unsupported schema, although it is sealed.
\<close>

theorem retries_return_the_first_seal:
  assumes "reachable c s" "seal s q = Inr (t, Created i)" "run any_input t u"
    and "seal_fields_of (sr_request q') = seal_fields_of (sr_request q)"
  shows "seal u q' = Inr (u,
    if req_schema (sr_request q) \<in> bs_set (pol_supported_schemas (st_policy u)) then ExistingRetry i
    else Rejected Rej_SchemaUnsupported)"
proof -
  note same = seal_fields_lookup [OF assms(4)]
  from seal_retry [of u q' i] created_forever [OF assms(1-3)] show ?thesis
    unfolding same assms(4) by blast
qed

theorem retries_return_the_first_seal_witness:
  "seal published_state \<lparr>sr_seal_id = ident 7, sr_request = create_main\<rparr>
     = Inr (published_state, ExistingRetry (ident 1)) \<and>
   seal retired_state \<lparr>sr_seal_id = ident 7, sr_request = create_main\<rparr>
     = Inr (retired_state, Rejected Rej_SchemaUnsupported)"
proof -
  let ?s = "genesis test_genesis" and ?q = "\<lparr>sr_seal_id = ident 1, sr_request = create_main\<rparr>"
  have sealed: "seal ?s ?q = Inr (after ?s [In_Seal ?q], Created (ident 1))"
    by code_simp
  have "bt_contains (pol_supported_schemas (st_policy published_state)) (req_schema create_main) \<and>
      \<not> bt_contains (pol_supported_schemas (st_policy retired_state)) (req_schema create_main)"
    by code_simp
  moreover have "published_state = after (after ?s [In_Seal ?q]) (tl staging_trace @ [cas_input 0 1 1])"
    by code_simp
  moreover have "retired_state = after (after ?s [In_Seal ?q]) [retiring_input]"
    by code_simp
  ultimately show ?thesis
    using retries_return_the_first_seal [OF run_refl sealed after_any] by simp
qed

text \<open>
  C15: an idempotency key never names a second request. Once a request is sealed, a request with
  the same tenant, repository, principal and key but another digest is rejected in every later
  state, and the rejection changes nothing.
\<close>

theorem reused_keys_are_rejected:
  assumes "reachable c s" "seal s q = Inr (t, Created i)" "run any_input t u"
    and "idempotency_scope_of (sr_request q') = idempotency_scope_of (sr_request q)"
    and "req_canonical_request_digest (sr_request q') \<noteq> req_canonical_request_digest (sr_request q)"
  shows "seal u q' = Inr (u, Rejected Rej_IdempotencyKeyReuse)"
  using created_forever(2,3) [OF assms(1-3)] assms(4,5)
  by (intro seal_reuse [of _ _ "req_canonical_request_digest (sr_request q)"])
    (auto simp: idempotency_scope_of_def)

theorem reused_keys_are_rejected_witness:
  "seal (after (genesis test_genesis) [seal_input 1 create_main])
     \<lparr>sr_seal_id = ident 7, sr_request = create_main\<lparr>req_canonical_request_digest := request_digest 9\<rparr>\<rparr>
   = Inr (after (genesis test_genesis) [seal_input 1 create_main], Rejected Rej_IdempotencyKeyReuse)"
proof -
  let ?s = "genesis test_genesis" and ?q = "\<lparr>sr_seal_id = ident 1, sr_request = create_main\<rparr>"
  have sealed: "seal ?s ?q = Inr (after ?s [seal_input 1 create_main], Created (ident 1))"
    by code_simp
  have "request_digest 9 \<noteq> request_digest 1"
    by code_simp
  then show ?thesis
    by (intro reused_keys_are_rejected [OF run_refl sealed run_refl])
      (simp_all add: idempotency_scope_of_def create_main_def test_request_def)
qed

section \<open>Progress\<close>

text \<open>
  C39: the machine is never stuck on a transaction. From any state in which a request is sealed and
  not decided, whatever other transactions prepared, staged or published, preparing it, staging the
  capsule alone and swapping the head decides it, provided the new identities are fresh, the objects
  are durable and no counter is at its end.
\<close>

theorem sealed_transactions_can_be_decided:
  assumes "sealed_as s (pr_request p)" "\<not> is_terminal s (req_tx_id (pr_request p))" "has_room (st_body s)"
    "sg_capsules q = [pr_capsule_id p]" "sg_durability_satisfied q"
    "bt_get (sg_bodies q) (req_tx_id (pr_request p)) = Some bodies"
    "pr_capsule_id p \<notin> bs_set (led_capsules (st_identities s))"
    "sg_batch_id q \<notin> bs_set (led_batches (st_identities s))"
    "sg_candidate_head_id q \<notin> bs_set (led_heads (st_identities s))"
    "dbi_commit bodies \<notin> bs_set (led_commits (st_identities s))"
  shows "\<exists>t. run_inputs s (deciding_inputs s p q) = Inr t \<and> is_terminal t (req_tx_id (pr_request p))"
proof -
  from assms(2) have "outcome_of s (req_tx_id (pr_request p)) = None"
    by (simp add: is_terminal_def)
  from sealed_can_be_decided [OF assms(1) this assms(3-10)] show ?thesis
    by metis
qed

text \<open>One transaction staged and not published, a second one only sealed.\<close>

definition waiting_state :: repository_state where
  "waiting_state =
     reached [seal_input 2 delete_dev, prepare_input 2 delete_dev, stage_input 2 [2], seal_input 3 hold_main]"

definition hold_preparation :: prepare_request where
  "hold_preparation = (case prepare_input 3 hold_main of In_Prepare p \<Rightarrow> p)"

definition hold_staging :: stage_request where
  "hold_staging = (case stage_input 3 [3] of In_Stage q \<Rightarrow> q)"

definition ready :: "repository_state \<Rightarrow> prepare_request \<Rightarrow> stage_request \<Rightarrow> bool" where
  "ready s p q \<longleftrightarrow>
     sealed_as s (pr_request p) \<and> \<not> is_terminal s (req_tx_id (pr_request p)) \<and> has_room (st_body s) \<and>
     sg_capsules q = [pr_capsule_id p] \<and> sg_durability_satisfied q \<and>
     \<not> bt_contains (led_capsules (st_identities s)) (pr_capsule_id p) \<and>
     \<not> bt_contains (led_batches (st_identities s)) (sg_batch_id q) \<and>
     \<not> bt_contains (led_heads (st_identities s)) (sg_candidate_head_id q) \<and>
     (case bt_get (sg_bodies q) (req_tx_id (pr_request p)) of None \<Rightarrow> False
      | Some bodies \<Rightarrow> \<not> bt_contains (led_commits (st_identities s)) (dbi_commit bodies))"

theorem sealed_transactions_can_be_decided_witness:
  "\<exists>t. run_inputs waiting_state (deciding_inputs waiting_state hold_preparation hold_staging) = Inr t \<and>
     is_terminal t (ident 3)"
proof -
  have "req_tx_id (pr_request hold_preparation) = ident 3"
    by code_simp
  moreover have "ready waiting_state hold_preparation hold_staging"
    by code_simp
  ultimately show ?thesis
    using sealed_transactions_can_be_decided [of waiting_state hold_preparation hold_staging]
    by (auto simp: ready_def split: option.splits)
qed

text \<open>
  C40: re-preparation is bounded. Once a run has prepared a transaction four times, every later
  decision of one of its capsules is terminal, against whatever roots and generation it is made: it
  commits, refuses or reports the outcome the transaction already has.
\<close>

theorem repreparation_is_bounded:
  assumes "run_inputs s inputs = Inr t" "4 \<le> length (filter (prepares (caps_tx_id capsule)) inputs)"
  shows "decide_against t capsule roots generation \<noteq> RequiresRepreparation reason"
proof -
  from run_preparations [OF assms(1), of "caps_tx_id capsule"] assms(2)
  have "REPREPARATION_BUDGET \<le> preparations_of t (caps_tx_id capsule)"
    by (simp add: REPREPARATION_BUDGET_def word_le_nat_alt)
  then show ?thesis
    by (auto simp: decide_against_def Let_def split: option.splits prepared_verdict.splits)
qed

definition preparing_trace :: "model_input list" where
  "preparing_trace = seal_input 1 create_main # map (\<lambda>n. prepare_input n create_main) [1, 2, 3, 4]"

theorem repreparation_is_bounded_witness:
  "\<exists>t c. run_inputs (genesis test_genesis) preparing_trace = Inr t \<and> bt_get (st_capsules t) (ident 1) = Some c \<and>
     decide_against t c (st_roots t) (Counter 7) \<noteq> RequiresRepreparation BasisSuperseded"
proof -
  have trace: "case run_inputs (genesis test_genesis) preparing_trace of Inl _ \<Rightarrow> False
    | Inr t \<Rightarrow> (case bt_get (st_capsules t) (ident 1) of None \<Rightarrow> False | Some c \<Rightarrow> caps_tx_id c = ident 1)"
    by code_simp
  then obtain t c where t: "run_inputs (genesis test_genesis) preparing_trace = Inr t"
      and c: "bt_get (st_capsules t) (ident 1) = Some c" "caps_tx_id c = ident 1"
    by (auto split: sum.splits option.splits)
  have "4 \<le> length (filter (prepares (ident 1)) preparing_trace)"
    by code_simp
  with repreparation_is_bounded [OF t, of c] t c show ?thesis
    by auto
qed

end
